(* ===== verification/Prelude.thy ===== *)
theory Prelude
  imports Main "HOL-Library.Word" "HOL-Library.Signed_Division" "HOL-Library.Sublist"
begin

text \<open>
  What the components share of Go and of its standard library: the machine
  integer types, truncated division of \<open>big.Int\<close> (\<open>Quo\<close>), decimal printing and parsing
  (\<open>big.Int.String\<close>, \<open>big.Int.SetString(s, 10)\<close>, \<open>strconv.Atoi\<close>, \<open>strconv.ParseUint\<close>),
  the byte-string functions of package \<open>strings\<close>, and pointers that may be nil.

  Conventions of the whole development:
  \<^item> a Go \<open>string\<close> is a list of bytes (\<^typ>\<open>string\<close>, a char being one byte);
  \<^item> \<open>uint32\<close>, \<open>int32\<close> are \<^typ>\<open>32 word\<close>, read by \<^const>\<open>uint\<close> and \<^const>\<open>sint\<close>;
    \<open>uint64\<close>, \<open>int64\<close> are \<^typ>\<open>64 word\<close>; a conversion between a signed and an
    unsigned type of one width keeps the bits, a narrowing one keeps the low bits;
  \<^item> Go's \<open>int\<close> (64 bits) is \<^typ>\<open>int\<close> where it only holds values converted from
    32-bit integers, which never overflow it;
  \<^item> \<open>*big.Int\<close> is \<^typ>\<open>int option\<close>, nil being \<^const>\<open>None\<close>.
\<close>

named_theorems go_defs \<open>definitions of small Go library functions, unfolded on demand\<close>

type_synonym u32 = "32 word"
type_synonym i32 = "32 word"
type_synonym u64 = "64 word"
type_synonym i64 = "64 word"
type_synonym bigp = "int option"

text \<open>A nil pointer read with the default zero (\<open>if p == nil { p = zero }\<close>).\<close>

definition or_zero :: "bigp \<Rightarrow> int" where
  "or_zero p = (case p of None \<Rightarrow> 0 | Some x \<Rightarrow> x)"

text \<open>\<open>deref\<close> and \<open>deref32\<close> of the Go code: a nil \<open>*int32\<close> reads as 0.\<close>

definition deref32 :: "i32 option \<Rightarrow> i32" where
  "deref32 p = (case p of None \<Rightarrow> 0 | Some x \<Rightarrow> x)"

section \<open>Decimal digits\<close>

definition digit_char :: "nat \<Rightarrow> char" where
  "digit_char d = (char_of (48 + d) :: char)"

definition digit_val :: "char \<Rightarrow> nat option" where
  "digit_val c = (let n = (of_char c :: nat) in if 48 \<le> n \<and> n \<le> 57 then Some (n - 48) else None)"

definition is_digit :: "char \<Rightarrow> bool" where
  "is_digit c = (digit_val c \<noteq> None)"

text \<open>Printing without sign and leading zeros.\<close>

fun nat_dec :: "nat \<Rightarrow> string" where
  "nat_dec n = (if n < 10 then [digit_char n] else nat_dec (n div 10) @ [digit_char (n mod 10)])"

declare nat_dec.simps [simp del]

text \<open>\<open>big.Int.String()\<close> and \<open>fmt\<close>'s \<open>%d\<close>.\<close>

definition int_dec :: "int \<Rightarrow> string" where
  "int_dec i = (if i < 0 then CHR ''-'' # nat_dec (nat (- i)) else nat_dec (nat i))"

text \<open>\<open>bigStr\<close> of the packages \<open>keeper\<close>, \<open>store\<close> and \<open>wsgateway\<close>: a nil integer prints as zero.\<close>

definition bigStr :: "bigp \<Rightarrow> string" where
  "bigStr b = (case b of None \<Rightarrow> ''0'' | Some x \<Rightarrow> int_dec x)"

text \<open>The value of a digit string, read from the left with an accumulator.\<close>

fun digits_val :: "nat \<Rightarrow> string \<Rightarrow> nat option" where
  "digits_val acc [] = Some acc"
| "digits_val acc (c # cs) =
     (case digit_val c of None \<Rightarrow> None | Some d \<Rightarrow> digits_val (10 * acc + d) cs)"

definition parse_nat :: "string \<Rightarrow> nat option" where
  "parse_nat s = (if s = [] then None else digits_val 0 s)"

text \<open>
  \<open>new(big.Int).SetString(s, 10)\<close>: an optional sign, then at least one digit, and
  nothing else; on failure the result is nil.
\<close>

definition big_SetString10 :: "string \<Rightarrow> bigp" where
  "big_SetString10 s =
     (case s of
        [] \<Rightarrow> None
      | c # cs \<Rightarrow>
          if c = CHR ''-'' then map_option (\<lambda>n. - int n) (parse_nat cs)
          else if c = CHR ''+'' then map_option int (parse_nat cs)
          else map_option int (parse_nat s))"

text \<open>\<open>strconv.Atoi\<close> (64-bit \<open>int\<close>) and \<open>strconv.ParseUint(s, 10, 64)\<close>; \<^const>\<open>None\<close> is the error.\<close>

definition strconv_Atoi :: "string \<Rightarrow> int option" where
  "strconv_Atoi s =
     (case big_SetString10 s of
        None \<Rightarrow> None
      | Some i \<Rightarrow> if - (2 ^ 63) \<le> i \<and> i < 2 ^ 63 then Some i else None)"

definition strconv_ParseUint64 :: "string \<Rightarrow> u64 option" where
  "strconv_ParseUint64 s =
     (case parse_nat s of
        None \<Rightarrow> None
      | Some n \<Rightarrow> if n < 2 ^ 64 then Some (of_nat n) else None)"

section \<open>Package strings\<close>

definition strings_Contains :: "string \<Rightarrow> string \<Rightarrow> bool" where
  "strings_Contains s sub = sublist sub s"

text \<open>
  \<open>strings.Cut(s, ".")\<close> and the prefix before \<open>strings.IndexByte\<close>: both split at the first
  occurrence of a byte.
\<close>

definition before_byte :: "char \<Rightarrow> string \<Rightarrow> string" where
  "before_byte b s = takeWhile (\<lambda>c. c \<noteq> b) s"

definition after_byte :: "char \<Rightarrow> string \<Rightarrow> string" where
  "after_byte b s = drop 1 (dropWhile (\<lambda>c. c \<noteq> b) s)"

text \<open>\<open>strings.Split(s, sep)\<close> for a one-byte separator: never empty.\<close>

fun split_byte :: "char \<Rightarrow> string \<Rightarrow> string list" where
  "split_byte b [] = [[]]"
| "split_byte b (c # cs) =
     (if c = b then [] # split_byte b cs
      else (case split_byte b cs of [] \<Rightarrow> [[c]] | x # xs \<Rightarrow> (c # x) # xs))"

text \<open>
  \<open>strings.TrimSpace\<close>. The white space of Unicode, each code point in its UTF-8 bytes:
  the ASCII ones, U+0085, U+00A0, U+1680, U+2000 to U+200A, U+2028, U+2029, U+202F,
  U+205F and U+3000.
\<close>

definition unicode_spaces :: "string list" where
  "unicode_spaces =
     [[CHR 0x20], [CHR 0x09], [CHR 0x0A], [CHR 0x0B], [CHR 0x0C], [CHR 0x0D],
      [CHR 0xC2, CHR 0x85], [CHR 0xC2, CHR 0xA0], [CHR 0xE1, CHR 0x9A, CHR 0x80],
      [CHR 0xE2, CHR 0x80, CHR 0x80], [CHR 0xE2, CHR 0x80, CHR 0x81],
      [CHR 0xE2, CHR 0x80, CHR 0x82], [CHR 0xE2, CHR 0x80, CHR 0x83],
      [CHR 0xE2, CHR 0x80, CHR 0x84], [CHR 0xE2, CHR 0x80, CHR 0x85],
      [CHR 0xE2, CHR 0x80, CHR 0x86], [CHR 0xE2, CHR 0x80, CHR 0x87],
      [CHR 0xE2, CHR 0x80, CHR 0x88], [CHR 0xE2, CHR 0x80, CHR 0x89],
      [CHR 0xE2, CHR 0x80, CHR 0x8A], [CHR 0xE2, CHR 0x80, CHR 0xA8],
      [CHR 0xE2, CHR 0x80, CHR 0xA9], [CHR 0xE2, CHR 0x80, CHR 0xAF],
      [CHR 0xE2, CHR 0x81, CHR 0x9F], [CHR 0xE3, CHR 0x80, CHR 0x80]]"

text \<open>Drop members of a list of patterns from the front while one is a prefix.\<close>

function strip_front :: "string list \<Rightarrow> string \<Rightarrow> string" where
  "strip_front ws s =
     (case filter (\<lambda>w. w \<noteq> [] \<and> prefix w s) ws of
        [] \<Rightarrow> s
      | w # _ \<Rightarrow> strip_front ws (drop (length w) s))"
  by pat_completeness auto
termination
proof (relation "measure (\<lambda>(ws, s). length s)", simp)
  fix ws s w ws'
  assume "filter (\<lambda>w. w \<noteq> [] \<and> prefix w s) ws = w # ws'"
  then have "w \<in> set (filter (\<lambda>w. w \<noteq> [] \<and> prefix w s) ws)" by simp
  then have "w \<noteq> []" and "prefix w s" by auto
  then have "0 < length w" and "length w \<le> length s" by (auto dest: prefix_length_le)
  then have "length s - length w < length s" by linarith
  then show "((ws, drop (length w) s), ws, s) \<in> measure (\<lambda>(ws, s). length s)" by simp
qed

declare strip_front.simps [simp del]

definition strings_TrimSpace :: "string \<Rightarrow> string" where
  "strings_TrimSpace s =
     rev (strip_front (map rev unicode_spaces) (rev (strip_front unicode_spaces s)))"

text \<open>\<open>strings.ToUpper\<close>, \<open>strings.ToLower\<close> on ASCII letters; other bytes are kept.\<close>

definition upper_char :: "char \<Rightarrow> char" where
  "upper_char c = (let n = (of_char c :: nat) in if 97 \<le> n \<and> n \<le> 122 then char_of (n - 32) else c)"

definition lower_char :: "char \<Rightarrow> char" where
  "lower_char c = (let n = (of_char c :: nat) in if 65 \<le> n \<and> n \<le> 90 then char_of (n + 32) else c)"

definition ascii_ToUpper :: "string \<Rightarrow> string" where
  "ascii_ToUpper s = map upper_char s"

definition ascii_ToLower :: "string \<Rightarrow> string" where
  "ascii_ToLower s = map lower_char s"

text \<open>\<open>strings.ToUpper\<close> and \<open>strings.ToLower\<close>; \<open>uni\<close> is the mapping of Unicode, which plays no
  part for an ASCII string.\<close>

definition is_ascii :: "string \<Rightarrow> bool" where
  "is_ascii s = list_all (\<lambda>c. (of_char c :: nat) < 128) s"

definition strings_ToUpper :: "(string \<Rightarrow> string) \<Rightarrow> string \<Rightarrow> string" where
  "strings_ToUpper uni s = (if is_ascii s then ascii_ToUpper s else uni s)"

definition strings_ToLower :: "(string \<Rightarrow> string) \<Rightarrow> string \<Rightarrow> string" where
  "strings_ToLower uni s = (if is_ascii s then ascii_ToLower s else uni s)"

section \<open>Lemmas on pointers and division\<close>

lemma or_zero_simps [simp]: "or_zero None = 0" "or_zero (Some x) = x"
  by (simp_all add: or_zero_def)

lemma deref32_simps [simp]: "deref32 None = 0" "deref32 (Some x) = x"
  by (simp_all add: deref32_def)

text \<open>Truncated division agrees with floor division on a non-negative dividend.\<close>

lemma sdiv_eq_div: "0 \<le> a \<Longrightarrow> 0 < b \<Longrightarrow> (a::int) sdiv b = a div b"
  by (cases "a = 0") (auto simp: signed_divide_int_def)

lemma sdiv_neg_eq: "a \<le> 0 \<Longrightarrow> 0 < b \<Longrightarrow> (a::int) sdiv b = - ((- a) div b)"
  by (cases "a = 0") (auto simp: signed_divide_int_def)

lemma sdiv_nonneg: "0 \<le> a \<Longrightarrow> 0 < b \<Longrightarrow> 0 \<le> (a::int) sdiv b"
  by (simp add: sdiv_eq_div pos_imp_zdiv_nonneg_iff)

lemma sdiv_nonpos: "a \<le> 0 \<Longrightarrow> 0 < b \<Longrightarrow> (a::int) sdiv b \<le> 0"
  by (simp add: sdiv_neg_eq pos_imp_zdiv_nonneg_iff)

lemma sdiv_mono:
  assumes "(a::int) \<le> b" and "0 < c"
  shows "a sdiv c \<le> b sdiv c"
proof (cases "0 \<le> a")
  case True
  with assms show ?thesis by (simp add: sdiv_eq_div zdiv_mono1)
next
  case a: False
  show ?thesis
  proof (cases "0 \<le> b")
    case True
    with a assms show ?thesis using sdiv_nonneg [of b c] sdiv_nonpos [of a c] by linarith
  next
    case False
    have "(- b) div c \<le> (- a) div c" using assms by (intro zdiv_mono1) auto
    with a False assms show ?thesis by (simp add: sdiv_neg_eq)
  qed
qed

lemma uint_pos: "(w :: 'a::len word) \<noteq> 0 \<Longrightarrow> 0 < uint w"
  using uint_0_iff [of w] uint_ge_0 [of w] by (simp add: less_le)

text \<open>Two divisions in a row are one division by the product.\<close>

lemma sdiv_sdiv_eq: "0 < b \<Longrightarrow> 0 < c \<Longrightarrow> ((a::int) sdiv b) sdiv c = a sdiv (b * c)"
proof (cases "0 \<le> a")
  case True
  assume "0 < b" "0 < c"
  with True show ?thesis
    by (simp add: sdiv_eq_div pos_imp_zdiv_nonneg_iff zdiv_zmult2_eq)
next
  case False
  assume "0 < b" "0 < c"
  moreover from this False have "0 \<le> (- a) div b" by (simp add: pos_imp_zdiv_nonneg_iff)
  ultimately show ?thesis
    using False by (simp add: sdiv_neg_eq sdiv_eq_div zdiv_zmult2_eq)
qed

text \<open>The error of a truncated division is less than the divisor and has the dividend's sign.\<close>

lemma sdiv_mult_bounds:
  assumes "0 \<le> a" and "0 < (b::int)"
  shows "a sdiv b * b \<le> a" and "a < a sdiv b * b + b"
proof -
  have eq: "a sdiv b * b = a - a mod b"
    using assms by (simp add: sdiv_eq_div minus_mod_eq_div_mult)
  with assms show "a sdiv b * b \<le> a" and "a < a sdiv b * b + b"
    using pos_mod_sign [of b a] pos_mod_bound [of b a] by linarith+
qed

lemma sdiv_le_self: "0 \<le> a \<Longrightarrow> 0 < b \<Longrightarrow> (a::int) sdiv b \<le> a"
  using sdiv_int_range [of a b] by simp

lemma mult_sdiv_cancel: "0 < b \<Longrightarrow> (a * b) sdiv b = (a::int)"
  by (cases "0 \<le> a") (simp_all add: sdiv_eq_div sdiv_neg_eq mult_nonpos_nonneg
        flip: mult_minus_left)

section \<open>Lemmas on decimal strings\<close>

lemma digit_val_char: "d < 10 \<Longrightarrow> digit_val (digit_char d) = Some d"
  by (simp add: digit_val_def digit_char_def of_char_of)

lemma digit_val_bound: "digit_val c = Some d \<Longrightarrow> d < 10"
  by (auto simp: digit_val_def Let_def split: if_splits)

lemma digits_val_append:
  "digits_val acc (xs @ ys) = Option.bind (digits_val acc xs) (\<lambda>a. digits_val a ys)"
  by (induction xs arbitrary: acc) (auto split: option.splits)

text \<open>The accumulator is worth its decimal shift.\<close>

lemma digits_val_acc:
  "digits_val acc s = map_option (\<lambda>v. acc * 10 ^ length s + v) (digits_val 0 s)"
proof (induction s arbitrary: acc)
  case Nil
  then show ?case by simp
next
  case (Cons c cs)
  show ?case
  proof (cases "digit_val c")
    case None
    then show ?thesis by simp
  next
    case (Some d)
    then have "digits_val acc (c # cs) = digits_val (10 * acc + d) cs"
      and "digits_val 0 (c # cs) = digits_val d cs"
      by simp_all
    then show ?thesis
      unfolding Cons [of "10 * acc + d"] Cons [of d]
      by (cases "digits_val 0 cs") (simp_all add: algebra_simps)
  qed
qed

lemma digits_val_bound: "digits_val 0 s = Some v \<Longrightarrow> v < 10 ^ length s"
proof (induction s arbitrary: v)
  case Nil
  then show ?case by simp
next
  case (Cons c cs)
  then obtain d where d: "digit_val c = Some d" by (auto split: option.splits)
  with Cons.prems have "digits_val d cs = Some v" by simp
  then obtain v' where v': "digits_val 0 cs = Some v'" and v: "v = d * 10 ^ length cs + v'"
    by (subst (asm) digits_val_acc) auto
  from Cons.IH [OF v'] have "v' < 10 ^ length cs" .
  moreover have "d * 10 ^ length cs \<le> 9 * 10 ^ length cs"
    using digit_val_bound [OF d] by (intro mult_right_mono) auto
  ultimately have "v < 10 * 10 ^ length cs" using v by linarith
  then show ?case by simp
qed

lemma digits_val_total: "\<forall>c \<in> set s. is_digit c \<Longrightarrow> \<exists>v. digits_val acc s = Some v"
  by (induction s arbitrary: acc) (auto simp: is_digit_def split: option.splits)

lemma digits_val_digits: "digits_val acc s = Some v \<Longrightarrow> c \<in> set s \<Longrightarrow> is_digit c"
  by (induction s arbitrary: acc) (auto simp: is_digit_def split: option.splits)

lemma digits_val_zeros: "digits_val 0 (replicate n CHR ''0'') = Some 0"
  by (induction n) (simp_all add: digit_val_def)

lemma nat_dec_nonempty [simp]: "nat_dec n \<noteq> []"
  by (subst nat_dec.simps) simp

lemma digits_val_nat_dec: "digits_val 0 (nat_dec n) = Some n"
proof (induction n rule: nat_dec.induct)
  case (1 n)
  show ?case
  proof (cases "n < 10")
    case True
    then show ?thesis by (subst nat_dec.simps) (simp add: digit_val_char)
  next
    case False
    with 1 have "digits_val 0 (nat_dec (n div 10)) = Some (n div 10)" by simp
    with False show ?thesis
      by (subst nat_dec.simps) (simp add: digits_val_append digit_val_char)
  qed
qed

lemma nat_dec_digits: "c \<in> set (nat_dec n) \<Longrightarrow> is_digit c"
  by (rule digits_val_digits [OF digits_val_nat_dec])

lemma parse_nat_nat_dec [simp]: "parse_nat (nat_dec n) = Some n"
  by (simp add: parse_nat_def digits_val_nat_dec)

lemma is_digit_special [simp]:
  "\<not> is_digit CHR ''-''" "\<not> is_digit CHR ''+''" "\<not> is_digit CHR ''|''" "\<not> is_digit CHR ''.''"
  by (simp_all add: is_digit_def digit_val_def)

lemma nat_dec_hd: "nat_dec n = c # cs \<Longrightarrow> is_digit c"
  using nat_dec_digits [of c n] by simp

text \<open>Printing and parsing of big integers are inverse.\<close>

lemma SetString_int_dec [simp]: "big_SetString10 (int_dec i) = Some i"
proof (cases "i < 0")
  case True
  then show ?thesis by (simp add: int_dec_def big_SetString10_def)
next
  case False
  obtain c cs where c: "nat_dec (nat i) = c # cs"
    using nat_dec_nonempty [of "nat i"] by (cases "nat_dec (nat i)") auto
  have "c \<noteq> CHR ''-''" "c \<noteq> CHR ''+''" using nat_dec_hd [OF c] by auto
  with False c show ?thesis
    using parse_nat_nat_dec [of "nat i"] by (simp add: int_dec_def big_SetString10_def)
qed

lemma int_dec_0: "int_dec 0 = ''0''"
  by (simp add: int_dec_def) (subst nat_dec.simps, simp add: digit_char_def char_of_def bit_0)

lemma SetString_bigStr [simp]: "big_SetString10 (bigStr p) = Some (or_zero p)"
  using SetString_int_dec [of 0] by (cases p) (simp_all add: bigStr_def int_dec_0)

lemma int_dec_inject [simp]: "int_dec i = int_dec j \<longleftrightarrow> i = j"
  by (metis SetString_int_dec option.inject)

lemma int_dec_nonempty [simp]: "int_dec i \<noteq> []"
  by (simp add: int_dec_def)

lemma int_dec_chars: "c \<in> set (int_dec i) \<Longrightarrow> c = CHR ''-'' \<or> is_digit c"
  by (auto simp: int_dec_def dest: nat_dec_digits split: if_splits)

lemma bar_notin_int_dec [simp]: "CHR ''|'' \<notin> set (int_dec i)"
  using int_dec_chars [of "CHR ''|''" i] by auto

text \<open>A string that ends in a separator-free field splits there in one way only.\<close>

lemma first_field_unique:
  assumes "f @ b # xs = g @ b # ys" and "b \<notin> set f" and "b \<notin> set g"
  shows "f = g \<and> xs = ys"
  using assms
proof (induction f arbitrary: g)
  case Nil
  then show ?case by (cases g) auto
next
  case (Cons c f)
  then show ?case by (cases g) auto
qed

lemma last_field_unique:
  assumes "xs @ b # f = ys @ b # g" and "b \<notin> set f" and "b \<notin> set g"
  shows "xs = ys \<and> f = g"
proof -
  from assms(1) have "rev (xs @ b # f) = rev (ys @ b # g)" by simp
  then have "rev f @ b # rev xs = rev g @ b # rev ys" by simp
  then have "rev f = rev g \<and> rev xs = rev ys"
    by (rule first_field_unique) (use assms in simp_all)
  then show ?thesis by simp
qed

lemma take_before_byte: "b \<notin> set xs \<Longrightarrow> before_byte b (xs @ b # ys) = xs"
  by (induction xs) (auto simp: before_byte_def)

lemma before_byte_id: "b \<notin> set xs \<Longrightarrow> before_byte b xs = xs"
  by (induction xs) (auto simp: before_byte_def)

lemma after_byte_append: "b \<notin> set xs \<Longrightarrow> after_byte b (xs @ b # ys) = ys"
  by (induction xs) (auto simp: after_byte_def)

lemma after_byte_none: "b \<notin> set xs \<Longrightarrow> after_byte b xs = []"
  by (induction xs) (auto simp: after_byte_def)

lemma strip_front_id:
  assumes "\<forall>w \<in> set ws. \<forall>c \<in> set w. c \<notin> set s"
  shows "strip_front ws s = s"
proof -
  have "\<not> (w \<noteq> [] \<and> prefix w s)" if "w \<in> set ws" for w
    using assms that by (cases w) (auto simp: prefix_def)
  then have "filter (\<lambda>w. w \<noteq> [] \<and> prefix w s) ws = []" by (simp add: filter_empty_conv)
  then show ?thesis by (subst strip_front.simps) simp
qed

lemma TrimSpace_id:
  assumes "\<forall>c \<in> set s. is_digit c \<or> c = CHR ''.''"
  shows "strings_TrimSpace s = s"
proof -
  have "\<forall>w \<in> set unicode_spaces. \<forall>c \<in> set w. \<not> is_digit c \<and> c \<noteq> CHR ''.''"
    by (simp add: unicode_spaces_def is_digit_def digit_val_def)
  then have "\<forall>w \<in> set unicode_spaces. \<forall>c \<in> set w. c \<notin> set s" using assms by blast
  then show ?thesis
    unfolding strings_TrimSpace_def by (subst (1 2) strip_front_id) auto
qed

section \<open>Lemmas on lists\<close>

text \<open>The first element that satisfies a predicate, replaced or removed in place.\<close>

fun update_first :: "('a \<Rightarrow> bool) \<Rightarrow> ('a \<Rightarrow> 'a) \<Rightarrow> 'a list \<Rightarrow> 'a list" where
  "update_first p f [] = []"
| "update_first p f (x # xs) = (if p x then f x # xs else x # update_first p f xs)"

fun remove_first :: "('a \<Rightarrow> bool) \<Rightarrow> 'a list \<Rightarrow> 'a list" where
  "remove_first p [] = []"
| "remove_first p (x # xs) = (if p x then xs else x # remove_first p xs)"

lemma update_first_id: "\<not> (\<exists>x \<in> set xs. p x) \<Longrightarrow> update_first p f xs = xs"
  by (induction xs) auto

lemma remove_first_id: "\<not> (\<exists>x \<in> set xs. p x) \<Longrightarrow> remove_first p xs = xs"
  by (induction xs) auto

lemma map_update_first:
  "(\<And>x. p x \<Longrightarrow> h (f x) = h x) \<Longrightarrow> map h (update_first p f xs) = map h xs"
  by (induction xs) auto

text \<open>Where a key is unique, removing its first bearer is filtering it out.\<close>

lemma remove_first_filter:
  "distinct (map k xs) \<Longrightarrow> remove_first (\<lambda>x. k x = a) xs = filter (\<lambda>x. k x \<noteq> a) xs"
proof (induction xs)
  case (Cons x xs)
  show ?case
  proof (cases "k x = a")
    case True
    with Cons.prems have "a \<notin> k ` set xs" by simp
    then have "\<forall>y \<in> set xs. k y \<noteq> a" by blast
    with True show ?thesis by (simp add: filter_id_conv)
  qed (use Cons in simp)
qed simp

lemma distinct_map_filter: "distinct (map k xs) \<Longrightarrow> distinct (map k (filter p xs))"
  by (induction xs) auto

end
