(* ===== verification/Keeper_Math.thy ===== *)
theory Keeper_Math
  imports Prelude
begin

text \<open>
  The off-chain mirror of the contracts' fee and liquidation arithmetic,
  \<^verbatim>\<open>internal/keeper/math.go\<close>. The Go code computes on \<open>big.Int\<close> with truncating
  division (\<open>Quo\<close>), here \<^typ>\<open>int\<close> and \<open>sdiv\<close>; \<open>uint64\<close> and \<open>uint32\<close> arguments keep
  their width and go through the conversions of the source (\<open>int64(deltaLedgers)\<close>).

  Proved here: when the liquidation price is computed and when an error is returned, that
  its three staged divisions are one division, that it stays between the open price and
  one leverage step from it, that fees only move it towards the open price, what the
  accumulators gain over a ledger interval, and that funding moves value from the heavier
  side to the lighter one.
\<close>

datatype math_err = ErrDivByZero | ErrOverflow | ErrInvalid

definition hundred :: int where "hundred = 100"
definition pScale :: int where "pScale = 10000000000"
definition usdcScale :: int where "usdcScale = 10000000"

definition PendingAccRollover :: "bigp \<Rightarrow> u64 \<Rightarrow> bigp \<Rightarrow> math_err + int" where
  "PendingAccRollover accPerCollateral deltaLedgers rolloverFeePerLedgerP =
     (let acc = or_zero accPerCollateral in
      case rolloverFeePerLedgerP of
        None \<Rightarrow> Inr acc
      | Some fee \<Rightarrow>
          if deltaLedgers = 0 \<or> fee = 0 then Inr acc
          else
            let denom = pScale * hundred;
                num = fee * usdcScale;
                inc = sint deltaLedgers * num
            in Inr (acc + inc sdiv denom))"

definition PendingAccFunding ::
  "bigp \<Rightarrow> bigp \<Rightarrow> bigp \<Rightarrow> bigp \<Rightarrow> u64 \<Rightarrow> bigp \<Rightarrow> math_err + (int \<times> int)" where
  "PendingAccFunding accLongP accShortP oiLongP oiShortP deltaLedgers fundingFeePerLedgerP =
     (let accLong = or_zero accLongP; accShort = or_zero accShortP;
          oiLong = or_zero oiLongP; oiShort = or_zero oiShortP in
      case fundingFeePerLedgerP of
        None \<Rightarrow> Inr (accLong, accShort)
      | Some fee \<Rightarrow>
          if deltaLedgers = 0 \<or> fee = 0 then Inr (accLong, accShort)
          else
            let oiDiff = oiLong - oiShort;
                stage = oiDiff * sint deltaLedgers;
                denom = pScale * hundred;
                paidByLongs = (stage * fee) sdiv denom;
                newLong = (if 0 < oiLong then accLong + (paidByLongs * usdcScale) sdiv oiLong
                           else accLong);
                newShort = (if 0 < oiShort then accShort - (paidByLongs * usdcScale) sdiv oiShort
                            else accShort)
            in Inr (newLong, newShort))"

definition RolloverFeeForTrade :: "bigp \<Rightarrow> bigp \<Rightarrow> bigp \<Rightarrow> math_err + int" where
  "RolloverFeeForTrade accOpen accNow collateral =
     (case collateral of
        None \<Rightarrow> Inl ErrInvalid
      | Some c \<Rightarrow>
          let delta = or_zero accNow - or_zero accOpen
          in if delta = 0 then Inr 0 else Inr ((delta * c) sdiv usdcScale))"

definition FundingFeeForTrade :: "bigp \<Rightarrow> bigp \<Rightarrow> bigp \<Rightarrow> u32 \<Rightarrow> math_err + int" where
  "FundingFeeForTrade accOpen accNow collateral leverage =
     (case collateral of
        None \<Rightarrow> Inl ErrInvalid
      | Some c \<Rightarrow>
          let delta = or_zero accNow - or_zero accOpen
          in if delta = 0 then Inr 0
             else Inr (((delta * c) sdiv usdcScale) * uint leverage))"

definition LiquidationPrice ::
  "bigp \<Rightarrow> bool \<Rightarrow> bigp \<Rightarrow> u32 \<Rightarrow> bigp \<Rightarrow> bigp \<Rightarrow> u32 \<Rightarrow> math_err + int" where
  "LiquidationPrice openPrice isLong collateral leverage rolloverFee fundingFee liqThresholdP =
     (case collateral of
        None \<Rightarrow> Inl ErrDivByZero
      | Some c \<Rightarrow>
          if c = 0 then Inl ErrDivByZero
          else if leverage = 0 then Inl ErrDivByZero
          else (case openPrice of
             None \<Rightarrow> Inl ErrInvalid
           | Some op \<Rightarrow>
               let collThresh = (c * uint liqThresholdP) sdiv hundred;
                   numer = collThresh - or_zero rolloverFee - or_zero fundingFee;
                   stage = (op * numer) sdiv c;
                   distance = stage sdiv uint leverage;
                   liq = (if isLong then op - distance else op + distance)
               in Inr (if liq < 0 then 0 else liq)))"

definition IsLiquidatable :: "bigp \<Rightarrow> bigp \<Rightarrow> bool \<Rightarrow> bool" where
  "IsLiquidatable observed liq isLong =
     (case liq of
        None \<Rightarrow> False
      | Some l \<Rightarrow>
          if l = 0 then False
          else (case observed of
             None \<Rightarrow> False
           | Some p \<Rightarrow> if isLong then p \<le> l else l \<le> p))"

text \<open>
  The result of a call whose error is discarded (\<open>x, _ := f(...)\<close>): nil on an error.
\<close>

definition ignore_err :: "'e + 'a \<Rightarrow> 'a option" where
  "ignore_err r = (case r of Inl _ \<Rightarrow> None | Inr x \<Rightarrow> Some x)"

lemma ignore_err_simps [simp]: "ignore_err (Inl e) = None" "ignore_err (Inr x) = Some x"
  by (simp_all add: ignore_err_def)

lemmas scale_defs = hundred_def pScale_def usdcScale_def

section \<open>The distance of the liquidation price\<close>

text \<open>The specification: one division by collateral times leverage.\<close>

definition liq_distance :: "int \<Rightarrow> int \<Rightarrow> u32 \<Rightarrow> int \<Rightarrow> u32 \<Rightarrow> int" where
  "liq_distance op c lev fees thr =
     (op * ((c * uint thr) sdiv 100 - fees)) sdiv (c * uint lev)"

lemma LiquidationPrice_distance:
  assumes "0 < c" and "lev \<noteq> 0"
  shows "LiquidationPrice (Some op) isLong (Some c) lev rf ff thr =
     Inr (max 0 (if isLong then op - liq_distance op c lev (or_zero rf + or_zero ff) thr
                 else op + liq_distance op c lev (or_zero rf + or_zero ff) thr))"
proof -
  have "((op * ((c * uint thr) sdiv 100 - or_zero rf - or_zero ff)) sdiv c) sdiv uint lev =
      liq_distance op c lev (or_zero rf + or_zero ff) thr"
    using assms by (simp add: liq_distance_def sdiv_sdiv_eq uint_pos algebra_simps)
  then show ?thesis
    using assms by (auto simp: LiquidationPrice_def Let_def hundred_def max_def)
qed

lemma liq_distance_antimono:
  assumes "0 < c" "lev \<noteq> 0" "0 \<le> op" "f1 \<le> f2"
  shows "liq_distance op c lev f2 thr \<le> liq_distance op c lev f1 thr"
  unfolding liq_distance_def
  by (rule sdiv_mono) (use assms uint_pos [of lev] in \<open>auto intro: mult_left_mono\<close>)

lemma liq_distance_bounds:
  assumes "0 < c" "lev \<noteq> 0" "0 \<le> op" "0 \<le> fees" "fees \<le> (c * uint thr) sdiv 100" "uint thr \<le> 100"
  shows "0 \<le> liq_distance op c lev fees thr" and "liq_distance op c lev fees thr \<le> op sdiv uint lev"
proof -
  have lev: "0 < uint lev" using assms(2) by (rule uint_pos)
  let ?n = "(c * uint thr) sdiv 100 - fees"
  show "0 \<le> liq_distance op c lev fees thr"
    unfolding liq_distance_def by (rule sdiv_nonneg) (use assms lev in auto)
  have "(c * uint thr) sdiv 100 \<le> (c * 100) sdiv 100"
    by (rule sdiv_mono) (use assms in auto)
  then have "?n \<le> c" using assms mult_sdiv_cancel [of 100 c] by linarith
  then have "op * ?n \<le> op * c" using assms(3) by (rule mult_left_mono)
  then have "liq_distance op c lev fees thr \<le> (op * c) sdiv (c * uint lev)"
    unfolding liq_distance_def by (rule sdiv_mono) (use assms lev in auto)
  also have "(op * c) sdiv (c * uint lev) = op sdiv uint lev"
    using assms lev by (simp add: sdiv_sdiv_eq [symmetric] mult_sdiv_cancel)
  finally show "liq_distance op c lev fees thr \<le> op sdiv uint lev" .
qed

section \<open>Properties of the liquidation price\<close>

text \<open>C31: which call of LiquidationPrice fails and how. It fails with ErrDivByZero exactly
  when the collateral is nil or zero or the leverage is zero, with ErrInvalid exactly when only
  the open price is missing, and otherwise returns a price that is not negative.\<close>

theorem LiquidationPrice_outcome:
  "(LiquidationPrice op isLong c lev rf ff thr = Inl ErrDivByZero
      \<longleftrightarrow> c = None \<or> c = Some 0 \<or> lev = 0) \<and>
   (LiquidationPrice op isLong c lev rf ff thr = Inl ErrInvalid
      \<longleftrightarrow> (c \<notin> {None, Some 0} \<and> lev \<noteq> 0 \<and> op = None)) \<and>
   ((\<exists>p \<ge> 0. LiquidationPrice op isLong c lev rf ff thr = Inr p)
      \<longleftrightarrow> (c \<notin> {None, Some 0} \<and> lev \<noteq> 0 \<and> op \<noteq> None))"
  by (auto simp: LiquidationPrice_def Let_def split: option.splits)

text \<open>The three truncating divisions of LiquidationPrice (by 100, by the collateral and by the
  leverage) lose nothing against the mathematical formula with a single division by collateral
  times leverage; the result is floored at zero.\<close>

theorem LiquidationPrice_single_division:
  assumes "0 < c" and "lev \<noteq> 0"
  shows "LiquidationPrice (Some op) isLong (Some c) lev rf ff thr =
     Inr (let d = (op * ((c * uint thr) sdiv 100 - (or_zero rf + or_zero ff))) sdiv (c * uint lev)
          in max 0 (if isLong then op - d else op + d))"
  using LiquidationPrice_distance [OF assms] by (simp add: liq_distance_def Let_def)

theorem LiquidationPrice_single_division_witness:
  "LiquidationPrice (Some 614717920722247) True (Some 20000000) 5 None None 90 =
     Inr 504068694992243"
  using LiquidationPrice_single_division [of 20000000 5 614717920722247 True None None 90]
  by (simp add: Let_def)

text \<open>C32: with a threshold of at most 100 percent and fees that have not eaten the threshold, a
  long position's liquidation price lies at or below its open price and at most one leverage step
  (open price divided by leverage) below it; a short position's lies symmetrically above.\<close>

theorem LiquidationPrice_range:
  assumes "0 < c" "lev \<noteq> 0" "0 \<le> op" "uint thr \<le> 100"
    and "0 \<le> or_zero rf + or_zero ff" "or_zero rf + or_zero ff \<le> (c * uint thr) sdiv 100"
  shows "\<exists>p. LiquidationPrice (Some op) isLong (Some c) lev rf ff thr = Inr p \<and>
    (if isLong then op - op sdiv uint lev \<le> p \<and> p \<le> op
     else op \<le> p \<and> p \<le> op + op sdiv uint lev)"
proof -
  note b = liq_distance_bounds [OF assms(1,2,3,5,6,4)]
  have "op sdiv uint lev \<le> op" using assms uint_pos [of lev] by (intro sdiv_le_self) auto
  with b assms(3) show ?thesis by (auto simp: LiquidationPrice_distance [OF assms(1,2)])
qed

theorem LiquidationPrice_range_witness:
  "\<exists>p. LiquidationPrice (Some 1000) True (Some 500) 10 (Some 3) (Some (-1)) 90 = Inr p \<and>
     900 \<le> p \<and> p \<le> 1000"
  using LiquidationPrice_range [of 500 10 1000 90 "Some 3" "Some (-1)" True] by simp

text \<open>Accrued fees only bring liquidation nearer. When the sum of rollover and funding fee
  grows, the liquidation price of a long does not fall and that of a short does not rise.\<close>

theorem LiquidationPrice_fees_mono:
  assumes "0 < c" "lev \<noteq> 0" "0 \<le> op"
    and "or_zero rf1 + or_zero ff1 \<le> or_zero rf2 + or_zero ff2"
    and "LiquidationPrice (Some op) isLong (Some c) lev rf1 ff1 thr = Inr p1"
    and "LiquidationPrice (Some op) isLong (Some c) lev rf2 ff2 thr = Inr p2"
  shows "if isLong then p1 \<le> p2 else p2 \<le> p1"
  using liq_distance_antimono [OF assms(1-4), of thr] assms(5,6)
  by (auto simp: LiquidationPrice_distance [OF assms(1,2)])

theorem LiquidationPrice_fees_mono_witness:
  "LiquidationPrice (Some 1000) True (Some 500) 10 None None 90 = Inr 910 \<and>
   LiquidationPrice (Some 1000) True (Some 500) 10 (Some 100) (Some 50) 90 = Inr 940 \<and>
   (910::int) \<le> 940"
proof -
  have h: "LiquidationPrice (Some 1000) True (Some 500) 10 None None 90 = Inr 910"
    "LiquidationPrice (Some 1000) True (Some 500) 10 (Some 100) (Some 50) 90 = Inr 940"
    by (simp_all add: LiquidationPrice_def hundred_def)
  show ?thesis
    using h LiquidationPrice_fees_mono [OF _ _ _ _ h] by simp
qed

text \<open>A position without fees and with a positive distance is safe at its own open price.\<close>

lemma not_liquidatable_at_open:
  assumes "0 < c" "lev \<noteq> 0" "0 < op" "0 < liq_distance op c lev (or_zero rf + or_zero ff) thr"
  shows "\<not> IsLiquidatable (Some op)
    (ignore_err (LiquidationPrice (Some op) isLong (Some c) lev rf ff thr)) isLong"
  using assms by (auto simp: LiquidationPrice_distance IsLiquidatable_def)

text \<open>Liquidation is monotone in the price: once due, it stays due as the price moves further.\<close>

lemma IsLiquidatable_mono:
  assumes "IsLiquidatable (Some p) l isLong" and "if isLong then q \<le> p else p \<le> q"
  shows "IsLiquidatable (Some q) l isLong"
  using assms by (auto simp: IsLiquidatable_def split: option.splits if_splits)

section \<open>Accumulators\<close>

lemma PendingAccRollover_eq:
  "PendingAccRollover (Some a) d (Some fee) = Inr (a + (sint d * fee) sdiv 100000)"
proof -
  have "(sint d * (fee * 10000000)) sdiv (1000000000000::int) = (sint d * fee) sdiv 100000"
    using sdiv_sdiv_eq [of 10000000 100000 "sint d * fee * 10000000"]
      mult_sdiv_cancel [of 10000000 "sint d * fee"]
    by (simp add: mult.assoc)
  then show ?thesis
    by (auto simp: PendingAccRollover_def Let_def scale_defs)
qed

lemma sint_plus_nowrap:
  fixes x y :: "'a::len word"
  assumes "0 \<le> sint x" "0 \<le> sint y" "sint x + sint y < 2 ^ (LENGTH('a) - 1)"
  shows "sint (x + y) = sint x + sint y"
proof -
  have "sint (x + y) = signed_take_bit (LENGTH('a) - 1) (sint x + sint y)"
    by (simp add: sint_word_ariths)
  also have "\<dots> = sint x + sint y"
    by (rule signed_take_bit_int_eq_self) (use assms in linarith)+
  finally show ?thesis .
qed

lemma div_add_bounds:
  assumes "0 < (c::int)"
  shows "a div c + b div c \<le> (a + b) div c" and "(a + b) div c \<le> a div c + b div c + 1"
proof -
  let ?r = "a mod c + b mod c"
  have "0 \<le> ?r" "?r < 2 * c"
    using assms pos_mod_bound [of c a] pos_mod_bound [of c b] pos_mod_sign [of c a]
      pos_mod_sign [of c b] by linarith+
  then have "0 \<le> ?r div c" using assms by (simp add: pos_imp_zdiv_nonneg_iff)
  moreover have "?r div c < 2"
  proof (rule ccontr)
    assume "\<not> ?r div c < 2"
    with assms have "2 * c \<le> ?r div c * c" by (intro mult_right_mono) auto
    also have "\<dots> \<le> ?r" using assms by (simp add: minus_mod_eq_div_mult [symmetric])
    finally show False using \<open>?r < 2 * c\<close> by simp
  qed
  ultimately show "a div c + b div c \<le> (a + b) div c" "(a + b) div c \<le> a div c + b div c + 1"
    using div_add1_eq [of a b c] by linarith+
qed

text \<open>Projecting the rollover accumulator over an interval in two steps instead of one changes
  it by at most one unit, and never upwards: the projection does not depend on how often it is
  refreshed, up to rounding.\<close>

theorem PendingAccRollover_split:
  assumes "0 \<le> sint d1" "0 \<le> sint d2" "sint d1 + sint d2 < 2 ^ 63" "0 \<le> fee"
    and "PendingAccRollover (Some a) d1 (Some fee) = Inr m"
    and "PendingAccRollover (Some m) d2 (Some fee) = Inr two"
    and "PendingAccRollover (Some a) (d1 + d2) (Some fee) = Inr one"
  shows "two \<le> one \<and> one \<le> two + 1"
proof -
  have "sint (d1 + d2) = sint d1 + sint d2"
    by (rule sint_plus_nowrap) (use assms in auto)
  moreover have "0 \<le> sint d1 * fee" "0 \<le> sint d2 * fee" using assms by auto
  moreover have "m = a + (sint d1 * fee) sdiv 100000" "two = m + (sint d2 * fee) sdiv 100000"
    "one = a + (sint (d1 + d2) * fee) sdiv 100000"
    using assms(5-7) by (simp_all only: PendingAccRollover_eq sum.inject)
  ultimately show ?thesis
    using div_add_bounds [of 100000 "sint d1 * fee" "sint d2 * fee"]
    by (simp add: sdiv_eq_div distrib_right)
qed

theorem PendingAccRollover_split_witness:
  "PendingAccRollover (Some 7) 3 (Some 60000) = Inr 8 \<and>
   PendingAccRollover (Some 8) 3 (Some 60000) = Inr 9 \<and>
   PendingAccRollover (Some 7) (3 + 3) (Some 60000) = Inr 10 \<and> (9::int) \<le> 10"
proof -
  have h: "PendingAccRollover (Some 7) 3 (Some 60000) = Inr 8"
    "PendingAccRollover (Some 8) 3 (Some 60000) = Inr 9"
    "PendingAccRollover (Some 7) (3 + 3) (Some 60000) = Inr 10"
    by (simp_all add: PendingAccRollover_eq)
  have "(9::int) \<le> 10 \<and> (10::int) \<le> 9 + 1"
    by (rule PendingAccRollover_split [OF _ _ _ _ h]) simp_all
  with h show ?thesis by blast
qed

text \<open>The remainder of a truncated division has the dividend's sign and is below the divisor.\<close>

lemma sdiv_rem:
  assumes "0 < (b::int)"
  obtains r where "a sdiv b * b = a - r" "\<bar>r\<bar> < b" "0 \<le> a \<Longrightarrow> 0 \<le> r" "a \<le> 0 \<Longrightarrow> r \<le> 0"
proof (cases "0 \<le> a")
  case True
  with sdiv_mult_bounds [OF this assms] show ?thesis
    by (intro that [of "a - a sdiv b * b"]) auto
next
  case False
  then have "0 \<le> - a" by simp
  from sdiv_mult_bounds [OF this assms] False show ?thesis
    by (intro that [of "a - a sdiv b * b"]) auto
qed

text \<open>Funding is a transfer between the two sides. The amount charged to all longs
  (accumulator change times long open interest) and the amount credited to all shorts differ by
  less than the larger open interest, that is by rounding only; and with a positive rate the side
  with the larger open interest never gains.\<close>

theorem PendingAccFunding_transfer:
  assumes "0 < oL" "0 < oS" "0 < sint d" "0 < fee"
    and "PendingAccFunding (Some aL) (Some aS) (Some oL) (Some oS) d (Some fee) = Inr (nL, nS)"
  shows "\<bar>(nL - aL) * oL - (aS - nS) * oS\<bar> < max oL oS \<and>
    (if oS \<le> oL then aL \<le> nL \<and> nS \<le> aS else nL \<le> aL \<and> aS \<le> nS)"
proof (rule conjI)
  define x where "x = ((oL - oS) * sint d * fee) sdiv (pScale * hundred) * usdcScale"
  have d: "d \<noteq> 0" using assms(3) by auto
  have n: "nL - aL = x sdiv oL" "aS - nS = x sdiv oS"
    using assms d by (auto simp: PendingAccFunding_def Let_def x_def)
  have x: "oS \<le> oL \<Longrightarrow> 0 \<le> x" "oL \<le> oS \<Longrightarrow> x \<le> 0"
    using assms(3,4) unfolding x_def
    by (auto simp: scale_defs intro!: sdiv_nonneg sdiv_nonpos mult_nonneg_nonneg mult_nonpos_nonneg)
  from sdiv_rem [OF assms(1), of x] obtain r where r: "x sdiv oL * oL = x - r" "\<bar>r\<bar> < oL"
    "0 \<le> x \<Longrightarrow> 0 \<le> r" "x \<le> 0 \<Longrightarrow> r \<le> 0" by blast
  from sdiv_rem [OF assms(2), of x] obtain s where s: "x sdiv oS * oS = x - s" "\<bar>s\<bar> < oS"
    "0 \<le> x \<Longrightarrow> 0 \<le> s" "x \<le> 0 \<Longrightarrow> s \<le> 0" by blast
  show "\<bar>(nL - aL) * oL - (aS - nS) * oS\<bar> < max oL oS"
    using x r s by (cases "oS \<le> oL") (auto simp: n)
  show "if oS \<le> oL then aL \<le> nL \<and> nS \<le> aS else nL \<le> aL \<and> aS \<le> nS"
    using n x assms(1,2) sdiv_nonneg [of x oL] sdiv_nonneg [of x oS] sdiv_nonpos [of x oL]
      sdiv_nonpos [of x oS] by auto
qed

theorem PendingAccFunding_transfer_witness:
  "PendingAccFunding (Some 5) (Some 6) (Some 3000) (Some 1000) 100 (Some 50000000) =
     Inr (33338, - 99994) \<and>
   \<bar>((33338::int) - 5) * 3000 - (6 - - 99994) * 1000\<bar> < max 3000 1000"
proof -
  have h: "PendingAccFunding (Some 5) (Some 6) (Some 3000) (Some 1000) 100 (Some 50000000) =
     Inr (33338, - 99994)"
    by (simp add: PendingAccFunding_def scale_defs)
  show ?thesis
    using h PendingAccFunding_transfer [OF _ _ _ _ h] by simp
qed

end
