(* ===== verification/Go_Map.thy ===== *)
theory Go_Map
  imports Prelude "HOL-Library.AList" "HOL-Library.Multiset"
begin

text \<open>
  Go's built-in map, and the rows of a SQL table under their primary key, as association
  lists with distinct keys. The order of the list is the order in which a \<open>range\<close> loop
  visits the map. Go leaves that order open, so every statement of the development about
  an iteration holds for every list that represents the map; where the result does not
  depend on the order, that is proved too.

  The locale \<open>keyed_store\<close> is the interface the components use: what a lookup returns
  after an insertion or a deletion, and that both keep the representation well formed.
\<close>

type_synonym ('k, 'v) gmap = "('k \<times> 'v) list"

definition gm_empty :: "('k, 'v) gmap" where
  "gm_empty = []"

text \<open>\<open>v, ok := m[k]\<close>\<close>

definition gm_get :: "('k, 'v) gmap \<Rightarrow> 'k \<Rightarrow> 'v option" where
  "gm_get m k = map_of m k"

text \<open>\<open>m[k] = v\<close>: an existing entry keeps its place.\<close>

definition gm_put :: "'k \<Rightarrow> 'v \<Rightarrow> ('k, 'v) gmap \<Rightarrow> ('k, 'v) gmap" where
  "gm_put k v m = AList.update k v m"

text \<open>\<open>delete(m, k)\<close>\<close>

definition gm_del :: "'k \<Rightarrow> ('k, 'v) gmap \<Rightarrow> ('k, 'v) gmap" where
  "gm_del k m = AList.delete k m"

text \<open>The values in iteration order (\<open>for _, v := range m\<close>), and the entries.\<close>

definition gm_vals :: "('k, 'v) gmap \<Rightarrow> 'v list" where
  "gm_vals m = map snd m"

definition gm_wf :: "('k, 'v) gmap \<Rightarrow> bool" where
  "gm_wf m = distinct (map fst m)"

text \<open>An update through a pointer held in the map (\<open>if p, ok := m[k]; ok { p.f = ... }\<close>).\<close>

definition gm_modify :: "'k \<Rightarrow> ('v \<Rightarrow> 'v) \<Rightarrow> ('k, 'v) gmap \<Rightarrow> ('k, 'v) gmap" where
  "gm_modify k f m = (case gm_get m k of None \<Rightarrow> m | Some v \<Rightarrow> gm_put k (f v) m)"

text \<open>The interface.\<close>

locale keyed_store =
  fixes empty :: "'m"
    and get :: "'m \<Rightarrow> 'k \<Rightarrow> 'v option"
    and put :: "'k \<Rightarrow> 'v \<Rightarrow> 'm \<Rightarrow> 'm"
    and del :: "'k \<Rightarrow> 'm \<Rightarrow> 'm"
    and wf :: "'m \<Rightarrow> bool"
  assumes get_empty: "get empty k = None"
    and get_put: "get (put k v m) k' = (if k' = k then Some v else get m k')"
    and get_del: "wf m \<Longrightarrow> get (del k m) k' = (if k' = k then None else get m k')"
    and wf_empty: "wf empty"
    and wf_put: "wf m \<Longrightarrow> wf (put k v m)"
    and wf_del: "wf m \<Longrightarrow> wf (del k m)"
begin

lemma dom_put: "dom (get (put k v m)) = insert k (dom (get m))"
  by (auto simp: get_put split: if_splits)

lemma dom_del: "wf m \<Longrightarrow> dom (get (del k m)) = dom (get m) - {k}"
  by (auto simp: get_del split: if_splits)

lemma get_put_as_map: "get (put k v m) = (get m)(k \<mapsto> v)"
  by (rule ext) (simp add: get_put)

lemma get_del_as_map: "wf m \<Longrightarrow> get (del k m) = (get m)(k := None)"
  by (rule ext) (simp add: get_del)

lemma put_twice: "get (put k v (put k v m)) = get (put k v m)"
  by (rule ext) (simp add: get_put)

lemma del_twice: "wf m \<Longrightarrow> get (del k (del k m)) = get (del k m)"
  by (rule ext) (simp add: get_del wf_del)

text \<open>Insertions of a list of entries, in order: the last one of a key wins.\<close>

definition put_all :: "('k \<times> 'v) list \<Rightarrow> 'm \<Rightarrow> 'm" where
  "put_all es m = fold (\<lambda>(k, v). put k v) es m"

lemma wf_put_all: "wf m \<Longrightarrow> wf (put_all es m)"
  by (induction es arbitrary: m) (auto simp: put_all_def wf_put)

lemma get_put_all: "get (put_all es m) = get m ++ map_of (rev es)"
proof (induction es arbitrary: m)
  case Nil
  then show ?case by (simp add: put_all_def)
next
  case (Cons e es)
  obtain k v where e: "e = (k, v)" by (cases e)
  have "put_all (e # es) m = put_all es (put k v m)" by (simp add: put_all_def e)
  then show ?case
    by (simp add: Cons e get_put_as_map map_add_def fun_eq_iff split: option.splits)
qed

end

interpretation gm: keyed_store gm_empty gm_get gm_put gm_del gm_wf
proof
  fix m :: "('k, 'v) gmap" and k k' :: 'k and v :: 'v
  show "gm_get gm_empty k = None" by (simp add: gm_get_def gm_empty_def)
  show "gm_get (gm_put k v m) k' = (if k' = k then Some v else gm_get m k')"
    by (simp add: gm_get_def gm_put_def update_conv)
  show "gm_get (gm_del k m) k' = (if k' = k then None else gm_get m k')"
    by (simp add: gm_get_def gm_del_def delete_conv)
  show "gm_wf (gm_empty :: ('k, 'v) gmap)" by (simp add: gm_wf_def gm_empty_def)
  show "gm_wf m \<Longrightarrow> gm_wf (gm_put k v m)"
    by (simp add: gm_wf_def gm_put_def distinct_update)
  show "gm_wf m \<Longrightarrow> gm_wf (gm_del k m)"
    by (simp add: gm_wf_def gm_del_def distinct_delete)
qed

text \<open>Association lists need no well-formedness for the deletion law.\<close>

lemma gm_get_del [simp]: "gm_get (gm_del k m) k' = (if k' = k then None else gm_get m k')"
  by (simp add: gm_get_def gm_del_def delete_conv)

lemmas gm_simps [simp] = gm.get_empty gm.get_put gm.dom_put
lemmas gm_wf_intros [intro] = gm.wf_empty gm.wf_put gm.wf_del

lemma gm_wf_empty [simp]: "gm_wf gm_empty"
  by (rule gm.wf_empty)

lemma gm_dom_del [simp]: "dom (gm_get (gm_del k m)) = dom (gm_get m) - {k}"
  by (auto split: if_splits)

lemma gm_get_modify [simp]:
  "gm_get (gm_modify k f m) k' = (if k' = k then map_option f (gm_get m k) else gm_get m k')"
  by (simp add: gm_modify_def split: option.splits)

lemma gm_wf_modify [intro]: "gm_wf m \<Longrightarrow> gm_wf (gm_modify k f m)"
  by (auto simp: gm_modify_def split: option.splits)

lemma gm_dom_modify [simp]: "dom (gm_get (gm_modify k f m)) = dom (gm_get m)"
  by (auto simp: domIff split: if_splits)

lemma gm_set_conv: "gm_wf m \<Longrightarrow> (k, v) \<in> set m \<longleftrightarrow> gm_get m k = Some v"
  by (simp add: gm_wf_def gm_get_def)

lemma gm_vals_conv: "gm_wf m \<Longrightarrow> v \<in> set (gm_vals m) \<longleftrightarrow> (\<exists>k. gm_get m k = Some v)"
  by (force simp: gm_vals_def gm_set_conv [symmetric])

lemma gm_put_vals_in: "v \<in> set (gm_vals (gm_put k x m)) \<Longrightarrow> v = x \<or> v \<in> set (gm_vals m)"
  by (induction m) (auto simp: gm_vals_def gm_put_def split: if_splits)

lemma gm_del_vals_in: "v \<in> set (gm_vals (gm_del k m)) \<Longrightarrow> v \<in> set (gm_vals m)"
  by (auto simp: gm_vals_def gm_del_def AList.delete_eq)

lemma gm_put_set: "set (gm_put k v m) \<subseteq> insert (k, v) (set m)"
  by (induction m) (auto simp: gm_put_def)

lemma gm_put_same: "gm_get m k = Some v \<Longrightarrow> gm_put k v m = m"
  by (induction m) (auto simp: gm_get_def gm_put_def split: if_splits)

lemma gm_modify_twice: "(\<And>v. f' (f v) = f v) \<Longrightarrow> gm_modify k f' (gm_modify k f m) = gm_modify k f m"
  by (cases "gm_get m k") (simp_all add: gm_modify_def gm_put_same)

text \<open>A deletion of an absent key changes nothing, not even the order.\<close>

lemma gm_del_absent: "gm_get m k = None \<Longrightarrow> gm_del k m = m"
  by (simp add: gm_get_def gm_del_def delete_idem map_of_eq_None_iff)

text \<open>Two representations of one map are permutations of each other.\<close>

lemma gm_same_mset:
  assumes "gm_wf m" and "gm_wf m'" and "gm_get m = gm_get m'"
  shows "mset m = mset m'"
proof (rule set_eq_iff_mset_eq_distinct [THEN iffD1])
  show "distinct m" and "distinct m'"
    using assms(1,2) by (auto simp: gm_wf_def distinct_map)
  show "set m = set m'"
    using assms by (metis gm_set_conv prod.exhaust subsetI subset_antisym)
qed

text \<open>A well-formed map holds each value under the key it is indexed by, if insertions do so.\<close>

definition keyed_by :: "('v \<Rightarrow> 'k) \<Rightarrow> ('k, 'v) gmap \<Rightarrow> bool" where
  "keyed_by f m = (\<forall>(k, v) \<in> set m. f v = k)"

lemma keyed_by_empty [simp]: "keyed_by f gm_empty"
  by (simp add: keyed_by_def gm_empty_def)

lemma keyed_by_put [intro]: "keyed_by f m \<Longrightarrow> f v = k \<Longrightarrow> keyed_by f (gm_put k v m)"
  by (induction m) (auto simp: keyed_by_def gm_put_def)

lemma keyed_by_del [intro]: "keyed_by f m \<Longrightarrow> keyed_by f (gm_del k m)"
  by (auto simp: keyed_by_def gm_del_def AList.delete_eq)

lemma keyed_by_vals: "keyed_by f m \<Longrightarrow> map f (gm_vals m) = map fst m"
  by (auto simp: keyed_by_def gm_vals_def)

lemma keyed_by_get: "keyed_by f m \<Longrightarrow> gm_get m k = Some v \<Longrightarrow> f v = k"
  by (auto simp: keyed_by_def gm_get_def dest: map_of_SomeD)

lemma keyed_by_modify [intro]:
  "keyed_by f m \<Longrightarrow> (\<And>v. f (g v) = f v) \<Longrightarrow> keyed_by f (gm_modify k g m)"
  by (auto simp: gm_modify_def dest: keyed_by_get split: option.splits)

lemma distinct_vals_key: "gm_wf m \<Longrightarrow> keyed_by f m \<Longrightarrow> distinct (map f (gm_vals m))"
proof -
  assume "gm_wf m" and k: "keyed_by f m"
  moreover from k have "map f (gm_vals m) = map fst m"
    by (auto simp: gm_vals_def keyed_by_def)
  ultimately show ?thesis by (simp add: gm_wf_def)
qed

text \<open>A loop that appends some items per element gives the same items for every order.\<close>

lemma mset_concat_map: "mset (concat (map f xs)) = (\<Sum>x \<in># mset xs. mset (f x))"
  by (induction xs) simp_all

end
