(* ===== verification/Soroban_Scval.thy ===== *)
theory Soroban_Scval
  imports Go_Map "HOL-Library.List_Lexorder" "HOL-Library.Char_ord"
begin

unbundle bit_operations_syntax

text \<open>
  \<^verbatim>\<open>internal/soroban/scval.go\<close>: the walk from an XDR \<open>ScVal\<close> to Go values. The XDR union
  (package \<open>stellar/go/xdr\<close>) is the datatype \<open>scval\<close>: the variants the switch of \<open>Native\<close>
  names, and one constructor for all the others. The strkey encoder
  (\<open>strkey.Encode\<close>) and the printer of a raw \<open>xdr.ScVal\<close> are parameters: both are
  third-party code.

  Proved here: the 128-bit and 256-bit integers are reassembled exactly, with sign, from
  their 64-bit parts, and the walk fails only on an address the encoder rejects.
\<close>

datatype strkey_version = VersionByteAccountID | VersionByteContract

text \<open>An account address may lack its ed25519 key (\<open>raw == nil\<close>); other kinds are rejected.\<close>

datatype scaddress =
    ScAddressTypeAccount "string option"
  | ScAddressTypeContract string
  | ScAddressTypeOther nat

datatype scval =
    ScvBool bool
  | ScvVoid
  | ScvU32 u32
  | ScvI32 i32
  | ScvU64 u64
  | ScvI64 i64
  | ScvU128 u64 u64
  | ScvI128 i64 u64
  | ScvU256 u64 u64 u64 u64
  | ScvI256 i64 u64 u64 u64
  | ScvBytes string
  | ScvString string
  | ScvSymbol string
  | ScvAddress scaddress
  | ScvVec "scval list option"
  | ScvMap "(scval \<times> scval) list option"
  | ScvOther string

text \<open>
  The dynamic types behind Go's \<open>any\<close> that occur here. \<open>AnyNumber\<close> is \<open>json.Number\<close>, which
  \<open>Native\<close> never yields but \<open>events.toBig\<close> accepts.
\<close>

datatype any =
    AnyNil
  | AnyBool bool
  | AnyU32 u32
  | AnyI32 i32
  | AnyU64 u64
  | AnyI64 i64
  | AnyBig int
  | AnyBytes string
  | AnyString string
  | AnySlice "any list"
  | AnyMap "(string, any) gmap"
  | AnyNumber string
  | AnyRaw scval

type_synonym strkey_Encode = "strkey_version \<Rightarrow> string \<Rightarrow> string + string"

section \<open>Integers\<close>

definition u128ToBig :: "u64 \<Rightarrow> u64 \<Rightarrow> int" where
  "u128ToBig hi lo = push_bit 64 (uint hi) OR uint lo"

definition i128ToBig :: "i64 \<Rightarrow> u64 \<Rightarrow> int" where
  "i128ToBig hi lo = push_bit 64 (sint hi) OR uint lo"

definition u256ToBig :: "u64 \<Rightarrow> u64 \<Rightarrow> u64 \<Rightarrow> u64 \<Rightarrow> int" where
  "u256ToBig hihi hilo lohi lolo =
     (let z = uint hihi;
          z = push_bit 64 z OR uint hilo;
          z = push_bit 64 z OR uint lohi
      in push_bit 64 z OR uint lolo)"

definition i256ToBig :: "i64 \<Rightarrow> u64 \<Rightarrow> u64 \<Rightarrow> u64 \<Rightarrow> int" where
  "i256ToBig hihi hilo lohi lolo =
     (let z = push_bit 64 (sint hihi);
          z = z OR uint hilo;
          z = push_bit 64 z OR uint lohi
      in push_bit 64 z OR uint lolo)"

section \<open>Addresses and map keys\<close>

definition addressToStrkey :: "strkey_Encode \<Rightarrow> scaddress \<Rightarrow> string + string" where
  "addressToStrkey enc a =
     (case a of
        ScAddressTypeAccount None \<Rightarrow> Inl ''nil ed25519 in account address''
      | ScAddressTypeAccount (Some raw) \<Rightarrow> enc VersionByteAccountID raw
      | ScAddressTypeContract c \<Rightarrow> enc VersionByteContract c
      | ScAddressTypeOther _ \<Rightarrow> Inl ''unknown address type'')"

fun join_space :: "string list \<Rightarrow> string" where
  "join_space [] = []"
| "join_space [x] = x"
| "join_space (x # y # xs) = x @ '' '' @ join_space (y # xs)"

text \<open>\<open>fmt.Sprintf("%v", x)\<close>; maps are printed in the order of their keys.\<close>

primrec fmt_v :: "(scval \<Rightarrow> string) \<Rightarrow> any \<Rightarrow> string"
  and fmt_v_list :: "(scval \<Rightarrow> string) \<Rightarrow> any list \<Rightarrow> string list"
  and fmt_v_entries :: "(scval \<Rightarrow> string) \<Rightarrow> (string \<times> any) list \<Rightarrow> (string \<times> string) list"
  and fmt_v_entry :: "(scval \<Rightarrow> string) \<Rightarrow> string \<times> any \<Rightarrow> string \<times> string" where
  "fmt_v raw AnyNil = ''<nil>''"
| "fmt_v raw (AnyBool b) = (if b then ''true'' else ''false'')"
| "fmt_v raw (AnyU32 w) = int_dec (uint w)"
| "fmt_v raw (AnyI32 w) = int_dec (sint w)"
| "fmt_v raw (AnyU64 w) = int_dec (uint w)"
| "fmt_v raw (AnyI64 w) = int_dec (sint w)"
| "fmt_v raw (AnyBig i) = int_dec i"
| "fmt_v raw (AnyBytes bs) =
     ''['' @ join_space (map (\<lambda>b. nat_dec (of_char b)) bs) @ '']''"
| "fmt_v raw (AnyString s) = s"
| "fmt_v raw (AnySlice xs) = ''['' @ join_space (fmt_v_list raw xs) @ '']''"
| "fmt_v raw (AnyMap m) =
     ''map['' @ join_space (map (\<lambda>(k, s). k @ '':'' @ s) (sort_key fst (fmt_v_entries raw m))) @ '']''"
| "fmt_v raw (AnyNumber s) = s"
| "fmt_v raw (AnyRaw v) = raw v"
| "fmt_v_list raw [] = []"
| "fmt_v_list raw (x # xs) = fmt_v raw x # fmt_v_list raw xs"
| "fmt_v_entries raw [] = []"
| "fmt_v_entries raw (e # es) = fmt_v_entry raw e # fmt_v_entries raw es"
| "fmt_v_entry raw (k, v) = (k, fmt_v raw v)"

section \<open>Native\<close>

text \<open>
  The recursion over the union, its vectors and its maps. A vector or map stops at the first
  element that fails; a map entry whose key prints like an earlier one overwrites it.
\<close>

primrec Native :: "strkey_Encode \<Rightarrow> (scval \<Rightarrow> string) \<Rightarrow> scval \<Rightarrow> string + any"
  and Native_vec :: "strkey_Encode \<Rightarrow> (scval \<Rightarrow> string) \<Rightarrow> scval list \<Rightarrow> string + any list"
  and Native_vec_opt :: "strkey_Encode \<Rightarrow> (scval \<Rightarrow> string) \<Rightarrow> scval list option \<Rightarrow> string + any list"
  and Native_map :: "strkey_Encode \<Rightarrow> (scval \<Rightarrow> string) \<Rightarrow> (scval \<times> scval) list
        \<Rightarrow> (string, any) gmap \<Rightarrow> string + (string, any) gmap"
  and Native_map_opt :: "strkey_Encode \<Rightarrow> (scval \<Rightarrow> string) \<Rightarrow> (scval \<times> scval) list option
        \<Rightarrow> string + (string, any) gmap"
  and Native_entry :: "strkey_Encode \<Rightarrow> (scval \<Rightarrow> string) \<Rightarrow> scval \<times> scval \<Rightarrow> string + (any \<times> any)"
where
  "Native enc raw (ScvBool b) = Inr (AnyBool b)"
| "Native enc raw ScvVoid = Inr AnyNil"
| "Native enc raw (ScvU32 w) = Inr (AnyU32 w)"
| "Native enc raw (ScvI32 w) = Inr (AnyI32 w)"
| "Native enc raw (ScvU64 w) = Inr (AnyU64 w)"
| "Native enc raw (ScvI64 w) = Inr (AnyI64 w)"
| "Native enc raw (ScvU128 hi lo) = Inr (AnyBig (u128ToBig hi lo))"
| "Native enc raw (ScvI128 hi lo) = Inr (AnyBig (i128ToBig hi lo))"
| "Native enc raw (ScvU256 a b c d) = Inr (AnyBig (u256ToBig a b c d))"
| "Native enc raw (ScvI256 a b c d) = Inr (AnyBig (i256ToBig a b c d))"
| "Native enc raw (ScvBytes bs) = Inr (AnyBytes bs)"
| "Native enc raw (ScvString s) = Inr (AnyString s)"
| "Native enc raw (ScvSymbol s) = Inr (AnyString s)"
| "Native enc raw (ScvAddress a) = map_sum id AnyString (addressToStrkey enc a)"
| "Native enc raw (ScvVec vs) = map_sum id AnySlice (Native_vec_opt enc raw vs)"
| "Native enc raw (ScvMap kvs) = map_sum id AnyMap (Native_map_opt enc raw kvs)"
| "Native enc raw (ScvOther x) = Inr (AnyRaw (ScvOther x))"
| "Native_vec enc raw [] = Inr []"
| "Native_vec enc raw (v # vs) =
     (case Native enc raw v of
        Inl e \<Rightarrow> Inl e
      | Inr n \<Rightarrow> map_sum id (\<lambda>ns. n # ns) (Native_vec enc raw vs))"
| "Native_vec_opt enc raw None = Inr []"
| "Native_vec_opt enc raw (Some vs) = Native_vec enc raw vs"
| "Native_map enc raw [] out = Inr out"
| "Native_map enc raw (kv # kvs) out =
     (case Native_entry enc raw kv of
        Inl e \<Rightarrow> Inl e
      | Inr (kn, vn) \<Rightarrow> Native_map enc raw kvs (gm_put (fmt_v raw kn) vn out))"
| "Native_map_opt enc raw None = Inr gm_empty"
| "Native_map_opt enc raw (Some kvs) = Native_map enc raw kvs gm_empty"
| "Native_entry enc raw (k, v) =
     (case Native enc raw k of
        Inl e \<Rightarrow> Inl e
      | Inr kn \<Rightarrow> (case Native enc raw v of Inl e \<Rightarrow> Inl e | Inr vn \<Rightarrow> Inr (kn, vn)))"

text \<open>The addresses that occur in a value, the only places where the walk can fail.\<close>

primrec addresses :: "scval \<Rightarrow> scaddress list"
  and addresses_vec :: "scval list \<Rightarrow> scaddress list"
  and addresses_vec_opt :: "scval list option \<Rightarrow> scaddress list"
  and addresses_map :: "(scval \<times> scval) list \<Rightarrow> scaddress list"
  and addresses_map_opt :: "(scval \<times> scval) list option \<Rightarrow> scaddress list"
  and addresses_entry :: "scval \<times> scval \<Rightarrow> scaddress list"
where
  "addresses (ScvBool b) = []"
| "addresses ScvVoid = []"
| "addresses (ScvU32 w) = []"
| "addresses (ScvI32 w) = []"
| "addresses (ScvU64 w) = []"
| "addresses (ScvI64 w) = []"
| "addresses (ScvU128 hi lo) = []"
| "addresses (ScvI128 hi lo) = []"
| "addresses (ScvU256 a b c d) = []"
| "addresses (ScvI256 a b c d) = []"
| "addresses (ScvBytes bs) = []"
| "addresses (ScvString s) = []"
| "addresses (ScvSymbol s) = []"
| "addresses (ScvAddress a) = [a]"
| "addresses (ScvVec vs) = addresses_vec_opt vs"
| "addresses (ScvMap kvs) = addresses_map_opt kvs"
| "addresses (ScvOther x) = []"
| "addresses_vec [] = []"
| "addresses_vec (v # vs) = addresses v @ addresses_vec vs"
| "addresses_vec_opt None = []"
| "addresses_vec_opt (Some vs) = addresses_vec vs"
| "addresses_map [] = []"
| "addresses_map (kv # kvs) = addresses_entry kv @ addresses_map kvs"
| "addresses_map_opt None = []"
| "addresses_map_opt (Some kvs) = addresses_map kvs"
| "addresses_entry (k, v) = addresses k @ addresses v"

section \<open>The integers are reassembled exactly\<close>

lemma push_or_add:
  "0 \<le> l \<Longrightarrow> l < 2 ^ n \<Longrightarrow> push_bit n k OR l = k * 2 ^ n + (l :: int)"
  using concat_bit_eq [of n l k]
  by (simp add: concat_bit_def take_bit_int_eq_self or.commute push_bit_eq_mult)

lemma uint64_bounds: "0 \<le> uint (w :: 64 word)" "uint (w :: 64 word) < 2 ^ 64"
  using uint_ge_0 [of w] uint_lt2p [of w] by simp_all

lemma sint64_bounds: "- (2 ^ 63) \<le> sint (w :: 64 word)" "sint (w :: 64 word) < 2 ^ 63"
  using sint_greater_eq [of w] sint_less [of w] by simp_all

lemmas toBig_defs = u128ToBig_def i128ToBig_def u256ToBig_def i256ToBig_def

lemma toBig_eqs:
  "u128ToBig h l = uint h * 2 ^ 64 + uint l"
  "i128ToBig hs l = sint hs * 2 ^ 64 + uint l"
  "u256ToBig a b c d = uint a * 2 ^ 192 + uint b * 2 ^ 128 + uint c * 2 ^ 64 + uint d"
  "i256ToBig as b c d = sint as * 2 ^ 192 + uint b * 2 ^ 128 + uint c * 2 ^ 64 + uint d"
  by (simp_all add: toBig_defs push_or_add uint64_bounds [simplified])

lemma i128ToBig_parts:
  assumes "- (2 ^ 127) \<le> x" and "x < 2 ^ 127"
  shows "i128ToBig (word_of_int (x div 2 ^ 64)) (word_of_int x) = x"
proof -
  have "- (2 ^ 63) \<le> x div 2 ^ 64" "x div 2 ^ 64 < 2 ^ 63" using assms by simp_all
  then have "sint (word_of_int (x div 2 ^ 64) :: 64 word) = x div 2 ^ 64"
    by (simp add: sint_sbintrunc' signed_take_bit_int_eq_self)
  moreover have "uint (word_of_int x :: 64 word) = x mod 2 ^ 64"
    by (simp add: uint_word_of_int)
  ultimately show ?thesis by (simp add: toBig_eqs)
qed

text \<open>C33: the signed 128-bit integers of the chain survive their split into two 64-bit words.
  Whatever parts arrive, the result is in the i128 range, and the parts of any i128 value (the
  floor of the value by \<open>2^64\<close>, and the low 64 bits) are decoded to that value, negative ones
  included.\<close>

theorem i128ToBig_exact:
  assumes "- (2 ^ 127) \<le> x" and "x < 2 ^ 127"
  shows "i128ToBig (word_of_int (x div 2 ^ 64)) (word_of_int x) = x \<and>
    - (2 ^ 127) \<le> i128ToBig hi lo \<and> i128ToBig hi lo < 2 ^ 127"
proof (intro conjI)
  show "i128ToBig (word_of_int (x div 2 ^ 64)) (word_of_int x) = x"
    using assms by (rule i128ToBig_parts)
  have "- (2 ^ 127) \<le> h * 2 ^ 64 + l \<and> h * 2 ^ 64 + l < 2 ^ 127"
    if "- (2 ^ 63) \<le> h" "h < 2 ^ 63" "0 \<le> l" "l < 2 ^ 64" for h l :: int
    using that by simp
  then show "- (2 ^ 127) \<le> i128ToBig hi lo" and "i128ToBig hi lo < 2 ^ 127"
    using sint64_bounds [of hi] uint64_bounds [of lo] unfolding toBig_eqs by blast+
qed

theorem i128ToBig_exact_witness:
  "i128ToBig (word_of_int ((- 5) div 2 ^ 64)) (word_of_int (- 5)) = - 5"
  using i128ToBig_exact [of "- 5"] by simp


text \<open>The walk over the union and the addresses in it.\<close>

abbreviation addr_ok :: "strkey_Encode \<Rightarrow> scaddress \<Rightarrow> bool" where
  "addr_ok enc a \<equiv> \<exists>s. addressToStrkey enc a = Inr s"

lemma map_sum_Inr_conv [simp]: "(\<exists>y. map_sum id f r = Inr y) \<longleftrightarrow> (\<exists>x. r = Inr x)"
  by (cases r) auto

abbreviation native_ok :: "strkey_Encode \<Rightarrow> (scval \<Rightarrow> string) \<Rightarrow> scval \<Rightarrow> bool" where
  "native_ok enc raw v \<equiv> \<exists>n. Native enc raw v = Inr n"

lemma Native_vec_ok:
  "(\<exists>ns. Native_vec enc raw vs = Inr ns) \<longleftrightarrow> (\<forall>v \<in> set vs. native_ok enc raw v)"
  by (induction vs) (auto split: sum.splits)

lemma Native_entry_ok:
  "(\<exists>e. Native_entry enc raw kv = Inr e) \<longleftrightarrow> native_ok enc raw (fst kv) \<and> native_ok enc raw (snd kv)"
  by (cases kv) (auto split: sum.splits)

lemma Native_map_ok:
  "(\<exists>m. Native_map enc raw kvs out = Inr m) \<longleftrightarrow>
     (\<forall>kv \<in> set kvs. native_ok enc raw (fst kv) \<and> native_ok enc raw (snd kv))"
proof (induction kvs arbitrary: out)
  case (Cons kv kvs)
  show ?case
  proof (cases "Native_entry enc raw kv")
    case (Inl e)
    with Native_entry_ok [of enc raw kv] show ?thesis by auto
  next
    case (Inr p)
    with Native_entry_ok [of enc raw kv] Cons show ?thesis by (auto split: prod.splits)
  qed
qed simp

lemma addresses_vec_set: "set (addresses_vec vs) = (\<Union>v \<in> set vs. set (addresses v))"
  by (induction vs) auto

lemma addresses_map_set:
  "set (addresses_map kvs) = (\<Union>kv \<in> set kvs. set (addresses (fst kv)) \<union> set (addresses (snd kv)))"
  by (induction kvs) auto

text \<open>Decoding an XDR value to Go values is total but for addresses. Native returns a value
  exactly when the strkey encoder accepts every address that occurs anywhere in it, in vectors, map
  keys and map values included.\<close>

theorem Native_fails_only_on_addresses:
  "(\<exists>n. Native enc raw v = Inr n) \<longleftrightarrow>
     (\<forall>a. a \<in> set (addresses v) \<longrightarrow> (\<exists>s. addressToStrkey enc a = Inr s))"
proof (induction v)
  case (ScvVec x)
  then show ?case
    by (cases x) (auto simp: Native_vec_ok addresses_vec_set)
next
  case (ScvMap x)
  show ?case
  proof (cases x)
    case (Some kvs)
    have k: "native_ok enc raw (fst kv) \<longleftrightarrow> (\<forall>a. a \<in> set (addresses (fst kv)) \<longrightarrow> addr_ok enc a)"
      and v: "native_ok enc raw (snd kv) \<longleftrightarrow> (\<forall>a. a \<in> set (addresses (snd kv)) \<longrightarrow> addr_ok enc a)"
      if "kv \<in> set kvs" for kv
    proof -
      have "fst kv \<in> Basic_BNFs.fsts kv" "snd kv \<in> Basic_BNFs.snds kv" by (cases kv; simp)+
      moreover have "kvs \<in> set_option x" by (simp add: Some)
      ultimately show "native_ok enc raw (fst kv) \<longleftrightarrow>
          (\<forall>a. a \<in> set (addresses (fst kv)) \<longrightarrow> addr_ok enc a)"
        and "native_ok enc raw (snd kv) \<longleftrightarrow>
          (\<forall>a. a \<in> set (addresses (snd kv)) \<longrightarrow> addr_ok enc a)"
        using that by - (rule ScvMap, assumption+)+
    qed
    have "native_ok enc raw (ScvMap x) \<longleftrightarrow>
        (\<forall>kv \<in> set kvs. native_ok enc raw (fst kv) \<and> native_ok enc raw (snd kv))"
      by (simp add: Some Native_map_ok)
    also have "\<dots> \<longleftrightarrow> (\<forall>kv \<in> set kvs.
        (\<forall>a. a \<in> set (addresses (fst kv)) \<union> set (addresses (snd kv)) \<longrightarrow> addr_ok enc a))"
      by (intro ball_cong refl) (simp add: k v, blast)
    also have "\<dots> \<longleftrightarrow> (\<forall>a. a \<in> set (addresses (ScvMap x)) \<longrightarrow> addr_ok enc a)"
      unfolding Some addresses.simps addresses_map_opt.simps addresses_map_set by blast
    finally show ?thesis .
  qed simp
qed auto

text \<open>An encoder that accepts everything, at a vector of an address and a map.\<close>

theorem Native_fails_only_on_addresses_witness:
  "Native (\<lambda>v r. Inr r) (\<lambda>v. []) (ScvVec (Some [ScvAddress (ScAddressTypeContract ''C''), ScvVoid]))
     = Inr (AnySlice [AnyString ''C'', AnyNil]) \<and>
   (\<exists>s. addressToStrkey (\<lambda>v r. Inr r) (ScAddressTypeContract ''C'') = Inr s)"
proof -
  let ?v = "ScvVec (Some [ScvAddress (ScAddressTypeContract ''C''), ScvVoid])"
  have "Native (\<lambda>v r. Inr r) (\<lambda>v. []) ?v = Inr (AnySlice [AnyString ''C'', AnyNil])"
    by (simp add: addressToStrkey_def)
  then show ?thesis
    using Native_fails_only_on_addresses [of "\<lambda>v r. Inr r" "\<lambda>v. []" ?v] by simp
qed

end
