(* ===== verification/Positions.thy ===== *)
theory Positions
  imports Events
begin

text \<open>
  The abstract specification that the three projections of the event stream share: which
  positions and which limit orders are open after an event. The keeper's \<open>TradeState\<close>, the
  gateway's \<open>TradeCache\<close> and the indexer's tables each keep far more than this, and each is
  shown to implement it in its own theory by interpreting the locale \<open>position_projection\<close>;
  the root theory compares them.

  Keys are compared by the order trader, pair, index, which is also the order of the
  primary keys of the tables.
\<close>

datatype trade_key = TradeKey (tk_Trader: string) (tk_PairIndex: int) (tk_TradeIndex: int)
datatype limit_key = LimitKey (lk_Trader: string) (lk_PairIndex: int) (lk_LimitIndex: int)

instantiation trade_key :: linorder
begin

definition less_eq_trade_key :: "trade_key \<Rightarrow> trade_key \<Rightarrow> bool" where
  "less_eq_trade_key a b \<longleftrightarrow>
     tk_Trader a < tk_Trader b \<or> tk_Trader a = tk_Trader b \<and>
     (tk_PairIndex a < tk_PairIndex b \<or> tk_PairIndex a = tk_PairIndex b \<and>
      tk_TradeIndex a \<le> tk_TradeIndex b)"

definition less_trade_key :: "trade_key \<Rightarrow> trade_key \<Rightarrow> bool" where
  "less_trade_key a b \<longleftrightarrow> a \<le> b \<and> \<not> b \<le> (a :: trade_key)"

instance
proof
  fix a b c :: trade_key
  show "a < b \<longleftrightarrow> a \<le> b \<and> \<not> b \<le> a" by (simp add: less_trade_key_def)
  show "a \<le> a" by (simp add: less_eq_trade_key_def)
  show "a \<le> b \<Longrightarrow> b \<le> c \<Longrightarrow> a \<le> c" unfolding less_eq_trade_key_def by force
  show "a \<le> b \<Longrightarrow> b \<le> a \<Longrightarrow> a = b"
    unfolding less_eq_trade_key_def by (auto intro: trade_key.expand)
  show "a \<le> b \<or> b \<le> a" unfolding less_eq_trade_key_def by force
qed

end

text \<open>
  The key an event names. The \<open>opened\<close> and \<open>placed\<close> events carry the pair in their struct, as a
  \<open>uint32\<close>; the others carry it in a topic, as an \<open>int32\<close>, and a missing one reads as 0.
\<close>

definition opened_key :: "event \<Rightarrow> trade_key option" where
  "opened_key e =
     (case (ev_Trade e, ev_TradeIndex e) of
        (Some t, Some i) \<Rightarrow> Some (TradeKey (ev_Trader e) (uint (tr_PairIndex t)) (sint i))
      | _ \<Rightarrow> None)"

definition trade_key_of :: "event \<Rightarrow> trade_key option" where
  "trade_key_of e =
     map_option (\<lambda>i. TradeKey (ev_Trader e) (sint (deref32 (ev_PairIndex e))) (sint i)) (ev_TradeIndex e)"

definition placed_key :: "event \<Rightarrow> limit_key option" where
  "placed_key e =
     (case (ev_Limit e, ev_LimitIndex e) of
        (Some l, Some i) \<Rightarrow> Some (LimitKey (ev_Trader e) (uint (lo_PairIndex l)) (sint i))
      | _ \<Rightarrow> None)"

definition limit_key_of :: "event \<Rightarrow> limit_key option" where
  "limit_key_of e =
     map_option (\<lambda>i. LimitKey (ev_Trader e) (sint (deref32 (ev_PairIndex e))) (sint i)) (ev_LimitIndex e)"

definition closing_topics :: "string list" where
  "closing_topics = [''closed'', ''liq'', ''tp_sl_executed'']"

definition resolving_topics :: "string list" where
  "resolving_topics = [''executed'', ''canceled'']"

text \<open>The topics of the position manager, by what they do.\<close>

lemma topic_cases:
  obtains (opened) "t = ''opened''" | (closing) "t \<in> set closing_topics" | (tp_sl) "t = ''updated_tp_sl''"
  | (placed) "t = ''placed''" | (resolving) "t \<in> set resolving_topics" | (limit) "t = ''updated_limit''"
  | (other) "t \<notin> set pmTopics"
  unfolding pmTopics_def closing_topics_def resolving_topics_def by auto

text \<open>One event on the set of open positions, and on the set of open limit orders.\<close>

definition open_step :: "event \<Rightarrow> trade_key set \<Rightarrow> trade_key set" where
  "open_step e K =
     (if ev_Topic e = ''opened'' then
        (case opened_key e of None \<Rightarrow> K | Some k \<Rightarrow> insert k K)
      else if ev_Topic e \<in> set closing_topics then
        (case trade_key_of e of None \<Rightarrow> K | Some k \<Rightarrow> K - {k})
      else K)"

definition limit_step :: "event \<Rightarrow> limit_key set \<Rightarrow> limit_key set" where
  "limit_step e K =
     (if ev_Topic e = ''placed'' then
        (case placed_key e of None \<Rightarrow> K | Some k \<Rightarrow> insert k K)
      else if ev_Topic e \<in> set resolving_topics then
        (case limit_key_of e of None \<Rightarrow> K | Some k \<Rightarrow> K - {k})
      else K)"

definition open_run :: "event list \<Rightarrow> trade_key set \<Rightarrow> trade_key set" where
  "open_run es K = fold open_step es K"

definition limit_run :: "event list \<Rightarrow> limit_key set \<Rightarrow> limit_key set" where
  "limit_run es K = fold limit_step es K"

text \<open>The events among the delivered payloads: those that parse.\<close>

definition parsed_events :: "(string \<Rightarrow> string + event) \<Rightarrow> string list \<Rightarrow> event list" where
  "parsed_events unmarshal msgs =
     concat (map (\<lambda>p. case unmarshal p of Inl _ \<Rightarrow> [] | Inr e \<Rightarrow> [e]) msgs)"

text \<open>The interface of a projection.\<close>

locale position_projection =
  fixes project :: "event \<Rightarrow> 's \<Rightarrow> 's"
    and open_of :: "'s \<Rightarrow> trade_key set"
    and limits_of :: "'s \<Rightarrow> limit_key set"
    and inv :: "'s \<Rightarrow> bool"
    and accepts :: "event \<Rightarrow> bool"
  assumes inv_apply: "inv s \<Longrightarrow> accepts e \<Longrightarrow> inv (project e s)"
    and open_apply: "inv s \<Longrightarrow> accepts e \<Longrightarrow> open_of (project e s) = open_step e (open_of s)"
    and limits_apply: "inv s \<Longrightarrow> accepts e \<Longrightarrow> limits_of (project e s) = limit_step e (limits_of s)"
begin

lemma inv_run: "inv s \<Longrightarrow> \<forall>e \<in> set es. accepts e \<Longrightarrow> inv (fold project es s)"
  by (induction es arbitrary: s) (auto simp: inv_apply)

lemma open_of_run:
  "inv s \<Longrightarrow> \<forall>e \<in> set es. accepts e \<Longrightarrow> open_of (fold project es s) = open_run es (open_of s)"
  by (induction es arbitrary: s) (auto simp: open_run_def open_apply inv_apply)

lemma limits_of_run:
  "inv s \<Longrightarrow> \<forall>e \<in> set es. accepts e \<Longrightarrow> limits_of (fold project es s) = limit_run es (limits_of s)"
  by (induction es arbitrary: s) (auto simp: limit_run_def limits_apply inv_apply)

text \<open>A second delivery of an event changes neither set.\<close>

lemma redelivery:
  assumes "inv s" and "accepts e"
  shows "open_of (project e (project e s)) = open_of (project e s)"
    and "limits_of (project e (project e s)) = limits_of (project e s)"
  using assms
  by (auto simp: open_apply limits_apply inv_apply open_step_def limit_step_def split: option.splits)

end

text \<open>
  An \<open>opened\<close> event and the event that closes it name the same key when the pair index in the
  struct is the one in the topic and is below \<open>2 ^ 31\<close>; above, the topic reads as negative.
\<close>

lemma opened_closed_key:
  assumes "ev_Trade e = Some t" "ev_TradeIndex e = Some i" "ev_TradeIndex c = Some i"
    and "ev_PairIndex c = Some (tr_PairIndex t)" "ev_Trader c = ev_Trader e"
    and "uint (tr_PairIndex t) < 2 ^ 31"
  shows "opened_key e = trade_key_of c"
proof -
  have "sint (tr_PairIndex t) = uint (tr_PairIndex t)"
    unfolding sint_uint
    by (rule signed_take_bit_int_eq_self)
      (use assms(6) in \<open>simp_all add: order_trans [OF _ uint_ge_0]\<close>)
  with assms show ?thesis by (simp add: opened_key_def trade_key_of_def)
qed

end
