(* ===== verification/Trade_State.thy ===== *)
theory Trade_State
  imports Keeper_Math Positions
begin

text \<open>
  \<^verbatim>\<open>internal/keeper/state.go\<close>: the keeper's in-memory copy of the open positions, the open
  limit orders and the fee accumulators. Each method runs under the state's mutex, so a
  method is one atomic function on the record \<open>trade_state\<close>; \<open>big.Int\<close> pointers are shared
  between entries but never written through, so they are values here.

  A query is what the driver hands out: an error of \<open>Query\<close>, or the rows, each scanned or
  not (\<open>None\<close> is a row whose \<open>Scan\<close> failed), with the error that \<open>rows.Err()\<close> reports at the
  end. \<open>json.Unmarshal\<close> is a parameter of \<open>SubscribeRedis\<close>.

  Proved here: the invariant of the state, that it tracks exactly the open positions and
  orders of the event stream (the interpretation of \<open>position_projection\<close>), what is known
  of one position from its opening to its closing, and what loading from the database does.
\<close>

record trade_entry =
  te_Key :: trade_key
  te_IsLong :: bool
  te_Leverage :: u32
  te_Collateral :: bigp
  te_OpenPrice :: bigp
  te_AccRolloverOpen :: bigp
  te_AccFundingOpen :: bigp
  te_LiqThresholdP :: u32
  te_LiqPrice :: bigp
  te_TpPrice :: bigp
  te_SlPrice :: bigp

record limit_entry =
  le_Key :: limit_key
  le_IsLong :: bool
  le_LimitPrice :: bigp

record pair_fee_state =
  pf_PairIndex :: int
  pf_AccRollover :: bigp
  pf_AccFundingLong :: bigp
  pf_AccFundingShort :: bigp
  pf_ProjectedAtLedger :: u64

record trade_state =
  ts_trades :: "(trade_key, trade_entry) gmap"
  ts_limits :: "(limit_key, limit_entry) gmap"
  ts_fees :: "(int, pair_fee_state) gmap"

definition NewTradeState :: trade_state where
  "NewTradeState = \<lparr> ts_trades = gm_empty, ts_limits = gm_empty, ts_fees = gm_empty \<rparr>"

section \<open>Loading from the database\<close>

type_synonym 'r db_query = "string + ('r option list \<times> string option)"

record trade_row =
  rw_trader :: string
  rw_pair_index :: int
  rw_trade_index :: int
  rw_is_long :: bool
  rw_leverage :: u32
  rw_collateral :: string
  rw_open_price :: string
  rw_acc_rollover_open :: string
  rw_acc_funding_open :: string
  rw_tp_price :: string
  rw_sl_price :: string
  rw_liq_price :: string
  rw_liq_threshold_p :: u32

record limit_row =
  rl_trader :: string
  rl_pair_index :: int
  rl_limit_index :: int
  rl_is_long :: bool
  rl_limit_price :: string

record fee_row =
  rf_pair_index :: int
  rf_acc_rollover :: string
  rf_acc_funding_long :: string
  rf_acc_funding_short :: string
  rf_projected_at_ledger :: u64

text \<open>The body of the row loops; a row that fails to scan is skipped.\<close>

definition entry_of_row :: "trade_row \<Rightarrow> trade_entry" where
  "entry_of_row r =
     \<lparr> te_Key = TradeKey (rw_trader r) (rw_pair_index r) (rw_trade_index r),
       te_IsLong = rw_is_long r, te_Leverage = rw_leverage r,
       te_Collateral = big_SetString10 (rw_collateral r),
       te_OpenPrice = big_SetString10 (rw_open_price r),
       te_AccRolloverOpen = big_SetString10 (rw_acc_rollover_open r),
       te_AccFundingOpen = big_SetString10 (rw_acc_funding_open r),
       te_LiqThresholdP = rw_liq_threshold_p r,
       te_LiqPrice = big_SetString10 (rw_liq_price r),
       te_TpPrice = big_SetString10 (rw_tp_price r),
       te_SlPrice = big_SetString10 (rw_sl_price r) \<rparr>"

definition load_trade_row :: "trade_row option \<Rightarrow> trade_state \<Rightarrow> trade_state" where
  "load_trade_row ro s =
     (case ro of
        None \<Rightarrow> s
      | Some r \<Rightarrow> let entry = entry_of_row r
                  in s\<lparr>ts_trades := gm_put (te_Key entry) entry (ts_trades s)\<rparr>)"

definition limit_of_row :: "limit_row \<Rightarrow> limit_entry" where
  "limit_of_row r =
     \<lparr> le_Key = LimitKey (rl_trader r) (rl_pair_index r) (rl_limit_index r),
       le_IsLong = rl_is_long r, le_LimitPrice = big_SetString10 (rl_limit_price r) \<rparr>"

definition load_limit_row :: "limit_row option \<Rightarrow> trade_state \<Rightarrow> trade_state" where
  "load_limit_row ro s =
     (case ro of
        None \<Rightarrow> s
      | Some r \<Rightarrow> let entry = limit_of_row r
                  in s\<lparr>ts_limits := gm_put (le_Key entry) entry (ts_limits s)\<rparr>)"

definition fee_of_row :: "fee_row \<Rightarrow> pair_fee_state" where
  "fee_of_row r =
     \<lparr> pf_PairIndex = rf_pair_index r,
       pf_AccRollover = big_SetString10 (rf_acc_rollover r),
       pf_AccFundingLong = big_SetString10 (rf_acc_funding_long r),
       pf_AccFundingShort = big_SetString10 (rf_acc_funding_short r),
       pf_ProjectedAtLedger = rf_projected_at_ledger r \<rparr>"

definition load_fee_row ::
  "fee_row option \<Rightarrow> (int, pair_fee_state) gmap \<Rightarrow> (int, pair_fee_state) gmap" where
  "load_fee_row ro m =
     (case ro of
        None \<Rightarrow> m
      | Some r \<Rightarrow> gm_put (rf_pair_index r) (fee_of_row r) m)"

text \<open>The accumulators are replaced as a whole, and only when the rows were read to the end.\<close>

definition LoadFeeAccumulatorsFromDB ::
  "fee_row db_query \<Rightarrow> trade_state \<Rightarrow> string option \<times> trade_state" where
  "LoadFeeAccumulatorsFromDB q s =
     (case q of
        Inl err \<Rightarrow> (Some err, s)
      | Inr (rows, rows_err) \<Rightarrow>
          let nxt = fold load_fee_row rows gm_empty
          in (case rows_err of
                Some err \<Rightarrow> (Some err, s)
              | None \<Rightarrow> (None, s\<lparr>ts_fees := nxt\<rparr>)))"

definition loadLimitsFromDB ::
  "limit_row db_query \<Rightarrow> trade_state \<Rightarrow> string option \<times> trade_state" where
  "loadLimitsFromDB q s =
     (case q of
        Inl err \<Rightarrow> (Some err, s)
      | Inr (rows, rows_err) \<Rightarrow> (rows_err, fold load_limit_row rows s))"

definition LoadFromDB ::
  "trade_row db_query \<Rightarrow> limit_row db_query \<Rightarrow> fee_row db_query \<Rightarrow> trade_state
   \<Rightarrow> string option \<times> trade_state" where
  "LoadFromDB tq lq fq s =
     (case tq of
        Inl err \<Rightarrow> (Some err, s)
      | Inr (rows, rows_err) \<Rightarrow>
          (case loadLimitsFromDB lq (fold load_trade_row rows s) of
             (Some err, s') \<Rightarrow> (Some err, s')
           | (None, s') \<Rightarrow>
               (case LoadFeeAccumulatorsFromDB fq s' of
                  (Some err, s'') \<Rightarrow> (Some err, s'')
                | (None, s'') \<Rightarrow> (rows_err, s''))))"

section \<open>Events\<close>

definition Remove :: "trade_key \<Rightarrow> trade_state \<Rightarrow> trade_state" where
  "Remove key s = s\<lparr>ts_trades := gm_del key (ts_trades s)\<rparr>"

definition RemoveLimit :: "limit_key \<Rightarrow> trade_state \<Rightarrow> trade_state" where
  "RemoveLimit key s = s\<lparr>ts_limits := gm_del key (ts_limits s)\<rparr>"

text \<open>The entry built by an \<open>opened\<close> event: the threshold is 90, the fees are zero.\<close>

definition entry_of_trade :: "trade_key \<Rightarrow> trade \<Rightarrow> trade_entry" where
  "entry_of_trade key t =
     \<lparr> te_Key = key, te_IsLong = tr_IsLong t, te_Leverage = tr_Leverage t,
       te_Collateral = tr_Collateral t, te_OpenPrice = tr_OpenPrice t,
       te_AccRolloverOpen = tr_AccRolloverOpen t, te_AccFundingOpen = tr_AccFundingOpen t,
       te_LiqThresholdP = 90,
       te_LiqPrice = ignore_err (LiquidationPrice (tr_OpenPrice t) (tr_IsLong t)
          (tr_Collateral t) (tr_Leverage t) None None 90),
       te_TpPrice = tr_TpPrice t, te_SlPrice = tr_SlPrice t \<rparr>"

definition update_tp_sl :: "event \<Rightarrow> trade_entry \<Rightarrow> trade_entry" where
  "update_tp_sl e t =
     (let t = (case ev_TpPrice e of None \<Rightarrow> t | Some x \<Rightarrow> t\<lparr>te_TpPrice := Some x\<rparr>)
      in (case ev_SlPrice e of None \<Rightarrow> t | Some x \<Rightarrow> t\<lparr>te_SlPrice := Some x\<rparr>))"

definition TradeState_Apply :: "event \<Rightarrow> trade_state \<Rightarrow> trade_state" where
  "TradeState_Apply e s =
     (if ev_Topic e = ''opened'' then
        (case (ev_Trade e, ev_TradeIndex e) of
           (Some t, Some i) \<Rightarrow>
             let key = TradeKey (ev_Trader e) (uint (tr_PairIndex t)) (sint i)
             in s\<lparr>ts_trades := gm_put key (entry_of_trade key t) (ts_trades s)\<rparr>
         | _ \<Rightarrow> s)
      else if ev_Topic e = ''closed'' \<or> ev_Topic e = ''liq'' \<or> ev_Topic e = ''tp_sl_executed'' then
        (case ev_TradeIndex e of
           None \<Rightarrow> s
         | Some i \<Rightarrow> Remove (TradeKey (ev_Trader e) (sint (deref32 (ev_PairIndex e))) (sint i)) s)
      else if ev_Topic e = ''updated_tp_sl'' then
        (case ev_TradeIndex e of
           None \<Rightarrow> s
         | Some i \<Rightarrow>
             let key = TradeKey (ev_Trader e) (sint (deref32 (ev_PairIndex e))) (sint i)
             in s\<lparr>ts_trades := gm_modify key (update_tp_sl e) (ts_trades s)\<rparr>)
      else if ev_Topic e = ''placed'' then
        (case (ev_Limit e, ev_LimitIndex e) of
           (Some l, Some i) \<Rightarrow>
             let key = LimitKey (ev_Trader e) (uint (lo_PairIndex l)) (sint i)
             in s\<lparr>ts_limits := gm_put key \<lparr>le_Key = key, le_IsLong = lo_IsLong l,
                    le_LimitPrice = lo_LimitPrice l\<rparr> (ts_limits s)\<rparr>
         | _ \<Rightarrow> s)
      else if ev_Topic e = ''executed'' \<or> ev_Topic e = ''canceled'' then
        (case ev_LimitIndex e of
           None \<Rightarrow> s
         | Some i \<Rightarrow>
             RemoveLimit (LimitKey (ev_Trader e) (sint (deref32 (ev_PairIndex e))) (sint i)) s)
      else if ev_Topic e = ''updated_limit'' then
        (case ev_LimitIndex e of
           None \<Rightarrow> s
         | Some i \<Rightarrow>
             let key = LimitKey (ev_Trader e) (sint (deref32 (ev_PairIndex e))) (sint i)
             in (case ev_LimitPrice e of
                   None \<Rightarrow> s
                 | Some p \<Rightarrow> s\<lparr>ts_limits := gm_modify key (\<lambda>l. l\<lparr>le_LimitPrice := Some p\<rparr>)
                                 (ts_limits s)\<rparr>))
      else s)"

text \<open>The subscription applies every payload that parses, in the order of delivery.\<close>

fun SubscribeRedis :: "(string \<Rightarrow> string + event) \<Rightarrow> string list \<Rightarrow> trade_state \<Rightarrow> trade_state" where
  "SubscribeRedis unmarshal [] s = s"
| "SubscribeRedis unmarshal (payload # msgs) s =
     (case unmarshal payload of
        Inl err \<Rightarrow> SubscribeRedis unmarshal msgs s
      | Inr e \<Rightarrow> SubscribeRedis unmarshal msgs (TradeState_Apply e s))"

section \<open>Queries\<close>

text \<open>\<open>cloneBig\<close> copies the number, which is a value here, so the copy has equal fields.\<close>

definition cloneBig :: "bigp \<Rightarrow> bigp" where
  "cloneBig b = (case b of None \<Rightarrow> None | Some x \<Rightarrow> Some x)"

definition FeeState :: "trade_state \<Rightarrow> int \<Rightarrow> pair_fee_state option" where
  "FeeState s pairIndex =
     (case gm_get (ts_fees s) pairIndex of
        None \<Rightarrow> None
      | Some fee \<Rightarrow>
          Some \<lparr> pf_PairIndex = pf_PairIndex fee, pf_AccRollover = cloneBig (pf_AccRollover fee),
                 pf_AccFundingLong = cloneBig (pf_AccFundingLong fee),
                 pf_AccFundingShort = cloneBig (pf_AccFundingShort fee),
                 pf_ProjectedAtLedger = pf_ProjectedAtLedger fee \<rparr>)"

definition GetTradesForPair :: "trade_state \<Rightarrow> int \<Rightarrow> trade_entry list" where
  "GetTradesForPair s pairIndex =
     filter (\<lambda>t. tk_PairIndex (te_Key t) = pairIndex) (gm_vals (ts_trades s))"

definition GetLimitsForPair :: "trade_state \<Rightarrow> int \<Rightarrow> limit_entry list" where
  "GetLimitsForPair s pairIndex =
     filter (\<lambda>l. lk_PairIndex (le_Key l) = pairIndex) (gm_vals (ts_limits s))"

definition Count :: "trade_state \<Rightarrow> nat" where
  "Count s = length (ts_trades s)"

section \<open>The invariant\<close>

text \<open>Every entry is stored under its own key, and every accumulator under its own pair.\<close>

definition ts_wf :: "trade_state \<Rightarrow> bool" where
  "ts_wf s \<longleftrightarrow> gm_wf (ts_trades s) \<and> keyed_by te_Key (ts_trades s) \<and>
     gm_wf (ts_limits s) \<and> keyed_by le_Key (ts_limits s) \<and>
     gm_wf (ts_fees s) \<and> keyed_by pf_PairIndex (ts_fees s)"

definition ts_open :: "trade_state \<Rightarrow> trade_key set" where
  "ts_open s = dom (gm_get (ts_trades s))"

definition ts_open_limits :: "trade_state \<Rightarrow> limit_key set" where
  "ts_open_limits s = dom (gm_get (ts_limits s))"

lemma entry_keys [simp]:
  "te_Key (entry_of_trade k t) = k" "te_Key (update_tp_sl e x) = te_Key x"
  by (simp_all add: entry_of_trade_def update_tp_sl_def Let_def split: option.splits)

lemma ts_wf_New: "ts_wf NewTradeState"
  by (simp add: ts_wf_def NewTradeState_def)

lemma ts_wf_Apply: "ts_wf s \<Longrightarrow> ts_wf (TradeState_Apply e s)"
  by (auto simp: TradeState_Apply_def ts_wf_def Let_def Remove_def RemoveLimit_def
      split: option.splits)

lemma ts_wf_load_trade_row: "ts_wf s \<Longrightarrow> ts_wf (load_trade_row r s)"
  by (auto simp: load_trade_row_def ts_wf_def Let_def split: option.splits)

lemma ts_wf_load_limit_row: "ts_wf s \<Longrightarrow> ts_wf (load_limit_row r s)"
  by (auto simp: load_limit_row_def ts_wf_def Let_def split: option.splits)

lemma fold_keeps: "P s \<Longrightarrow> (\<And>x s. P s \<Longrightarrow> P (f x s)) \<Longrightarrow> P (fold f xs s)"
  by (induction xs arbitrary: s) auto

lemma load_fees_wf:
  "gm_wf (fold load_fee_row rows gm_empty) \<and> keyed_by pf_PairIndex (fold load_fee_row rows gm_empty)"
  by (rule fold_keeps [where P = "\<lambda>m. gm_wf m \<and> keyed_by pf_PairIndex m"])
    (auto simp: load_fee_row_def fee_of_row_def split: option.splits)

lemma ts_wf_LoadFees: "ts_wf s \<Longrightarrow> ts_wf (snd (LoadFeeAccumulatorsFromDB q s))"
  using load_fees_wf
  by (auto simp: LoadFeeAccumulatorsFromDB_def ts_wf_def Let_def split: sum.splits option.splits)

lemma ts_wf_loadLimits: "ts_wf s \<Longrightarrow> ts_wf (snd (loadLimitsFromDB q s))"
  by (auto simp: loadLimitsFromDB_def split: sum.splits intro: fold_keeps ts_wf_load_limit_row)

lemma ts_wf_LoadFromDB:
  assumes "ts_wf s"
  shows "ts_wf (snd (LoadFromDB tq lq fq s))"
proof (cases tq)
  case (Inr p)
  obtain rows rows_err where p: "p = (rows, rows_err)" by (cases p)
  have "ts_wf (fold load_trade_row rows s)"
    using assms ts_wf_load_trade_row by (rule fold_keeps)
  with Inr p show ?thesis
    using ts_wf_loadLimits [of "fold load_trade_row rows s" lq]
      ts_wf_LoadFees [of "snd (loadLimitsFromDB lq (fold load_trade_row rows s))" fq]
    by (auto simp: LoadFromDB_def split: prod.splits option.splits)
qed (use assms in \<open>simp add: LoadFromDB_def\<close>)

section \<open>The projection\<close>

lemma ts_open_Apply: "ts_open (TradeState_Apply e s) = open_step e (ts_open s)"
  by (auto simp: TradeState_Apply_def ts_open_def open_step_def opened_key_def trade_key_of_def
      closing_topics_def Let_def Remove_def RemoveLimit_def split: option.splits)

lemma ts_limits_Apply: "ts_open_limits (TradeState_Apply e s) = limit_step e (ts_open_limits s)"
  by (auto simp: TradeState_Apply_def ts_open_limits_def limit_step_def placed_key_def
      limit_key_of_def resolving_topics_def Let_def Remove_def RemoveLimit_def split: option.splits)

interpretation keeper: position_projection TradeState_Apply ts_open ts_open_limits ts_wf "\<lambda>_. True"
  by unfold_locales (simp_all add: ts_wf_Apply ts_open_Apply ts_limits_Apply)

lemma SubscribeRedis_fold:
  "SubscribeRedis unmarshal msgs s = fold TradeState_Apply (parsed_events unmarshal msgs) s"
  by (induction msgs arbitrary: s) (auto simp: parsed_events_def split: sum.splits)

text \<open>The rows that scan.\<close>

definition scanned :: "'r option list \<Rightarrow> 'r list" where
  "scanned rows = concat (map (\<lambda>r. case r of None \<Rightarrow> [] | Some x \<Rightarrow> [x]) rows)"

lemma scanned_simps [simp]:
  "scanned [] = []" "scanned (None # rows) = scanned rows" "scanned (Some r # rows) = r # scanned rows"
  by (simp_all add: scanned_def)

lemma scanned_map_Some [simp]: "scanned (map Some rs) = rs"
  by (induction rs) simp_all

text \<open>Loading rows is inserting their entries in order.\<close>

lemma load_trade_rows:
  "fold load_trade_row rows s =
     s\<lparr>ts_trades := gm.put_all (map (\<lambda>r. (te_Key (entry_of_row r), entry_of_row r)) (scanned rows))
        (ts_trades s)\<rparr>"
  by (induction rows arbitrary: s) (auto simp: load_trade_row_def gm.put_all_def Let_def split: option.splits)

lemma load_limit_rows:
  "fold load_limit_row rows s =
     s\<lparr>ts_limits := gm.put_all (map (\<lambda>r. (le_Key (limit_of_row r), limit_of_row r)) (scanned rows))
        (ts_limits s)\<rparr>"
  by (induction rows arbitrary: s) (auto simp: load_limit_row_def gm.put_all_def Let_def split: option.splits)

lemma dom_put_all: "dom (gm_get (gm.put_all es m)) = fst ` set es \<union> dom (gm_get m)"
  by (auto simp: gm.get_put_all dom_map_of_conv_image_fst)

lemma LoadFromDB_result:
  assumes "LoadFromDB (Inr (trows, terr)) (Inr (lrows, lerr)) fq s = (None, s')"
  shows "ts_trades s' =
      gm.put_all (map (\<lambda>r. (te_Key (entry_of_row r), entry_of_row r)) (scanned trows)) (ts_trades s)"
    and "ts_limits s' =
      gm.put_all (map (\<lambda>r. (le_Key (limit_of_row r), limit_of_row r)) (scanned lrows)) (ts_limits s)"
  using assms
  by (auto simp: LoadFromDB_def loadLimitsFromDB_def LoadFeeAccumulatorsFromDB_def Let_def
      load_trade_rows load_limit_rows split: sum.splits prod.splits option.splits)

section \<open>Properties\<close>

text \<open>The keeper's state after start-up (loading from the database, whatever the queries
  return) and any sequence of Redis messages is well formed, and the positions and limit orders it
  watches are exactly the loaded ones updated by the parsed events: inserted by opened and placed,
  removed by closed, liq, tp_sl_executed, executed and canceled, and by nothing else.\<close>

theorem SubscribeRedis_tracks_stream:
  "let s0 = snd (LoadFromDB tq lq fq NewTradeState);
       s = SubscribeRedis unmarshal msgs s0;
       es = parsed_events unmarshal msgs
   in ts_wf s \<and> ts_open s = open_run es (ts_open s0) \<and>
      ts_open_limits s = limit_run es (ts_open_limits s0)"
proof -
  have "ts_wf (snd (LoadFromDB tq lq fq NewTradeState))"
    by (rule ts_wf_LoadFromDB [OF ts_wf_New])
  then show ?thesis
    by (simp add: Let_def SubscribeRedis_fold keeper.inv_run keeper.open_of_run keeper.limits_of_run)
qed

text \<open>
  The take-profit and stop-loss of one position after a run of events: the last price that an
  update of this position carried.
\<close>

definition tp_after :: "trade_key \<Rightarrow> event list \<Rightarrow> bigp \<Rightarrow> bigp" where
  "tp_after k es tp = fold (\<lambda>e x. if ev_Topic e = ''updated_tp_sl'' \<and> trade_key_of e = Some k \<and>
     ev_TpPrice e \<noteq> None then ev_TpPrice e else x) es tp"

definition sl_after :: "trade_key \<Rightarrow> event list \<Rightarrow> bigp \<Rightarrow> bigp" where
  "sl_after k es sl = fold (\<lambda>e x. if ev_Topic e = ''updated_tp_sl'' \<and> trade_key_of e = Some k \<and>
     ev_SlPrice e \<noteq> None then ev_SlPrice e else x) es sl"

text \<open>An event that neither opens nor closes the position.\<close>

definition leaves_trade :: "trade_key \<Rightarrow> event \<Rightarrow> bool" where
  "leaves_trade k e \<longleftrightarrow> \<not> (ev_Topic e = ''opened'' \<and> opened_key e = Some k) \<and>
     \<not> (ev_Topic e \<in> set closing_topics \<and> trade_key_of e = Some k)"

lemma Apply_leaves_trade:
  assumes "leaves_trade k e"
  shows "gm_get (ts_trades (TradeState_Apply e s)) k =
    (if ev_Topic e = ''updated_tp_sl'' \<and> trade_key_of e = Some k
     then map_option (update_tp_sl e) (gm_get (ts_trades s) k) else gm_get (ts_trades s) k)"
  using assms
  by (auto simp: TradeState_Apply_def leaves_trade_def opened_key_def trade_key_of_def
      closing_topics_def Let_def Remove_def RemoveLimit_def split: option.splits)

lemma Apply_opened:
  assumes "ev_Topic e = ''opened''" "ev_Trade e = Some t" "opened_key e = Some k"
  shows "gm_get (ts_trades (TradeState_Apply e s)) k = Some (entry_of_trade k t)"
  using assms by (auto simp: TradeState_Apply_def opened_key_def Let_def split: option.splits)

lemma run_leaves_trade:
  assumes "\<forall>e \<in> set es. leaves_trade k e" and "gm_get (ts_trades s) k = Some x"
  shows "gm_get (ts_trades (fold TradeState_Apply es s)) k =
    Some (x\<lparr>te_TpPrice := tp_after k es (te_TpPrice x), te_SlPrice := sl_after k es (te_SlPrice x)\<rparr>)"
  using assms
proof (induction es arbitrary: s x)
  case Nil
  then show ?case by (simp add: tp_after_def sl_after_def)
next
  case (Cons e es)
  let ?x = "if ev_Topic e = ''updated_tp_sl'' \<and> trade_key_of e = Some k then update_tp_sl e x else x"
  have "gm_get (ts_trades (TradeState_Apply e s)) k = Some ?x"
    using Cons.prems by (simp add: Apply_leaves_trade)
  with Cons have "gm_get (ts_trades (fold TradeState_Apply (e # es) s)) k =
    Some (?x\<lparr>te_TpPrice := tp_after k es (te_TpPrice ?x), te_SlPrice := sl_after k es (te_SlPrice ?x)\<rparr>)"
    by simp
  moreover have "?x\<lparr>te_TpPrice := p, te_SlPrice := q\<rparr> = x\<lparr>te_TpPrice := p, te_SlPrice := q\<rparr>" for p q
    by (simp add: update_tp_sl_def Let_def split: option.splits)
  moreover have "te_TpPrice ?x = tp_after k [e] (te_TpPrice x)"
      and "te_SlPrice ?x = sl_after k [e] (te_SlPrice x)"
    by (auto simp: tp_after_def sl_after_def update_tp_sl_def Let_def split: option.splits)
  ultimately show ?case by (simp only: tp_after_def sl_after_def fold_simps)
qed

text \<open>The life of one position in the keeper. From its opened event until an event closes it
  (or opens it again), whatever other events arrive, the keeper holds for its key the entry built
  from the event's trade, with the liquidation price at threshold 90 and no fees, and with the
  take-profit and the stop-loss of the last update that carried one.\<close>

theorem TradeState_entry_lifetime:
  assumes "ev_Topic e = ''opened''" "ev_Trade e = Some t" "opened_key e = Some k"
    and "\<forall>e' \<in> set es. leaves_trade k e'"
  shows "gm_get (ts_trades (fold TradeState_Apply (e # es) s)) k =
    Some ((entry_of_trade k t)\<lparr>te_TpPrice := tp_after k es (tr_TpPrice t),
                               te_SlPrice := sl_after k es (tr_SlPrice t)\<rparr>)"
  using run_leaves_trade [OF assms(4) Apply_opened [OF assms(1-3)]]
  by (simp add: entry_of_trade_def)

definition demo_opened :: event where
  "demo_opened = zero_event\<lparr>ev_Source := SrcPM, ev_Topic := ''opened'', ev_Trader := ''alice'',
     ev_PairIndex := Some 1, ev_TradeIndex := Some 2,
     ev_Trade := Some (zero_trade\<lparr>tr_PairIndex := 1, tr_IsLong := True, tr_Leverage := 10,
        tr_OpenPrice := Some 1000, tr_Collateral := Some 500, tr_TpPrice := Some 1200,
        tr_SlPrice := Some 0\<rparr>)\<rparr>"

definition demo_update :: event where
  "demo_update = zero_event\<lparr>ev_Source := SrcPM, ev_Topic := ''updated_tp_sl'',
     ev_Trader := ''alice'', ev_PairIndex := Some 1, ev_TradeIndex := Some 2,
     ev_TpPrice := Some 1300, ev_SlPrice := None\<rparr>"

definition demo_close :: event where
  "demo_close = zero_event\<lparr>ev_Source := SrcPM, ev_Topic := ''closed'',
     ev_Trader := ''alice'', ev_PairIndex := Some 1, ev_TradeIndex := Some 2,
     ev_ClosePrice := Some 1100, ev_NetPnl := Some 400\<rparr>"

lemmas demo_event_defs = demo_opened_def demo_update_def demo_close_def zero_event_def zero_trade_def

theorem TradeState_entry_lifetime_witness:
  "map_option (\<lambda>x. (te_LiqPrice x, te_TpPrice x, te_SlPrice x))
     (gm_get (ts_trades (fold TradeState_Apply [demo_opened, demo_update] NewTradeState))
        (TradeKey ''alice'' 1 2)) = Some (Some 910, Some 1300, Some 0)"
proof -
  let ?k = "TradeKey ''alice'' 1 2"
  have k: "opened_key demo_opened = Some ?k" and l: "\<forall>e \<in> set [demo_update]. leaves_trade ?k e"
    by (simp_all add: demo_event_defs opened_key_def leaves_trade_def closing_topics_def)
  show ?thesis
    by (subst TradeState_entry_lifetime [where t = "the (ev_Trade demo_opened)", OF _ _ k l])
      (simp_all add: demo_event_defs entry_of_trade_def tp_after_def sl_after_def trade_key_of_def
        LiquidationPrice_def hundred_def)
qed

end
