(* ===== verification/Detector.thy ===== *)
theory Detector
  imports Trade_State
begin

text \<open>
  \<^verbatim>\<open>internal/keeper/detector.go\<close>: which positions and limit orders a price makes due.
  A nil price makes \<open>price.Cmp\<close> panic once a set take-profit or stop-loss is compared with
  it; a panic is \<^const>\<open>None\<close>.

  Proved here: exactly which actions \<open>Detect\<close> returns, that a position gets at most one and
  liquidation comes first, and that the result does not depend on the order in which Go
  iterates the maps.
\<close>

datatype action_type = ActionLiquidate | ActionTpSl | ActionLimit

record pending_action =
  pa_Type :: action_type
  pa_Key :: trade_key
  pa_IsLong :: bool
  pa_LimitIndex :: int

definition currentLiquidationPrice :: "trade_entry \<Rightarrow> pair_fee_state \<Rightarrow> math_err + int" where
  "currentLiquidationPrice t fee =
     (let accFundingNow = (if te_IsLong t then pf_AccFundingLong fee else pf_AccFundingShort fee)
      in case RolloverFeeForTrade (te_AccRolloverOpen t) (pf_AccRollover fee) (te_Collateral t) of
           Inl err \<Rightarrow> Inl err
         | Inr rolloverFee \<Rightarrow>
             (case FundingFeeForTrade (te_AccFundingOpen t) accFundingNow (te_Collateral t)
                     (te_Leverage t) of
                Inl err \<Rightarrow> Inl err
              | Inr fundingFee \<Rightarrow>
                  let liqThresholdP = (if te_LiqThresholdP t = 0 then 90 else te_LiqThresholdP t)
                  in LiquidationPrice (te_OpenPrice t) (te_IsLong t) (te_Collateral t)
                       (te_Leverage t) (Some rolloverFee) (Some fundingFee) liqThresholdP))"

definition checkLimit :: "bigp \<Rightarrow> bigp \<Rightarrow> bool \<Rightarrow> bool" where
  "checkLimit price limit isLong =
     (case limit of
        None \<Rightarrow> False
      | Some l \<Rightarrow>
          if l \<le> 0 then False
          else (case price of
                  None \<Rightarrow> False
                | Some p \<Rightarrow> if isLong then p \<le> l else l \<le> p))"

text \<open>\<open>x != nil && x.Cmp(zero_) > 0 && price.Cmp(x) ...\<close>, the last conjunct panicking on a nil price.\<close>

definition set_and_crossed :: "bigp \<Rightarrow> bigp \<Rightarrow> (int \<Rightarrow> int \<Rightarrow> bool) \<Rightarrow> bool option" where
  "set_and_crossed price x cmp =
     (case x of
        None \<Rightarrow> Some False
      | Some l \<Rightarrow>
          if l \<le> 0 then Some False
          else (case price of None \<Rightarrow> None | Some p \<Rightarrow> Some (cmp p l)))"

definition checkTpSl :: "bigp \<Rightarrow> bigp \<Rightarrow> bigp \<Rightarrow> bool \<Rightarrow> bool option" where
  "checkTpSl price tp sl isLong =
     (if isLong then
        (case set_and_crossed price tp (\<lambda>p l. p \<ge> l) of
           None \<Rightarrow> None
         | Some True \<Rightarrow> Some True
         | Some False \<Rightarrow> set_and_crossed price sl (\<lambda>p l. p \<le> l))
      else
        (case set_and_crossed price tp (\<lambda>p l. p \<le> l) of
           None \<Rightarrow> None
         | Some True \<Rightarrow> Some True
         | Some False \<Rightarrow> set_and_crossed price sl (\<lambda>p l. p \<ge> l)))"

text \<open>The liquidation price that \<open>Detect\<close> tests: the one with fees when it can be computed.\<close>

definition effective_liq :: "trade_state \<Rightarrow> int \<Rightarrow> trade_entry \<Rightarrow> bigp" where
  "effective_liq s pairIndex t =
     (case FeeState s pairIndex of
        None \<Rightarrow> te_LiqPrice t
      | Some fee \<Rightarrow>
          (case currentLiquidationPrice t fee of
             Inl _ \<Rightarrow> te_LiqPrice t
           | Inr current \<Rightarrow> Some current))"

fun detect_trades ::
  "trade_state \<Rightarrow> int \<Rightarrow> bigp \<Rightarrow> trade_entry list \<Rightarrow> pending_action list option" where
  "detect_trades s pairIndex price [] = Some []"
| "detect_trades s pairIndex price (t # ts) =
     (if IsLiquidatable price (effective_liq s pairIndex t) (te_IsLong t) then
        map_option (Cons \<lparr>pa_Type = ActionLiquidate, pa_Key = te_Key t, pa_IsLong = te_IsLong t,
                          pa_LimitIndex = 0\<rparr>)
          (detect_trades s pairIndex price ts)
      else
        (case checkTpSl price (te_TpPrice t) (te_SlPrice t) (te_IsLong t) of
           None \<Rightarrow> None
         | Some True \<Rightarrow>
             map_option (Cons \<lparr>pa_Type = ActionTpSl, pa_Key = te_Key t, pa_IsLong = te_IsLong t,
                               pa_LimitIndex = 0\<rparr>)
               (detect_trades s pairIndex price ts)
         | Some False \<Rightarrow> detect_trades s pairIndex price ts))"

definition detect_limits :: "bigp \<Rightarrow> limit_entry list \<Rightarrow> pending_action list" where
  "detect_limits price ls =
     map (\<lambda>l. \<lparr>pa_Type = ActionLimit,
               pa_Key = TradeKey (lk_Trader (le_Key l)) (lk_PairIndex (le_Key l)) 0,
               pa_IsLong = le_IsLong l, pa_LimitIndex = lk_LimitIndex (le_Key l)\<rparr>)
       (filter (\<lambda>l. checkLimit price (le_LimitPrice l) (le_IsLong l)) ls)"

definition Detect :: "int \<Rightarrow> bigp \<Rightarrow> trade_state \<Rightarrow> pending_action list option" where
  "Detect pairIndex price s =
     (case detect_trades s pairIndex price (GetTradesForPair s pairIndex) of
        None \<Rightarrow> None
      | Some actions \<Rightarrow> Some (actions @ detect_limits price (GetLimitsForPair s pairIndex)))"

section \<open>What makes an action due\<close>

text \<open>The specification: a level is reached from below or from above; a level of zero is unset.\<close>

definition tp_sl_due :: "int \<Rightarrow> bigp \<Rightarrow> bigp \<Rightarrow> bool \<Rightarrow> bool" where
  "tp_sl_due p tp sl isLong \<longleftrightarrow>
     (\<exists>x > 0. tp = Some x \<and> (if isLong then x \<le> p else p \<le> x)) \<or>
     (\<exists>x > 0. sl = Some x \<and> (if isLong then p \<le> x else x \<le> p))"

definition limit_due :: "int \<Rightarrow> bigp \<Rightarrow> bool \<Rightarrow> bool" where
  "limit_due p limit isLong \<longleftrightarrow> (\<exists>x > 0. limit = Some x \<and> (if isLong then p \<le> x else x \<le> p))"

lemma checkTpSl_eq: "checkTpSl (Some p) tp sl isLong = Some (tp_sl_due p tp sl isLong)"
  by (cases tp; cases sl) (auto simp: checkTpSl_def set_and_crossed_def tp_sl_due_def split: bool.splits)

lemma checkLimit_eq: "checkLimit (Some p) limit isLong = limit_due p limit isLong"
  by (cases limit) (auto simp: checkLimit_def limit_due_def)

text \<open>The action of one position, if any.\<close>

definition trade_action :: "trade_state \<Rightarrow> int \<Rightarrow> int \<Rightarrow> trade_entry \<Rightarrow> pending_action list" where
  "trade_action s pairIndex p t =
     (let act = (\<lambda>ty. \<lparr>pa_Type = ty, pa_Key = te_Key t, pa_IsLong = te_IsLong t, pa_LimitIndex = 0\<rparr>)
      in if IsLiquidatable (Some p) (effective_liq s pairIndex t) (te_IsLong t)
         then [act ActionLiquidate]
         else if tp_sl_due p (te_TpPrice t) (te_SlPrice t) (te_IsLong t) then [act ActionTpSl]
         else [])"

definition limit_action :: "int \<Rightarrow> limit_entry \<Rightarrow> pending_action list" where
  "limit_action p l =
     (if limit_due p (le_LimitPrice l) (le_IsLong l)
      then [\<lparr>pa_Type = ActionLimit,
             pa_Key = TradeKey (lk_Trader (le_Key l)) (lk_PairIndex (le_Key l)) 0,
             pa_IsLong = le_IsLong l, pa_LimitIndex = lk_LimitIndex (le_Key l)\<rparr>]
      else [])"

lemma detect_trades_eq:
  "detect_trades s pairIndex (Some p) ts = Some (concat (map (trade_action s pairIndex p) ts))"
  by (induction ts) (auto simp: checkTpSl_eq trade_action_def Let_def split: option.splits bool.splits)

lemma detect_limits_eq: "detect_limits (Some p) ls = concat (map (limit_action p) ls)"
  by (induction ls) (auto simp: detect_limits_def checkLimit_eq limit_action_def)

lemma Detect_eq:
  "Detect pairIndex (Some p) s =
     Some (concat (map (trade_action s pairIndex p) (GetTradesForPair s pairIndex)) @
           concat (map (limit_action p) (GetLimitsForPair s pairIndex)))"
  by (simp add: Detect_def detect_trades_eq detect_limits_eq)

lemma GetTradesForPair_iff:
  assumes "ts_wf s"
  shows "t \<in> set (GetTradesForPair s pairIndex) \<longleftrightarrow>
    gm_get (ts_trades s) (te_Key t) = Some t \<and> tk_PairIndex (te_Key t) = pairIndex"
  using assms keyed_by_get [of te_Key "ts_trades s"]
  by (auto simp: GetTradesForPair_def ts_wf_def gm_vals_conv)

lemma GetLimitsForPair_iff:
  assumes "ts_wf s"
  shows "l \<in> set (GetLimitsForPair s pairIndex) \<longleftrightarrow>
    gm_get (ts_limits s) (le_Key l) = Some l \<and> lk_PairIndex (le_Key l) = pairIndex"
  using assms keyed_by_get [of le_Key "ts_limits s"]
  by (auto simp: GetLimitsForPair_def ts_wf_def gm_vals_conv)

lemma FeeState_get [simp]: "FeeState s pairIndex = gm_get (ts_fees s) pairIndex"
  by (auto simp: FeeState_def cloneBig_def split: option.splits)

lemma effective_liq_cong: "gm_get (ts_fees s) = gm_get (ts_fees s') \<Longrightarrow> effective_liq s = effective_liq s'"
  by (simp add: effective_liq_def fun_eq_iff)

lemma trade_action_iff:
  "a \<in> set (trade_action s pairIndex p t) \<longleftrightarrow>
     pa_Key a = te_Key t \<and> pa_IsLong a = te_IsLong t \<and> pa_LimitIndex a = 0 \<and>
     (if IsLiquidatable (Some p) (effective_liq s pairIndex t) (te_IsLong t)
      then pa_Type a = ActionLiquidate
      else tp_sl_due p (te_TpPrice t) (te_SlPrice t) (te_IsLong t) \<and> pa_Type a = ActionTpSl)"
  by (cases a) (auto simp: trade_action_def Let_def)

lemma limit_action_iff:
  "a \<in> set (limit_action p l) \<longleftrightarrow>
     limit_due p (le_LimitPrice l) (le_IsLong l) \<and> pa_Type a = ActionLimit \<and>
     pa_Key a = TradeKey (lk_Trader (le_Key l)) (lk_PairIndex (le_Key l)) 0 \<and>
     pa_IsLong a = le_IsLong l \<and> pa_LimitIndex a = lk_LimitIndex (le_Key l)"
  by (cases a) (auto simp: limit_action_def)

text \<open>The actions returned for a pair, as a set.\<close>

definition due_trade_actions :: "trade_state \<Rightarrow> int \<Rightarrow> int \<Rightarrow> pending_action list" where
  "due_trade_actions s pairIndex p =
     concat (map (trade_action s pairIndex p) (GetTradesForPair s pairIndex))"

definition due_limit_actions :: "trade_state \<Rightarrow> int \<Rightarrow> int \<Rightarrow> pending_action list" where
  "due_limit_actions s pairIndex p =
     concat (map (limit_action p) (GetLimitsForPair s pairIndex))"

lemma Detect_due:
  "Detect pairIndex (Some p) s =
     Some (due_trade_actions s pairIndex p @ due_limit_actions s pairIndex p)"
  by (simp add: Detect_eq due_trade_actions_def due_limit_actions_def)

lemma ts_wf_keys:
  assumes "ts_wf s"
  shows "gm_get (ts_trades s) k = Some t \<Longrightarrow> te_Key t = k"
    and "gm_get (ts_limits s) lk = Some l \<Longrightarrow> le_Key l = lk"
  using assms keyed_by_get unfolding ts_wf_def by metis+

lemma due_trade_iff:
  assumes "ts_wf s"
  shows "a \<in> set (due_trade_actions s pairIndex p) \<longleftrightarrow> tk_PairIndex (pa_Key a) = pairIndex \<and>
    pa_LimitIndex a = 0 \<and>
    (\<exists>t. gm_get (ts_trades s) (pa_Key a) = Some t \<and> pa_IsLong a = te_IsLong t \<and>
     (if IsLiquidatable (Some p) (effective_liq s pairIndex t) (te_IsLong t)
      then pa_Type a = ActionLiquidate
      else tp_sl_due p (te_TpPrice t) (te_SlPrice t) (te_IsLong t) \<and> pa_Type a = ActionTpSl))"
    (is "?l = ?r")
proof
  assume ?l
  then obtain t where "gm_get (ts_trades s) (te_Key t) = Some t" "tk_PairIndex (te_Key t) = pairIndex"
    "a \<in> set (trade_action s pairIndex p t)"
    by (auto simp: due_trade_actions_def GetTradesForPair_iff [OF assms])
  then show ?r unfolding trade_action_iff by metis
next
  assume r: ?r
  then obtain t where t: "gm_get (ts_trades s) (pa_Key a) = Some t" by blast
  then have "te_Key t = pa_Key a" by (rule ts_wf_keys [OF assms])
  with r t have "t \<in> set (GetTradesForPair s pairIndex)" "a \<in> set (trade_action s pairIndex p t)"
    by (simp_all add: GetTradesForPair_iff [OF assms] trade_action_iff)
  then show ?l by (auto simp: due_trade_actions_def)
qed

lemma due_limit_iff:
  assumes "ts_wf s"
  shows "a \<in> set (due_limit_actions s pairIndex p) \<longleftrightarrow> pa_Type a = ActionLimit \<and>
    pa_Key a = TradeKey (tk_Trader (pa_Key a)) pairIndex 0 \<and>
    (\<exists>l. gm_get (ts_limits s) (LimitKey (tk_Trader (pa_Key a)) pairIndex (pa_LimitIndex a)) = Some l \<and>
         pa_IsLong a = le_IsLong l \<and> limit_due p (le_LimitPrice l) (le_IsLong l))"
    (is "?l = ?r")
proof
  assume ?l
  then obtain l where "gm_get (ts_limits s) (le_Key l) = Some l" "lk_PairIndex (le_Key l) = pairIndex"
    "a \<in> set (limit_action p l)"
    by (auto simp: due_limit_actions_def GetLimitsForPair_iff [OF assms])
  then show ?r unfolding limit_action_iff by (cases "le_Key l") auto
next
  assume r: ?r
  then obtain l where
    l: "gm_get (ts_limits s) (LimitKey (tk_Trader (pa_Key a)) pairIndex (pa_LimitIndex a)) = Some l"
    by blast
  then have "le_Key l = LimitKey (tk_Trader (pa_Key a)) pairIndex (pa_LimitIndex a)"
    by (rule ts_wf_keys [OF assms])
  with r l have "l \<in> set (GetLimitsForPair s pairIndex)" "a \<in> set (limit_action p l)"
    by (simp_all add: GetLimitsForPair_iff [OF assms] limit_action_iff)
  then show ?l by (auto simp: due_limit_actions_def)
qed

lemma distinct_concat_map:
  assumes "distinct (map k xs)" and "\<And>x y. y \<in> set (f x) \<Longrightarrow> g y = k x" and "\<And>x. length (f x) \<le> 1"
  shows "distinct (map g (concat (map f xs)))"
  using assms(1)
proof (induction xs)
  case (Cons x xs)
  have "distinct (map g (f x))" using assms(3) [of x] by (cases "f x") auto
  moreover have "distinct (map g (concat (map f xs)))" using Cons by simp
  moreover have "g ` set (f x) \<inter> g ` set (concat (map f xs)) = {}"
    using Cons.prems assms(2) by fastforce
  ultimately show ?case by simp
qed simp

lemma GetTradesForPair_distinct: "ts_wf s \<Longrightarrow> distinct (map te_Key (GetTradesForPair s pairIndex))"
  unfolding GetTradesForPair_def by (rule distinct_map_filter) (simp add: ts_wf_def distinct_vals_key)

lemma GetLimitsForPair_distinct: "ts_wf s \<Longrightarrow> distinct (map le_Key (GetLimitsForPair s pairIndex))"
  unfolding GetLimitsForPair_def by (rule distinct_map_filter) (simp add: ts_wf_def distinct_vals_key)

text \<open>No action is returned twice.\<close>

lemma distinct_concat_keyed:
  assumes "distinct (map f xs)" "\<forall>x \<in> set xs. distinct (g x) \<and> (\<forall>a \<in> set (g x). key a = f x)"
  shows "distinct (concat (map g xs))"
  using assms
proof (induction xs)
  case (Cons x xs)
  have "key a \<noteq> f x" if "a \<in> set (g y)" "y \<in> set xs" for a y
    using Cons.prems that by (auto simp: image_iff)
  then have "set (g x) \<inter> set (concat (map g xs)) = {}" using Cons.prems(2) by fastforce
  with Cons show ?case by simp
qed simp

lemma due_distinct:
  assumes "ts_wf s"
  shows "distinct (due_trade_actions s pairIndex p @ due_limit_actions s pairIndex p)"
proof -
  have k: "distinct (map te_Key (GetTradesForPair s pairIndex))" "distinct (map le_Key (GetLimitsForPair s pairIndex))"
    using assms by (auto simp: GetTradesForPair_def GetLimitsForPair_def ts_wf_def keyed_by_vals gm_wf_def
        intro!: distinct_map_filter)
  have "distinct (due_trade_actions s pairIndex p)"
    unfolding due_trade_actions_def
    by (rule distinct_concat_keyed [OF k(1), where key = pa_Key]) (simp add: trade_action_def Let_def)
  moreover have "distinct (due_limit_actions s pairIndex p)"
    unfolding due_limit_actions_def
    by (rule distinct_concat_keyed [OF k(2), where key = "\<lambda>a. LimitKey (tk_Trader (pa_Key a)) (tk_PairIndex (pa_Key a)) (pa_LimitIndex a)"])
      (simp add: limit_action_def)
  moreover have "set (due_trade_actions s pairIndex p) \<inter> set (due_limit_actions s pairIndex p) = {}"
    by (auto simp: due_trade_iff [OF assms] due_limit_iff [OF assms] split: if_splits)
  ultimately show ?thesis by simp
qed

section \<open>Properties\<close>

text \<open>C4: on every price Detect returns, and what it returns is exactly the due actions, each once. An action
  is among them if and only if it is the liquidation of a position of this pair that is liquidatable at its
  current liquidation price (with the accrued fees when they are known, else the stored one), or the
  take-profit/stop-loss of a position of this pair that is not liquidatable and has reached a level that is
  set, or the execution of a limit order of this pair that has reached its price.\<close>

theorem Detect_sound_complete:
  assumes "ts_wf s"
  shows "\<exists>actions. Detect pairIndex (Some p) s = Some actions \<and> distinct actions \<and>
    (\<forall>a. a \<in> set actions \<longleftrightarrow>
      (\<exists>k t. gm_get (ts_trades s) k = Some t \<and> tk_PairIndex k = pairIndex \<and>
         IsLiquidatable (Some p) (effective_liq s pairIndex t) (te_IsLong t) \<and>
         a = \<lparr>pa_Type = ActionLiquidate, pa_Key = k, pa_IsLong = te_IsLong t, pa_LimitIndex = 0\<rparr>) \<or>
      (\<exists>k t. gm_get (ts_trades s) k = Some t \<and> tk_PairIndex k = pairIndex \<and>
         \<not> IsLiquidatable (Some p) (effective_liq s pairIndex t) (te_IsLong t) \<and>
         tp_sl_due p (te_TpPrice t) (te_SlPrice t) (te_IsLong t) \<and>
         a = \<lparr>pa_Type = ActionTpSl, pa_Key = k, pa_IsLong = te_IsLong t, pa_LimitIndex = 0\<rparr>) \<or>
      (\<exists>tr i l. gm_get (ts_limits s) (LimitKey tr pairIndex i) = Some l \<and> limit_due p (le_LimitPrice l) (le_IsLong l) \<and>
         a = \<lparr>pa_Type = ActionLimit, pa_Key = TradeKey tr pairIndex 0, pa_IsLong = le_IsLong l, pa_LimitIndex = i\<rparr>))"
proof (rule exI, intro conjI allI, rule Detect_due, rule due_distinct [OF assms])
  fix a :: pending_action
  show "a \<in> set (due_trade_actions s pairIndex p @ due_limit_actions s pairIndex p) \<longleftrightarrow>
      (\<exists>k t. gm_get (ts_trades s) k = Some t \<and> tk_PairIndex k = pairIndex \<and>
         IsLiquidatable (Some p) (effective_liq s pairIndex t) (te_IsLong t) \<and>
         a = \<lparr>pa_Type = ActionLiquidate, pa_Key = k, pa_IsLong = te_IsLong t, pa_LimitIndex = 0\<rparr>) \<or>
      (\<exists>k t. gm_get (ts_trades s) k = Some t \<and> tk_PairIndex k = pairIndex \<and>
         \<not> IsLiquidatable (Some p) (effective_liq s pairIndex t) (te_IsLong t) \<and>
         tp_sl_due p (te_TpPrice t) (te_SlPrice t) (te_IsLong t) \<and>
         a = \<lparr>pa_Type = ActionTpSl, pa_Key = k, pa_IsLong = te_IsLong t, pa_LimitIndex = 0\<rparr>) \<or>
      (\<exists>tr i l. gm_get (ts_limits s) (LimitKey tr pairIndex i) = Some l \<and> limit_due p (le_LimitPrice l) (le_IsLong l) \<and>
         a = \<lparr>pa_Type = ActionLimit, pa_Key = TradeKey tr pairIndex 0, pa_IsLong = le_IsLong l, pa_LimitIndex = i\<rparr>)"
    unfolding set_append Un_iff due_trade_iff [OF assms] due_limit_iff [OF assms]
    by (cases a) (auto split: if_splits)
qed

definition demo_state :: trade_state where
  "demo_state = fold TradeState_Apply [demo_opened, demo_opened\<lparr>ev_Trader := ''bob''\<rparr>] NewTradeState"

definition demo_state_swapped :: trade_state where
  "demo_state_swapped =
     fold TradeState_Apply [demo_opened\<lparr>ev_Trader := ''bob''\<rparr>, demo_opened] NewTradeState"

lemma demo_state_wf: "ts_wf demo_state" "ts_wf demo_state_swapped"
  by (simp_all add: demo_state_def demo_state_swapped_def ts_wf_Apply ts_wf_New)

lemma demo_state_get:
  "gm_get (ts_trades demo_state) = gm_get (ts_trades demo_state_swapped)"
  "gm_get (ts_limits demo_state) = gm_get (ts_limits demo_state_swapped)"
  "gm_get (ts_fees demo_state) = gm_get (ts_fees demo_state_swapped)"
  by (auto simp: demo_state_def demo_state_swapped_def TradeState_Apply_def Let_def demo_event_defs
      NewTradeState_def fun_eq_iff)

lemma demo_state_alice:
  "gm_get (ts_trades demo_state) (TradeKey ''alice'' 1 2) =
     Some (entry_of_trade (TradeKey ''alice'' 1 2) (the (ev_Trade demo_opened)))"
  "FeeState demo_state 1 = None"
  by (simp_all add: demo_state_def TradeState_Apply_def Let_def demo_event_defs NewTradeState_def)

lemma demo_liquidatable:
  "IsLiquidatable (Some 905) (effective_liq demo_state 1
     (entry_of_trade (TradeKey ''alice'' 1 2) (the (ev_Trade demo_opened)))) True"
  using demo_state_alice(2)
  by (simp add: effective_liq_def entry_of_trade_def demo_event_defs LiquidationPrice_def
      hundred_def IsLiquidatable_def)

lemma demo_detect:
  "\<exists>actions. Detect 1 (Some 905) demo_state = Some actions \<and>
     \<lparr>pa_Type = ActionLiquidate, pa_Key = TradeKey ''alice'' 1 2, pa_IsLong = True, pa_LimitIndex = 0\<rparr>
       \<in> set actions"
proof -
  have "te_IsLong (entry_of_trade (TradeKey ''alice'' 1 2) (the (ev_Trade demo_opened)))"
    by (simp add: entry_of_trade_def demo_event_defs)
  then show ?thesis
    unfolding Detect_due
    by (auto simp: due_trade_iff [OF demo_state_wf(1)] demo_state_alice demo_liquidatable)
qed

theorem Detect_sound_complete_witness:
  "\<exists>actions. Detect 1 (Some 905) demo_state = Some actions \<and>
     \<lparr>pa_Type = ActionLiquidate, pa_Key = TradeKey ''alice'' 1 2, pa_IsLong = True, pa_LimitIndex = 0\<rparr>
       \<in> set actions"
proof -
  let ?t = "entry_of_trade (TradeKey ''alice'' 1 2) (the (ev_Trade demo_opened))"
  have "te_IsLong ?t" by (simp add: entry_of_trade_def demo_event_defs)
  with demo_liquidatable demo_state_alice(1) Detect_sound_complete [OF demo_state_wf(1), of 1 905] show ?thesis
    by fastforce
qed

text \<open>A position gets at most one action. No key of a position occurs in two liquidation or
  take-profit/stop-loss actions, and no limit order in two limit actions.\<close>

theorem Detect_one_action_per_position:
  assumes "ts_wf s"
  shows "\<exists>ta la. Detect pairIndex (Some p) s = Some (ta @ la) \<and>
    (\<forall>a \<in> set ta. pa_Type a \<noteq> ActionLimit) \<and> distinct (map pa_Key ta) \<and>
    (\<forall>a \<in> set la. pa_Type a = ActionLimit) \<and>
    distinct (map (\<lambda>a. (tk_Trader (pa_Key a), tk_PairIndex (pa_Key a), pa_LimitIndex a)) la)"
proof (intro exI conjI)
  show "Detect pairIndex (Some p) s =
     Some (due_trade_actions s pairIndex p @ due_limit_actions s pairIndex p)" by (rule Detect_due)
  show "\<forall>a \<in> set (due_trade_actions s pairIndex p). pa_Type a \<noteq> ActionLimit"
    by (auto simp: due_trade_actions_def trade_action_iff split: if_splits)
  show "\<forall>a \<in> set (due_limit_actions s pairIndex p). pa_Type a = ActionLimit"
    by (auto simp: due_limit_actions_def limit_action_iff)
  show "distinct (map pa_Key (due_trade_actions s pairIndex p))"
    unfolding due_trade_actions_def
    by (rule distinct_concat_map [OF GetTradesForPair_distinct [OF assms]])
      (auto simp: trade_action_iff, simp add: trade_action_def Let_def)
  have "distinct (map (\<lambda>a. LimitKey (tk_Trader (pa_Key a)) (tk_PairIndex (pa_Key a)) (pa_LimitIndex a))
      (due_limit_actions s pairIndex p))"
    unfolding due_limit_actions_def
    by (rule distinct_concat_map [OF GetLimitsForPair_distinct [OF assms]])
      (auto simp: limit_action_iff limit_action_def)
  then show "distinct (map (\<lambda>a. (tk_Trader (pa_Key a), tk_PairIndex (pa_Key a), pa_LimitIndex a))
      (due_limit_actions s pairIndex p))"
    by (auto simp: distinct_map inj_on_def)
qed

theorem Detect_one_action_per_position_witness:
  "\<exists>ta la. Detect 1 (Some 905) demo_state = Some (ta @ la) \<and> distinct (map pa_Key ta)"
  using Detect_one_action_per_position [OF demo_state_wf(1), of 1 905] by blast

text \<open>C35: the order in which Go iterates its maps does not matter: two states that hold the same
  entries give the same actions, up to their order.\<close>

theorem Detect_order_independent:
  assumes "ts_wf s" "ts_wf s'"
    and "gm_get (ts_trades s) = gm_get (ts_trades s')" "gm_get (ts_limits s) = gm_get (ts_limits s')"
    and "gm_get (ts_fees s) = gm_get (ts_fees s')"
  shows "map_option mset (Detect pairIndex (Some p) s) = map_option mset (Detect pairIndex (Some p) s')"
proof -
  have "mset (ts_trades s) = mset (ts_trades s')" "mset (ts_limits s) = mset (ts_limits s')"
    using assms by (auto simp: ts_wf_def intro: gm_same_mset)
  then have "mset (GetTradesForPair s pairIndex) = mset (GetTradesForPair s' pairIndex)"
    "mset (GetLimitsForPair s pairIndex) = mset (GetLimitsForPair s' pairIndex)"
    by (simp_all add: GetTradesForPair_def GetLimitsForPair_def gm_vals_def mset_filter)
  then show ?thesis
    by (simp add: Detect_due due_trade_actions_def due_limit_actions_def mset_concat_map
        trade_action_def effective_liq_cong [OF assms(5)])
qed

theorem Detect_order_independent_witness:
  "ts_trades demo_state \<noteq> ts_trades demo_state_swapped \<and>
   map_option mset (Detect 1 (Some 905) demo_state) = map_option mset (Detect 1 (Some 905) demo_state_swapped)"
proof
  show "ts_trades demo_state \<noteq> ts_trades demo_state_swapped"
    by (simp add: demo_state_def demo_state_swapped_def TradeState_Apply_def Let_def demo_event_defs
        NewTradeState_def gm_put_def gm_empty_def)
  show "map_option mset (Detect 1 (Some 905) demo_state) =
      map_option mset (Detect 1 (Some 905) demo_state_swapped)"
    by (rule Detect_order_independent [OF demo_state_wf demo_state_get])
qed

end
