(* ===== verification/Rpc_Client.thy ===== *)
theory Rpc_Client
  imports Events
begin

text \<open>
  \<^verbatim>\<open>internal/soroban/client.go\<close>, \<^verbatim>\<open>methods.go\<close> and \<^verbatim>\<open>tx.go\<close>: the JSON-RPC client with its failover
  between endpoints, and the methods of the RPC server.

  The transport is a parameter: sending a request (the \<open>i\<close>-th attempt may meet another state
  of the network than the first), and JSON in both directions.

  Proved here: a call returns the answer of the first endpoint that gave one worth returning,
  asks the endpoints in order and each once, and asks none after that answer.
\<close>

text \<open>\<open>*HTTPError\<close>, \<open>*RPCError\<close>, and any other error (transport, timeout, decoding).\<close>

datatype rpc_error = HTTPError int string string | RPCError int string | OtherError string

text \<open>An \<open>HTTPError\<close> has its status, the body and the text of the wrapped error. The methods \<open>Error\<close>:\<close>

definition rpc_error_text :: "rpc_error \<Rightarrow> string" where
  "rpc_error_text e =
     (case e of
        HTTPError code body err \<Rightarrow> ''http '' @ int_dec code @ '': '' @ err
      | RPCError code message \<Rightarrow> ''rpc '' @ int_dec code @ '': '' @ message
      | OtherError err \<Rightarrow> err)"

definition IsRateLimit :: "rpc_error \<Rightarrow> bool" where
  "IsRateLimit e = (case e of HTTPError code _ _ \<Rightarrow> code = 429 | _ \<Rightarrow> False)"

record rpc_client =
  rc_urls :: "string list"
  rc_idSeq :: u64

definition rpc_New :: "string \<Rightarrow> string list \<Rightarrow> rpc_client" where
  "rpc_New url backups =
     (let urls = (if url \<noteq> [] then [url] else []) @ filter (\<lambda>b. b \<noteq> []) backups
      in \<lparr> rc_urls = (if urls = [] then [[]] else urls), rc_idSeq = 0 \<rparr>)"

text \<open>A response: status code, status text and body.\<close>

record ('p, 'a) transport =
  tr_Do :: "nat \<Rightarrow> string \<Rightarrow> string \<Rightarrow> string + (int \<times> string \<times> string)"
  tr_Marshal :: "u64 \<Rightarrow> string \<Rightarrow> 'p \<Rightarrow> string + string"
  tr_Unmarshal :: "string \<Rightarrow> string + (string \<times> (int \<times> string) option)"
  tr_Decode :: "string \<Rightarrow> string + 'a"

definition callOne :: "('p, 'a) transport \<Rightarrow> nat \<Rightarrow> string \<Rightarrow> string \<Rightarrow> rpc_error + 'a" where
  "callOne tr i url body =
     (case tr_Do tr i url body of
        Inl err \<Rightarrow> Inl (OtherError err)
      | Inr (status, statusText, raw) \<Rightarrow>
          if status \<noteq> 200 then
            let baseErr = ''unexpected status: '' @ statusText;
                baseErr = (if raw \<noteq> [] then baseErr @ '': '' @ raw else baseErr)
            in Inl (HTTPError status raw baseErr)
          else
            (case tr_Unmarshal tr raw of
               Inl err \<Rightarrow> Inl (OtherError (''decode rpc resp: '' @ err @ '' (body='' @ raw @ '')''))
             | Inr (result, Some (code, message)) \<Rightarrow> Inl (RPCError code message)
             | Inr (result, None) \<Rightarrow>
                 (case tr_Decode tr result of
                    Inl err \<Rightarrow> Inl (OtherError err)
                  | Inr v \<Rightarrow> Inr v)))"

definition shouldFailover :: "rpc_error \<Rightarrow> bool" where
  "shouldFailover err =
     (case err of
        HTTPError code _ _ \<Rightarrow> code = 429 \<or> code \<ge> 500
      | RPCError _ _ \<Rightarrow> False
      | OtherError _ \<Rightarrow> True)"

text \<open>
  The loop over the endpoints, with the endpoints asked. Without an endpoint the loop ends
  with the nil error and \<open>out\<close> as it was: \<open>Inr None\<close>.
\<close>

fun try_urls ::
  "(nat \<Rightarrow> string \<Rightarrow> rpc_error + 'a) \<Rightarrow> nat \<Rightarrow> rpc_error option \<Rightarrow> string list
   \<Rightarrow> (rpc_error + 'a option) \<times> string list" where
  "try_urls one i lastErr [] = ((case lastErr of None \<Rightarrow> Inr None | Some e \<Rightarrow> Inl e), [])"
| "try_urls one i lastErr (url # urls) =
     (case one i url of
        Inr v \<Rightarrow> (Inr (Some v), [url])
      | Inl err \<Rightarrow>
          if \<not> shouldFailover err \<or> urls = [] then (Inl err, [url])
          else (let (r, asked) = try_urls one (Suc i) (Some err) urls in (r, url # asked)))"

definition Call ::
  "('p, 'a) transport \<Rightarrow> string \<Rightarrow> 'p \<Rightarrow> rpc_client
   \<Rightarrow> ((rpc_error + 'a option) \<times> string list) \<times> rpc_client" where
  "Call tr meth params c =
     (let c = c\<lparr>rc_idSeq := rc_idSeq c + 1\<rparr>
      in case tr_Marshal tr (rc_idSeq c) meth params of
           Inl err \<Rightarrow> ((Inl (OtherError err), []), c)
         | Inr body \<Rightarrow> (try_urls (\<lambda>i url. callOne tr i url body) 0 None (rc_urls c), c))"

section \<open>Requests and responses\<close>

text \<open>\<^verbatim>\<open>methods.go\<close>\<close>

record latest_ledger_resp =
  ll_ID :: string
  ll_ProtocolVersion :: u32
  ll_Sequence :: u32

record health_resp =
  hl_Status :: string
  hl_LatestLedger :: u32
  hl_OldestLedger :: u32
  hl_LedgerRetentionWindow :: u32

record event_filter =
  ef_Type :: string
  ef_ContractIDs :: "string list"
  ef_Topics :: "string list list"

record pagination =
  pg_Cursor :: string
  pg_Limit :: i64

record events_params =
  ep_StartLedger :: u32
  ep_Filters :: "event_filter list"
  ep_Pagination :: "pagination option"

record events_resp =
  es_Events :: "event_result list"
  es_LatestLedger :: u32
  es_Cursor :: string

text \<open>\<^verbatim>\<open>tx.go\<close>\<close>

record sim_restore_preamble =
  sp_TransactionData :: string
  sp_MinResourceFee :: i64

record sim_result_entry =
  se_XDR :: string
  se_Auth :: "string list"

record sim_cost =
  sc_CPUInsns :: string
  sc_MemBytes :: string

record sim_result =
  sm_TransactionData :: string
  sm_MinResourceFee :: string
  sm_Events :: "string list"
  sm_Results :: "sim_result_entry list"
  sm_Cost :: "sim_cost option"
  sm_RestorePreamble :: "sim_restore_preamble option"
  sm_LatestLedger :: u32
  sm_Error :: string

definition IsSuccess :: "sim_result \<Rightarrow> bool" where
  "IsSuccess s \<longleftrightarrow> sm_Error s = [] \<and> sm_TransactionData s \<noteq> []"

record send_result =
  sr_Status :: string
  sr_Hash :: string
  sr_LatestLedger :: u32
  sr_LatestLedgerCloseTime :: string
  sr_ErrorResultXDR :: string

record get_transaction_result =
  gt_Status :: string
  gt_LatestLedger :: u32
  gt_OldestLedger :: u32
  gt_ApplicationOrder :: i32
  gt_Ledger :: u32
  gt_EnvelopeXDR :: string
  gt_ResultXDR :: string
  gt_ResultMetaXDR :: string

definition GetTransactionResult_IsSuccess :: "get_transaction_result \<Rightarrow> bool" where
  "GetTransactionResult_IsSuccess r \<longleftrightarrow> gt_Status r = ''SUCCESS''"

definition IsNotFound :: "get_transaction_result \<Rightarrow> bool" where
  "IsNotFound r \<longleftrightarrow> gt_Status r = ''NOT_FOUND''"

record ledger_entry =
  ld_Key :: string
  ld_XDR :: string
  ld_LastModified :: u32
  ld_LiveUntilLedger :: u32

record ledger_entries_result =
  lr_Entries :: "ledger_entry list"
  lr_LatestLedger :: u32

section \<open>Methods\<close>

datatype rpc_params =
    NoParams
  | TransactionParams string
  | HashParams string
  | KeysParams "string list"
  | EventsParams events_params

type_synonym 'a rpc_outcome = "((rpc_error + 'a option) \<times> string list) \<times> rpc_client"

definition GetLatestLedger ::
  "(rpc_params, latest_ledger_resp) transport \<Rightarrow> rpc_client \<Rightarrow> latest_ledger_resp rpc_outcome" where
  "GetLatestLedger tr = Call tr ''getLatestLedger'' NoParams"

definition GetHealth :: "(rpc_params, health_resp) transport \<Rightarrow> rpc_client \<Rightarrow> health_resp rpc_outcome" where
  "GetHealth tr = Call tr ''getHealth'' NoParams"

definition GetEvents ::
  "(rpc_params, events_resp) transport \<Rightarrow> events_params \<Rightarrow> rpc_client \<Rightarrow> events_resp rpc_outcome" where
  "GetEvents tr p = Call tr ''getEvents'' (EventsParams p)"

definition SimulateTransaction ::
  "(rpc_params, sim_result) transport \<Rightarrow> string \<Rightarrow> rpc_client \<Rightarrow> sim_result rpc_outcome" where
  "SimulateTransaction tr txXDR = Call tr ''simulateTransaction'' (TransactionParams txXDR)"

definition SendTransaction ::
  "(rpc_params, send_result) transport \<Rightarrow> string \<Rightarrow> rpc_client \<Rightarrow> send_result rpc_outcome" where
  "SendTransaction tr txXDR = Call tr ''sendTransaction'' (TransactionParams txXDR)"

definition GetTransaction ::
  "(rpc_params, get_transaction_result) transport \<Rightarrow> string \<Rightarrow> rpc_client \<Rightarrow> get_transaction_result rpc_outcome" where
  "GetTransaction tr hash = Call tr ''getTransaction'' (HashParams hash)"

definition GetLedgerEntries ::
  "(rpc_params, ledger_entries_result) transport \<Rightarrow> string list \<Rightarrow> rpc_client \<Rightarrow> ledger_entries_result rpc_outcome" where
  "GetLedgerEntries tr keys = Call tr ''getLedgerEntries'' (KeysParams keys)"

section \<open>Failover\<close>

text \<open>
  The specification, on the exchange with one endpoint: another endpoint may do better after a transport
  error, a rate limit, a server error, or an answer that cannot be decoded; not after another HTTP status,
  an error of the RPC server itself, or a result.
\<close>

definition worth_another :: "('p, 'a) transport \<Rightarrow> nat \<Rightarrow> string \<Rightarrow> string \<Rightarrow> bool" where
  "worth_another tr i url body \<longleftrightarrow>
     (case tr_Do tr i url body of
        Inl err \<Rightarrow> True
      | Inr (status, _, raw) \<Rightarrow>
          if status = 200 then
            (case tr_Unmarshal tr raw of
               Inl err \<Rightarrow> True
             | Inr (_, Some _) \<Rightarrow> False
             | Inr (result, None) \<Rightarrow> isl (tr_Decode tr result))
          else status = 429 \<or> 500 \<le> status)"

text \<open>An answer that sends the loop to the next endpoint, and that it is such an exchange.\<close>

definition retryable :: "rpc_error + 'a \<Rightarrow> bool" where
  "retryable r = (case r of Inl e \<Rightarrow> shouldFailover e | Inr _ \<Rightarrow> False)"

lemma retryable_callOne: "retryable (callOne tr i url body) \<longleftrightarrow> worth_another tr i url body"
  by (auto simp: callOne_def retryable_def shouldFailover_def worth_another_def Let_def split: sum.splits option.splits)

lemma callOne_success:
  "callOne tr i url body = Inr v \<longleftrightarrow> (\<exists>st raw result. tr_Do tr i url body = Inr (200, st, raw) \<and>
     tr_Unmarshal tr raw = Inr (result, None) \<and> tr_Decode tr result = Inr v)"
  by (auto simp: callOne_def Let_def split: sum.splits prod.splits option.splits if_splits)

text \<open>What a call returns for it.\<close>

definition answered :: "rpc_error + 'a \<Rightarrow> rpc_error + 'a option" where
  "answered r = (case r of Inl e \<Rightarrow> Inl e | Inr v \<Rightarrow> Inr (Some v))"

lemma try_urls_answer:
  assumes "urls \<noteq> []"
  shows "\<exists>k < length urls.
    (\<forall>j < k. retryable (one (i + j) (urls ! j))) \<and>
    (Suc k < length urls \<longrightarrow> \<not> retryable (one (i + k) (urls ! k))) \<and>
    try_urls one i lastErr urls = (answered (one (i + k) (urls ! k)), take (Suc k) urls)"
  using assms
proof (induction urls arbitrary: i lastErr)
  case (Cons url urls)
  show ?case
  proof (cases "retryable (one i url) \<and> urls \<noteq> []")
    case True
    then obtain err where err: "one i url = Inl err" "shouldFailover err"
      by (cases "one i url") (auto simp: retryable_def)
    from True Cons.IH [of "Suc i" "Some err"] obtain k where k: "k < length urls"
      "\<forall>j < k. retryable (one (Suc i + j) (urls ! j))"
      "Suc k < length urls \<longrightarrow> \<not> retryable (one (Suc i + k) (urls ! k))"
      "try_urls one (Suc i) (Some err) urls =
         (answered (one (Suc i + k) (urls ! k)), take (Suc k) urls)"
      by blast
    have "\<forall>j < Suc k. retryable (one (i + j) ((url # urls) ! j))"
      using k(2) True by (auto simp: nth_Cons split: nat.split)
    with k err True show ?thesis by (intro exI [of _ "Suc k"]) auto
  next
    case False
    then show ?thesis
      by (intro exI [of _ 0]) (cases "one i url", auto simp: retryable_def answered_def)
  qed
qed simp

lemma rpc_New_urls: "rc_urls (rpc_New url backups) \<noteq> []"
  by (simp add: rpc_New_def Let_def)


definition demo_transport :: "(rpc_params, nat) transport" where
  "demo_transport =
     \<lparr> tr_Do = (\<lambda>i url body. if url = ''a'' then Inr (503, ''503'', []) else Inr (200, ''200'', ''r'')),
       tr_Marshal = (\<lambda>i m p. Inr m), tr_Unmarshal = (\<lambda>raw. Inr (raw, None)), tr_Decode = (\<lambda>r. Inr 7) \<rparr>"


end
