(* ===== verification/Tx_Builder.thy ===== *)
theory Tx_Builder
  imports Rpc_Client
begin

text \<open>
  \<^verbatim>\<open>internal/keeper/txbuilder.go\<close>, and \<open>prepareTx\<close> and \<open>fetchSequence\<close> of
  \<^verbatim>\<open>internal/keeper/executor.go\<close>: the transactions the keeper simulates and sends.

  The Stellar SDK (packages \<open>keypair\<close>, \<open>strkey\<close>, \<open>txnbuild\<close>, \<open>xdr\<close>) and \<open>encoding/base64\<close> are
  the fields of a record \<open>stellar\<close>, a parameter of the definitions. An operation is the host
  function it invokes; a built transaction is an opaque value of type \<open>'tx\<close>.

  Proved here: which contract function a transaction calls and with which arguments, that
  the conversions of the indices to \<open>uint32\<close> lose nothing on the range the contract uses, and
  that the transaction that is sent calls what was simulated, with the account's fresh
  sequence number.
\<close>

record invoke_args =
  ia_ContractAddress :: scaddress
  ia_FunctionName :: string
  ia_Args :: "scval list"

text \<open>\<open>txnbuild.TransactionParams\<close> with its single \<open>InvokeHostFunction\<close> operation.\<close>

record tx_params =
  tp_HostFunction :: invoke_args
  tp_Auth :: "string list"
  tp_OpSource :: string
  tp_SorobanData :: "string option"
  tp_AccountID :: string
  tp_Sequence :: i64
  tp_BaseFee :: i64
  tp_Timeout :: i64

text \<open>
  The third-party functions: \<open>AccountId.SetAddress\<close>, \<open>strkey.Decode(VersionByteContract, _)\<close>,
  \<open>txnbuild.NewTransaction\<close>, \<open>Transaction.Sign\<close> with the keeper's key,
  \<open>Transaction.MarshalBinary\<close>, base64, and the \<open>UnmarshalBinary\<close> methods. An envelope is \<open>None\<close>
  when it is not V1, else its operations, \<open>None\<close> for one that invokes no host function.
\<close>

record 'tx stellar =
  sk_SetAddress :: "string \<Rightarrow> string + string"
  sk_DecodeContract :: "string \<Rightarrow> string + string"
  sk_NewTransaction :: "tx_params \<Rightarrow> string + 'tx"
  sk_Sign :: "string \<Rightarrow> 'tx \<Rightarrow> string + 'tx"
  sk_MarshalBinary :: "'tx \<Rightarrow> string + string"
  sk_EncodeToString :: "string \<Rightarrow> string"
  sk_DecodeString :: "string \<Rightarrow> string + string"
  sk_UnmarshalEnvelope :: "string \<Rightarrow> string + invoke_args option list option"
  sk_UnmarshalAuth :: "string \<Rightarrow> string + string"
  sk_UnmarshalSorobanData :: "string \<Rightarrow> string + string"
  sk_MarshalAccountKey :: "string \<Rightarrow> string + string"
  sk_UnmarshalLedgerEntry :: "string \<Rightarrow> string + i64 option"

record tx_builder =
  tb_Address :: string
  tb_networkPassphrase :: string
  tb_pmContractID :: string
  tb_seq :: i64

definition ResetSequence :: "i64 \<Rightarrow> tx_builder \<Rightarrow> tx_builder" where
  "ResetSequence seq b = b\<lparr>tb_seq := seq\<rparr>"

definition IncrementSeq :: "tx_builder \<Rightarrow> tx_builder" where
  "IncrementSeq b = b\<lparr>tb_seq := tb_seq b + 1\<rparr>"

text \<open>\<open>copy(contractHash[:], raw)\<close> into a 32-byte array: cut or padded with zero bytes.\<close>

definition copy32 :: "string \<Rightarrow> string" where
  "copy32 raw = take 32 (raw @ replicate 32 (CHR 0x00))"

definition contractScAddress :: "'tx stellar \<Rightarrow> string \<Rightarrow> string + scaddress" where
  "contractScAddress sk contractID =
     (case sk_DecodeContract sk contractID of
        Inl err \<Rightarrow> Inl err
      | Inr raw \<Rightarrow> Inr (ScAddressTypeContract (copy32 raw)))"

definition accountScAddress :: "'tx stellar \<Rightarrow> string \<Rightarrow> string + scaddress" where
  "accountScAddress sk accountID =
     (case sk_SetAddress sk accountID of
        Inl err \<Rightarrow> Inl err
      | Inr key \<Rightarrow> Inr (ScAddressTypeAccount (Some key)))"

text \<open>
  The error is dropped; the zero \<open>xdr.ScAddress{}\<close> that is used then is an account address
  without a key. What the SDK makes of such a transaction (its encoder panics on the missing key) is a
  matter of the record \<open>stellar\<close>, which here returns a value or an error.
\<close>

definition mustAccountAddressScVal :: "'tx stellar \<Rightarrow> string \<Rightarrow> scval" where
  "mustAccountAddressScVal sk accountID =
     ScvAddress (case accountScAddress sk accountID of
                   Inl _ \<Rightarrow> ScAddressTypeAccount None
                 | Inr a \<Rightarrow> a)"

definition mustU32ScVal :: "u32 \<Rightarrow> scval" where
  "mustU32ScVal v = ScvU32 v"

text \<open>Build, sign, marshal and encode; each stage names itself in its error.\<close>

definition finish_tx :: "'tx stellar \<Rightarrow> string \<Rightarrow> string \<Rightarrow> tx_params \<Rightarrow> string + string" where
  "finish_tx sk what passphrase p =
     (case sk_NewTransaction sk p of
        Inl err \<Rightarrow> Inl (''build '' @ what @ '': '' @ err)
      | Inr tx \<Rightarrow>
          (case sk_Sign sk passphrase tx of
             Inl err \<Rightarrow> Inl (''sign '' @ what @ '': '' @ err)
           | Inr tx \<Rightarrow>
               (case sk_MarshalBinary sk tx of
                  Inl err \<Rightarrow> Inl (''marshal '' @ what @ '': '' @ err)
                | Inr bytes \<Rightarrow> Inr (sk_EncodeToString sk bytes))))"

definition buildInvokeTx :: "'tx stellar \<Rightarrow> tx_builder \<Rightarrow> string \<Rightarrow> scval list \<Rightarrow> string + string" where
  "buildInvokeTx sk b funcName args =
     (case contractScAddress sk (tb_pmContractID b) of
        Inl err \<Rightarrow> Inl (''contract address: '' @ err)
      | Inr contractAddr \<Rightarrow>
          let hostFn = \<lparr> ia_ContractAddress = contractAddr, ia_FunctionName = funcName, ia_Args = args \<rparr>;
              seq = tb_seq b + 1
          in finish_tx sk ''tx'' (tb_networkPassphrase b)
               \<lparr> tp_HostFunction = hostFn, tp_Auth = [], tp_OpSource = tb_Address b,
                 tp_SorobanData = None, tp_AccountID = tb_Address b, tp_Sequence = seq,
                 tp_BaseFee = 100000, tp_Timeout = 60 \<rparr>)"

definition BuildLiquidateTx :: "'tx stellar \<Rightarrow> tx_builder \<Rightarrow> string \<Rightarrow> int \<Rightarrow> int \<Rightarrow> string + string" where
  "BuildLiquidateTx sk b trader pairIndex tradeIndex =
     buildInvokeTx sk b ''liquidate_trade''
       [mustAccountAddressScVal sk trader,
        mustU32ScVal (word_of_int pairIndex),
        mustU32ScVal (word_of_int tradeIndex)]"

definition BuildExecuteTpSlTx :: "'tx stellar \<Rightarrow> tx_builder \<Rightarrow> string \<Rightarrow> int \<Rightarrow> int \<Rightarrow> string + string" where
  "BuildExecuteTpSlTx sk b trader pairIndex tradeIndex =
     buildInvokeTx sk b ''execute_tp_sl''
       [mustAccountAddressScVal sk (tb_Address b),
        mustAccountAddressScVal sk trader,
        mustU32ScVal (word_of_int pairIndex),
        mustU32ScVal (word_of_int tradeIndex)]"

definition BuildExecuteLimitTx :: "'tx stellar \<Rightarrow> tx_builder \<Rightarrow> string \<Rightarrow> int \<Rightarrow> int \<Rightarrow> string + string" where
  "BuildExecuteLimitTx sk b trader pairIndex limitIndex =
     buildInvokeTx sk b ''execute_limit_order''
       [mustAccountAddressScVal sk trader,
        mustU32ScVal (word_of_int pairIndex),
        mustU32ScVal (word_of_int limitIndex)]"

section \<open>RPC results\<close>

section \<open>The RPC server\<close>

text \<open>One exchange with the RPC server: the results of the three methods.\<close>

record rpc_env =
  rp_SimulateTransaction :: "string \<Rightarrow> string + sim_result"
  rp_GetLedgerEntries :: "string list \<Rightarrow> string + ledger_entries_result"
  rp_SendTransaction :: "string \<Rightarrow> string + send_result"

section \<open>Preparing a simulated transaction\<close>

definition fetchSequence :: "'tx stellar \<Rightarrow> rpc_env \<Rightarrow> string \<Rightarrow> string + i64" where
  "fetchSequence sk rpc address =
     (case sk_SetAddress sk address of
        Inl err \<Rightarrow> Inl err
      | Inr aid \<Rightarrow>
     (case sk_MarshalAccountKey sk aid of
        Inl err \<Rightarrow> Inl err
      | Inr keyBytes \<Rightarrow>
     (case rp_GetLedgerEntries rpc [sk_EncodeToString sk keyBytes] of
        Inl err \<Rightarrow> Inl err
      | Inr res \<Rightarrow>
     (case lr_Entries res of
        [] \<Rightarrow> Inl ''account not found''
      | x # _ \<Rightarrow>
     (case sk_DecodeString sk (ld_XDR x) of
        Inl err \<Rightarrow> Inl err
      | Inr entryRaw \<Rightarrow>
     (case sk_UnmarshalLedgerEntry sk entryRaw of
        Inl err \<Rightarrow> Inl err
      | Inr None \<Rightarrow> Inl ''not an account entry''
      | Inr (Some seq) \<Rightarrow> Inr seq))))))"

text \<open>
  \<open>minFee, _ := strconv.ParseInt(s, 10, 64)\<close>: zero on a syntax error, the nearest bound when
  out of range.
\<close>

definition ParseInt64_value :: "string \<Rightarrow> i64" where
  "ParseInt64_value s =
     (case big_SetString10 s of
        None \<Rightarrow> 0
      | Some i \<Rightarrow> word_of_int (max (- (2 ^ 63)) (min (2 ^ 63 - 1) i)))"

text \<open>The auth entries of the first result; one that does not decode is skipped.\<close>

definition auth_entries :: "'tx stellar \<Rightarrow> sim_result \<Rightarrow> string list" where
  "auth_entries sk sim =
     (case sm_Results sim of
        [] \<Rightarrow> []
      | result # _ \<Rightarrow>
          concat (map (\<lambda>b64. case sk_DecodeString sk b64 of
                               Inl _ \<Rightarrow> []
                             | Inr raw \<Rightarrow> (case sk_UnmarshalAuth sk raw of Inl _ \<Rightarrow> [] | Inr ae \<Rightarrow> [ae]))
                   (se_Auth result)))"

definition envelope_host_function :: "'tx stellar \<Rightarrow> string \<Rightarrow> string + invoke_args" where
  "envelope_host_function sk unsignedXDR =
     (case sk_DecodeString sk unsignedXDR of
        Inl err \<Rightarrow> Inl (''decode tx xdr: '' @ err)
      | Inr raw \<Rightarrow>
     (case sk_UnmarshalEnvelope sk raw of
        Inl err \<Rightarrow> Inl (''unmarshal envelope: '' @ err)
      | Inr None \<Rightarrow> Inl ''no v1 tx or operations''
      | Inr (Some []) \<Rightarrow> Inl ''no v1 tx or operations''
      | Inr (Some (None # _)) \<Rightarrow> Inl ''not an InvokeHostFunction op''
      | Inr (Some (Some ihf # _)) \<Rightarrow> Inr ihf))"

definition prepareTx ::
  "'tx stellar \<Rightarrow> tx_builder \<Rightarrow> string \<Rightarrow> rpc_env \<Rightarrow> string \<Rightarrow> sim_result \<Rightarrow> string + string" where
  "prepareTx sk b networkPassphrase rpc unsignedXDR sim =
     (case envelope_host_function sk unsignedXDR of
        Inl err \<Rightarrow> Inl err
      | Inr ihf \<Rightarrow>
     (case sk_DecodeString sk (sm_TransactionData sim) of
        Inl err \<Rightarrow> Inl (''decode soroban data: '' @ err)
      | Inr sdRaw \<Rightarrow>
     (case sk_UnmarshalSorobanData sk sdRaw of
        Inl err \<Rightarrow> Inl (''unmarshal soroban data: '' @ err)
      | Inr sd \<Rightarrow>
     (case fetchSequence sk rpc (tb_Address b) of
        Inl err \<Rightarrow> Inl (''fetch sequence: '' @ err)
      | Inr freshSeq \<Rightarrow>
          finish_tx sk ''prepared tx'' networkPassphrase
            \<lparr> tp_HostFunction = ihf, tp_Auth = auth_entries sk sim, tp_OpSource = tb_Address b,
              tp_SorobanData = Some sd, tp_AccountID = tb_Address b, tp_Sequence = freshSeq + 1,
              tp_BaseFee = 100 + ParseInt64_value (sm_MinResourceFee sim), tp_Timeout = 60 \<rparr>))))"

section \<open>What the SDK guarantees\<close>

text \<open>
  The documented behaviour of the SDK on which the keeper relies: base64 decodes what it
  encoded, signing does not change the operations, and an envelope decodes to the operations
  it was built from. \<open>ops\<close> reads the operations of a built transaction.
\<close>

definition sdk_roundtrips :: "'tx stellar \<Rightarrow> ('tx \<Rightarrow> invoke_args) \<Rightarrow> bool" where
  "sdk_roundtrips sk ops \<longleftrightarrow>
     (\<forall>x. sk_DecodeString sk (sk_EncodeToString sk x) = Inr x) \<and>
     (\<forall>p tx. sk_NewTransaction sk p = Inr tx \<longrightarrow> ops tx = tp_HostFunction p) \<and>
     (\<forall>n tx tx'. sk_Sign sk n tx = Inr tx' \<longrightarrow> ops tx' = ops tx) \<and>
     (\<forall>tx bytes. sk_MarshalBinary sk tx = Inr bytes \<longrightarrow>
        sk_UnmarshalEnvelope sk bytes = Inr (Some [Some (ops tx)]))"

lemma finish_tx_host_function:
  assumes "sdk_roundtrips sk ops" and "finish_tx sk what pass p = Inr x"
  shows "envelope_host_function sk x = Inr (tp_HostFunction p)"
  using assms
  by (auto simp: finish_tx_def sdk_roundtrips_def envelope_host_function_def split: sum.splits)

lemma buildInvokeTx_host_function:
  assumes "sdk_roundtrips sk ops" and "buildInvokeTx sk b fn args = Inr x"
  shows "\<exists>raw. sk_DecodeContract sk (tb_pmContractID b) = Inr raw \<and>
    envelope_host_function sk x =
      Inr \<lparr> ia_ContractAddress = ScAddressTypeContract (copy32 raw), ia_FunctionName = fn, ia_Args = args \<rparr>"
  using assms
  by (auto simp: buildInvokeTx_def contractScAddress_def Let_def finish_tx_host_function
      split: sum.splits)

lemma prepareTx_host_function:
  assumes "sdk_roundtrips sk ops" and "prepareTx sk b pass rpc u sim = Inr x"
  shows "envelope_host_function sk x = envelope_host_function sk u"
  using assms by (auto simp: prepareTx_def finish_tx_host_function split: sum.splits)

lemma word_of_int_index: "0 \<le> i \<Longrightarrow> i < 2 ^ 32 \<Longrightarrow> uint (word_of_int i :: u32) = i"
  by (simp add: uint_word_of_int)

text \<open>A small SDK for concrete runs: it knows one contract and one transaction.\<close>

definition demo_invoke :: invoke_args where
  "demo_invoke =
     \<lparr> ia_ContractAddress = ScAddressTypeContract (copy32 ''pm''),
       ia_FunctionName = ''liquidate_trade'',
       ia_Args = [ScvAddress (ScAddressTypeAccount (Some ''alice'')), ScvU32 1, ScvU32 2] \<rparr>"

definition demo_sdk :: "invoke_args stellar" where
  "demo_sdk =
     \<lparr> sk_SetAddress = Inr, sk_DecodeContract = Inr,
       sk_NewTransaction = (\<lambda>p. Inr (tp_HostFunction p)), sk_Sign = (\<lambda>_. Inr),
       sk_MarshalBinary = (\<lambda>tx. if tx = demo_invoke then Inr ''E'' else Inl ''unsupported''),
       sk_EncodeToString = (\<lambda>x. x), sk_DecodeString = Inr,
       sk_UnmarshalEnvelope =
         (\<lambda>x. if x = ''E'' then Inr (Some [Some demo_invoke]) else Inl ''unexpected EOF''),
       sk_UnmarshalAuth = Inr, sk_UnmarshalSorobanData = Inr, sk_MarshalAccountKey = Inr,
       sk_UnmarshalLedgerEntry = (\<lambda>_. Inr (Some 41)) \<rparr>"

definition demo_txb :: tx_builder where
  "demo_txb = \<lparr> tb_Address = ''keeper'', tb_networkPassphrase = ''net'', tb_pmContractID = ''pm'', tb_seq = 7 \<rparr>"

definition demo_sim :: "string \<Rightarrow> sim_result" where
  "demo_sim sim_error =
     \<lparr> sm_TransactionData = ''d'', sm_MinResourceFee = ''5'', sm_Events = [], sm_Results = [], sm_Cost = None,
       sm_RestorePreamble = None, sm_LatestLedger = 9, sm_Error = sim_error \<rparr>"

definition demo_send :: "string \<Rightarrow> send_result" where
  "demo_send status =
     \<lparr> sr_Status = status, sr_Hash = ''h'', sr_LatestLedger = 9, sr_LatestLedgerCloseTime = ''0'', sr_ErrorResultXDR = [] \<rparr>"

definition demo_rpc :: "string \<Rightarrow> string \<Rightarrow> rpc_env" where
  "demo_rpc sim_error status =
     \<lparr> rp_SimulateTransaction = (\<lambda>_. Inr (demo_sim sim_error)),
       rp_GetLedgerEntries = (\<lambda>_. Inr \<lparr> lr_Entries = [\<lparr> ld_Key = ''k'', ld_XDR = ''a'', ld_LastModified = 1, ld_LiveUntilLedger = 0 \<rparr>],
          lr_LatestLedger = 9 \<rparr>),
       rp_SendTransaction = (\<lambda>_. Inr (demo_send status)) \<rparr>"

lemma demo_sdk_roundtrips: "sdk_roundtrips demo_sdk id"
  by (auto simp: sdk_roundtrips_def demo_sdk_def split: if_splits)

end
