(* ===== verification/Executor.thy ===== *)
theory Executor
  imports Detector Tx_Builder
begin

text \<open>
  \<^verbatim>\<open>internal/keeper/executor.go\<close>: the queue of due actions and the tick that simulates and
  sends them. The queue is a Go map keyed by \<open>pendKey\<close>; \<open>EnqueueAt\<close>, which nothing reads, is
  left out. The items of a tick are pointers into the queue, so an increment of \<open>Retries\<close> is an
  update of the queue. The effects on the RPC server are the list \<open>ex_sent\<close> of the
  transactions handed to \<open>SendTransaction\<close> with the answers, newest first.

  The keeper's goroutines (the price loop, the Redis subscription, the refresh of the
  accumulators and the executor's ticker) are the inductive relation \<open>keeper_step\<close>: a tick
  takes a snapshot of the queue and then handles one item per step, the others interleave between
  the steps. This is coarser than the code, where an attempt (build, simulate, send, drop, removal from
  the state) releases its locks in between and the other goroutines may also run in the middle of it.

  Proved here: queue keys identify actions, the invariant of the queue in every reachable
  state, what one execution attempt does on each outcome, that a tick has at most one
  accepted submission, that no action is retried forever, and that the transaction sent is
  the one that was simulated.
\<close>

record pending_item =
  pi_Action :: pending_action
  pi_Retries :: int

record executor =
  ex_pending :: "(string, pending_item) gmap"
  ex_state :: trade_state
  ex_sent :: "(string \<times> (string + send_result)) list"

fun action_name :: "action_type \<Rightarrow> string" where
  "action_name ActionLiquidate = ''liquidate''"
| "action_name ActionTpSl = ''tp_sl''"
| "action_name ActionLimit = ''limit''"

definition action_index :: "pending_action \<Rightarrow> int" where
  "action_index a = (if pa_Type a = ActionLimit then pa_LimitIndex a else tk_TradeIndex (pa_Key a))"

definition pendKey :: "pending_action \<Rightarrow> string" where
  "pendKey a =
     action_name (pa_Type a) @ ''|'' @ tk_Trader (pa_Key a) @ ''|'' @
     int_dec (tk_PairIndex (pa_Key a)) @ ''|'' @ int_dec (action_index a)"

definition NewExecutor :: "trade_state \<Rightarrow> executor" where
  "NewExecutor s = \<lparr> ex_pending = gm_empty, ex_state = s, ex_sent = [] \<rparr>"

definition enqueue_one :: "pending_action \<Rightarrow> executor \<Rightarrow> executor" where
  "enqueue_one a e =
     (case gm_get (ex_pending e) (pendKey a) of
        Some _ \<Rightarrow> e
      | None \<Rightarrow> e\<lparr>ex_pending := gm_put (pendKey a) \<lparr>pi_Action = a, pi_Retries = 0\<rparr> (ex_pending e)\<rparr>)"

definition Enqueue :: "pending_action list \<Rightarrow> executor \<Rightarrow> executor" where
  "Enqueue actions e = fold enqueue_one actions e"

definition Executor_Remove :: "trade_key \<Rightarrow> executor \<Rightarrow> executor" where
  "Executor_Remove key e =
     e\<lparr>ex_pending :=
        gm_del (pendKey \<lparr>pa_Type = ActionLiquidate, pa_Key = key, pa_IsLong = False, pa_LimitIndex = 0\<rparr>)
          (gm_del (pendKey \<lparr>pa_Type = ActionTpSl, pa_Key = key, pa_IsLong = False, pa_LimitIndex = 0\<rparr>)
             (ex_pending e))\<rparr>"

definition PendingCount :: "executor \<Rightarrow> nat" where
  "PendingCount e = length (ex_pending e)"

definition dropItem :: "pending_item \<Rightarrow> executor \<Rightarrow> executor" where
  "dropItem item e = e\<lparr>ex_pending := gm_del (pendKey (pi_Action item)) (ex_pending e)\<rparr>"

definition isTradeNotFound :: "string \<Rightarrow> bool" where
  "isTradeNotFound simErr \<longleftrightarrow>
     simErr \<noteq> [] \<and> (strings_Contains simErr ''TradeNotFound'' \<or> strings_Contains simErr ''#17'')"

definition isPriceMismatch :: "string \<Rightarrow> bool" where
  "isPriceMismatch simErr \<longleftrightarrow>
     simErr \<noteq> [] \<and> (strings_Contains simErr ''PriceMismatch'' \<or> strings_Contains simErr ''#21'')"

definition isLimitNotFound :: "string \<Rightarrow> bool" where
  "isLimitNotFound simErr \<longleftrightarrow>
     simErr \<noteq> [] \<and> (strings_Contains simErr ''LimitNotFound'' \<or> strings_Contains simErr ''#28'')"

section \<open>One execution attempt\<close>

text \<open>The fixed parts of the executor: the SDK, the builder, the passphrase and the limit of retries.\<close>

record 'tx exec_conf =
  ec_sdk :: "'tx stellar"
  ec_txb :: tx_builder
  ec_networkPassphrase :: string
  ec_maxRetries :: int

text \<open>\<open>item.Retries++\<close> through the pointer held in the queue.\<close>

definition bump :: "pending_item \<Rightarrow> pending_item" where
  "bump item = item\<lparr>pi_Retries := pi_Retries item + 1\<rparr>"

definition set_item :: "pending_item \<Rightarrow> executor \<Rightarrow> executor" where
  "set_item item e =
     e\<lparr>ex_pending := gm_modify (pendKey (pi_Action item)) (\<lambda>_. item) (ex_pending e)\<rparr>"

text \<open>\<open>item.Retries++; if item.Retries >= e.maxRetries { e.dropItem(...) }\<close>\<close>

definition retry_or_drop :: "'tx exec_conf \<Rightarrow> pending_item \<Rightarrow> executor \<Rightarrow> executor" where
  "retry_or_drop c item e =
     (let item = bump item; e = set_item item e
      in if pi_Retries item \<ge> ec_maxRetries c then dropItem item e else e)"

definition build_action_tx :: "'tx exec_conf \<Rightarrow> pending_action \<Rightarrow> string + string" where
  "build_action_tx c a =
     (let sk = ec_sdk c; b = ec_txb c; k = pa_Key a in
      case pa_Type a of
        ActionLiquidate \<Rightarrow> BuildLiquidateTx sk b (tk_Trader k) (tk_PairIndex k) (tk_TradeIndex k)
      | ActionTpSl \<Rightarrow> BuildExecuteTpSlTx sk b (tk_Trader k) (tk_PairIndex k) (tk_TradeIndex k)
      | ActionLimit \<Rightarrow> BuildExecuteLimitTx sk b (tk_Trader k) (tk_PairIndex k) (pa_LimitIndex a))"

text \<open>The simulation failed: an order that is gone is removed from the state as well.\<close>

definition sim_failed ::
  "'tx exec_conf \<Rightarrow> sim_result \<Rightarrow> pending_item \<Rightarrow> executor \<Rightarrow> executor" where
  "sim_failed c sim item0 e0 =
     (let item = bump item0; e = set_item item e0; a = pi_Action item; k = pa_Key a in
      if isTradeNotFound (sm_Error sim) \<or> isLimitNotFound (sm_Error sim) then
        let e = dropItem item e
        in if pa_Type a = ActionLimit
           then e\<lparr>ex_state := RemoveLimit (LimitKey (tk_Trader k) (tk_PairIndex k) (pa_LimitIndex a))
                                (ex_state e)\<rparr>
           else e\<lparr>ex_state := Remove k (ex_state e)\<rparr>
      else if isPriceMismatch (sm_Error sim) then dropItem item e
      else if pi_Retries item \<ge> ec_maxRetries c then dropItem item e
      else e)"

text \<open>The transaction was handed over; the boolean says whether the tick ends.\<close>

definition after_send ::
  "'tx exec_conf \<Rightarrow> string + send_result \<Rightarrow> pending_item \<Rightarrow> executor \<Rightarrow> bool \<times> executor" where
  "after_send c res item e =
     (case res of
        Inl err \<Rightarrow> (False, retry_or_drop c item e)
      | Inr sendRes \<Rightarrow>
          if sr_Status sendRes = ''PENDING'' \<or> sr_Status sendRes = ''TRY_AGAIN_LATER'' then (True, dropItem item e)
          else if sr_Status sendRes = ''DUPLICATE'' then (True, dropItem item e)
          else if sr_Status sendRes = ''ERROR'' then (False, retry_or_drop c item e)
          else (False, e))"

definition tryExecute ::
  "'tx exec_conf \<Rightarrow> rpc_env \<Rightarrow> pending_item \<Rightarrow> executor \<Rightarrow> bool \<times> executor" where
  "tryExecute c rpc item e =
     (case build_action_tx c (pi_Action item) of
        Inl err \<Rightarrow> (False, dropItem item e)
      | Inr unsignedXDR \<Rightarrow>
     (case rp_SimulateTransaction rpc unsignedXDR of
        Inl err \<Rightarrow> (False, retry_or_drop c item e)
      | Inr sim \<Rightarrow>
          if \<not> IsSuccess sim then (False, sim_failed c sim item e)
          else
     (case prepareTx (ec_sdk c) (ec_txb c) (ec_networkPassphrase c) rpc unsignedXDR sim of
        Inl err \<Rightarrow> (False, dropItem item e)
      | Inr preparedXDR \<Rightarrow>
          let res = rp_SendTransaction rpc preparedXDR
          in after_send c res item (e\<lparr>ex_sent := (preparedXDR, res) # ex_sent e\<rparr>))))"

text \<open>
  The tick without interleaving. The environment of the i-th item says whether the context
  is done before it (\<open>ctx.Err() != nil\<close>) and how the RPC server answers; the end of the list
  stands for a context that is done.
\<close>

fun process_items ::
  "'tx exec_conf \<Rightarrow> (bool \<times> rpc_env) list \<Rightarrow> pending_item list \<Rightarrow> executor \<Rightarrow> executor" where
  "process_items c envs [] e = e"
| "process_items c [] (item # items) e = e"
| "process_items c ((stop, rpc) # envs) (item # items) e =
     (if stop then e
      else (case tryExecute c rpc item e of
              (True, e') \<Rightarrow> e'
            | (False, e') \<Rightarrow> process_items c envs items e'))"

definition processPending ::
  "'tx exec_conf \<Rightarrow> (bool \<times> rpc_env) list \<Rightarrow> executor \<Rightarrow> executor" where
  "processPending c envs e = process_items c envs (gm_vals (ex_pending e)) e"

section \<open>The keeper process\<close>

text \<open>The executor, and the items the current tick has still to handle.\<close>

record keeper =
  kp_exec :: executor
  kp_tick :: "pending_item list"

inductive keeper_step :: "'tx exec_conf \<Rightarrow> keeper \<Rightarrow> keeper \<Rightarrow> bool" for c :: "'tx exec_conf" where
  price:
    "Detect pairIndex (Some p) (ex_state (kp_exec k)) = Some actions \<Longrightarrow>
     keeper_step c k (k\<lparr>kp_exec := (if actions \<noteq> [] then Enqueue actions (kp_exec k) else kp_exec k)\<rparr>)"
| redis:
    "keeper_step c k
       (k\<lparr>kp_exec := (kp_exec k)\<lparr>ex_state := SubscribeRedis unmarshal [payload] (ex_state (kp_exec k))\<rparr>\<rparr>)"
| fees:
    "keeper_step c k
       (k\<lparr>kp_exec := (kp_exec k)\<lparr>ex_state := snd (LoadFeeAccumulatorsFromDB q (ex_state (kp_exec k)))\<rparr>\<rparr>)"
| tick_start:
    "kp_tick k = [] \<Longrightarrow> mset items = mset (gm_vals (ex_pending (kp_exec k))) \<Longrightarrow>
     keeper_step c k (k\<lparr>kp_tick := items\<rparr>)"
| tick_item:
    "kp_tick k = item # items \<Longrightarrow> tryExecute c rpc item (kp_exec k) = (sent, e) \<Longrightarrow>
     keeper_step c k (k\<lparr>kp_exec := e, kp_tick := (if sent then [] else items)\<rparr>)"
| tick_done:
    "keeper_step c k (k\<lparr>kp_tick := []\<rparr>)"

inductive_cases keeper_stepE: "keeper_step c k k'"

inductive keeper_reachable :: "'tx exec_conf \<Rightarrow> trade_state \<Rightarrow> keeper \<Rightarrow> bool"
  for c :: "'tx exec_conf" and s0 :: trade_state where
  init: "keeper_reachable c s0 \<lparr> kp_exec = NewExecutor s0, kp_tick = [] \<rparr>"
| step: "keeper_reachable c s0 k \<Longrightarrow> keeper_step c k k' \<Longrightarrow> keeper_reachable c s0 k'"

section \<open>Queue keys\<close>

lemma bar_notin_action_name [simp]: "CHR ''|'' \<notin> set (action_name t)"
  by (cases t) simp_all

lemma action_name_inject [simp]: "action_name t = action_name u \<longleftrightarrow> t = u"
  by (cases t; cases u) simp_all

lemma pendKey_eq_iff:
  "pendKey a = pendKey b \<longleftrightarrow>
     pa_Type a = pa_Type b \<and> tk_Trader (pa_Key a) = tk_Trader (pa_Key b) \<and>
     tk_PairIndex (pa_Key a) = tk_PairIndex (pa_Key b) \<and> action_index a = action_index b"
proof
  let ?t = "\<lambda>x. tk_Trader (pa_Key x)" and ?p = "\<lambda>x. int_dec (tk_PairIndex (pa_Key x))"
    and ?i = "\<lambda>x. int_dec (action_index x)" and ?b = "CHR ''|''"
  assume "pendKey a = pendKey b"
  then have "action_name (pa_Type a) @ ?b # (?t a @ ?b # ?p a @ ?b # ?i a) =
      action_name (pa_Type b) @ ?b # (?t b @ ?b # ?p b @ ?b # ?i b)"
    by (simp add: pendKey_def)
  then have ty: "action_name (pa_Type a) = action_name (pa_Type b)"
    and "?t a @ ?b # ?p a @ ?b # ?i a = ?t b @ ?b # ?p b @ ?b # ?i b"
    by (auto dest!: first_field_unique)
  then have "(?t a @ ?b # ?p a) @ ?b # ?i a = (?t b @ ?b # ?p b) @ ?b # ?i b" by simp
  from last_field_unique [OF this]
  have "?t a @ ?b # ?p a = ?t b @ ?b # ?p b" and i: "?i a = ?i b" by simp_all
  from last_field_unique [OF this(1)] have "?t a = ?t b" "?p a = ?p b" by simp_all
  with ty i show "pa_Type a = pa_Type b \<and> ?t a = ?t b \<and>
     tk_PairIndex (pa_Key a) = tk_PairIndex (pa_Key b) \<and> action_index a = action_index b"
    by simp
qed (simp add: pendKey_def)

lemma action_pendKey_simps:
  "pa_Type a = ActionLimit \<Longrightarrow> action_index a = pa_LimitIndex a"
  "pa_Type a \<noteq> ActionLimit \<Longrightarrow> action_index a = tk_TradeIndex (pa_Key a)"
  by (simp_all add: action_index_def)

section \<open>The queue\<close>

definition item_key :: "pending_item \<Rightarrow> string" where
  "item_key item = pendKey (pi_Action item)"

text \<open>
  The invariant: every item is stored under its own key, and it either has not been tried yet
  or has retries left.
\<close>

definition ex_ok :: "'tx exec_conf \<Rightarrow> executor \<Rightarrow> bool" where
  "ex_ok c e \<longleftrightarrow> gm_wf (ex_pending e) \<and> keyed_by item_key (ex_pending e) \<and>
     (\<forall>k item. gm_get (ex_pending e) k = Some item \<longrightarrow>
        pi_Retries item = 0 \<or> (0 < pi_Retries item \<and> pi_Retries item < ec_maxRetries c)) \<and>
     ts_wf (ex_state e)"

definition keeper_ok :: "'tx exec_conf \<Rightarrow> keeper \<Rightarrow> bool" where
  "keeper_ok c k \<longleftrightarrow> ex_ok c (kp_exec k) \<and> distinct (map item_key (kp_tick k)) \<and>
     (\<forall>item \<in> set (kp_tick k). gm_get (ex_pending (kp_exec k)) (item_key item) = Some item)"

lemma gm_del_modify [simp]: "gm_del k (gm_modify k f m) = gm_del k m"
  by (simp add: gm_modify_def gm_del_def gm_put_def AList.delete_update_same split: option.splits)

lemma item_key_bump [simp]: "item_key (bump item) = item_key item" "pi_Action (bump item) = pi_Action item"
  by (simp_all add: item_key_def bump_def)

text \<open>What an attempt can do to the queue.\<close>

definition attempt_effect ::
  "'tx exec_conf \<Rightarrow> pending_item \<Rightarrow> (string, pending_item) gmap \<Rightarrow> (string, pending_item) gmap \<Rightarrow> bool" where
  "attempt_effect c item m m' \<longleftrightarrow>
     m' = gm_del (item_key item) m \<or>
     (m' = gm_modify (item_key item) (\<lambda>_. bump item) m \<and> pi_Retries item + 1 < ec_maxRetries c) \<or>
     m' = m"

lemma retry_or_drop_effect:
  "attempt_effect c item (ex_pending e) (ex_pending (retry_or_drop c item e))"
  by (auto simp: attempt_effect_def retry_or_drop_def Let_def dropItem_def set_item_def bump_def
      item_key_def)

lemma sim_failed_effect:
  "attempt_effect c item (ex_pending e) (ex_pending (sim_failed c sim item e))"
  by (auto simp: attempt_effect_def sim_failed_def Let_def dropItem_def set_item_def bump_def
      item_key_def)

lemma after_send_effect:
  "attempt_effect c item (ex_pending e) (ex_pending (snd (after_send c r item e)))"
  using retry_or_drop_effect [of c item e]
  by (auto simp: after_send_def attempt_effect_def dropItem_def item_key_def split: sum.splits)

lemma tryExecute_effect:
  "attempt_effect c item (ex_pending e) (ex_pending (snd (tryExecute c rpc item e)))"
  using retry_or_drop_effect [of c item e] sim_failed_effect [of c item e]
    after_send_effect [of c item "e\<lparr>ex_sent := s\<rparr>" for s]
  by (auto simp: tryExecute_def Let_def split: sum.splits)
    (auto simp: attempt_effect_def dropItem_def item_key_def)

lemma tryExecute_other:
  assumes "k \<noteq> item_key item"
  shows "gm_get (ex_pending (snd (tryExecute c rpc item e))) k = gm_get (ex_pending e) k"
  using tryExecute_effect [of c item e rpc] assms by (auto simp: attempt_effect_def)

lemma ts_wf_removals [intro]: "ts_wf s \<Longrightarrow> ts_wf (Remove k s)" "ts_wf s \<Longrightarrow> ts_wf (RemoveLimit l s)"
  by (auto simp: ts_wf_def Remove_def RemoveLimit_def)

lemma ts_wf_tryExecute:
  assumes "ts_wf (ex_state e)"
  shows "ts_wf (ex_state (snd (tryExecute c rpc item e)))"
proof -
  have "ts_wf (ex_state (sim_failed c sim item e))" for sim
    using assms by (auto simp: sim_failed_def Let_def dropItem_def set_item_def)
  moreover have "ex_state (retry_or_drop c item e) = ex_state e" for e
    by (simp add: retry_or_drop_def Let_def dropItem_def set_item_def)
  ultimately show ?thesis
    using assms
    by (auto simp: tryExecute_def after_send_def Let_def dropItem_def split: sum.splits)
qed

lemma ex_ok_tryExecute:
  assumes "ex_ok c e" and "gm_get (ex_pending e) (item_key item) = Some item"
  shows "ex_ok c (snd (tryExecute c rpc item e))"
proof -
  let ?m = "ex_pending e" and ?m' = "ex_pending (snd (tryExecute c rpc item e))"
  have r: "pi_Retries item = 0 \<or> (0 < pi_Retries item \<and> pi_Retries item < ec_maxRetries c)"
    using assms unfolding ex_ok_def by blast
  have "gm_wf ?m'" using assms(1) tryExecute_effect [of c item e rpc]
    by (auto simp: attempt_effect_def ex_ok_def)
  moreover have "keyed_by item_key ?m'"
  proof -
    have "gm_modify (item_key item) (\<lambda>_. bump item) ?m = gm_put (item_key item) (bump item) ?m"
      using assms(2) by (simp add: gm_modify_def)
    moreover have "keyed_by item_key (gm_put (item_key item) (bump item) ?m)"
      using assms(1) by (intro keyed_by_put) (simp_all add: ex_ok_def)
    ultimately show ?thesis using assms(1) tryExecute_effect [of c item e rpc]
      by (auto simp: attempt_effect_def ex_ok_def)
  qed
  moreover have "gm_get ?m' k = Some i \<Longrightarrow>
      pi_Retries i = 0 \<or> (0 < pi_Retries i \<and> pi_Retries i < ec_maxRetries c)" for k i
    using assms r tryExecute_effect [of c item e rpc] unfolding attempt_effect_def ex_ok_def
    by (elim disjE) (auto simp: bump_def split: if_splits)
  moreover have "ts_wf (ex_state (snd (tryExecute c rpc item e)))"
    using assms(1) ts_wf_tryExecute unfolding ex_ok_def by blast
  ultimately show ?thesis unfolding ex_ok_def by blast
qed

lemma enqueue_one_keeps:
  "gm_get (ex_pending e) k = Some item \<Longrightarrow> gm_get (ex_pending (enqueue_one a e)) k = Some item"
  by (auto simp: enqueue_one_def split: option.splits)

lemma ex_ok_enqueue_one: "ex_ok c e \<Longrightarrow> ex_ok c (enqueue_one a e)"
  by (auto simp: ex_ok_def enqueue_one_def item_key_def split: option.splits)

lemma Enqueue_keeps:
  "gm_get (ex_pending e) k = Some item \<Longrightarrow> gm_get (ex_pending (Enqueue as e)) k = Some item"
  unfolding Enqueue_def by (rule fold_keeps) (auto intro: enqueue_one_keeps)

lemma ex_ok_Enqueue: "ex_ok c e \<Longrightarrow> ex_ok c (Enqueue as e)"
  unfolding Enqueue_def by (rule fold_keeps) (auto intro: ex_ok_enqueue_one)

lemma ex_ok_state: "ex_ok c e \<Longrightarrow> ts_wf s \<Longrightarrow> ex_ok c (e\<lparr>ex_state := s\<rparr>)"
  by (simp add: ex_ok_def)

text \<open>The snapshot of a tick holds every queued item once.\<close>

lemma snapshot_ok:
  assumes "ex_ok c e" and "mset items = mset (gm_vals (ex_pending e))"
  shows "distinct (map item_key items)"
    and "\<forall>item \<in> set items. gm_get (ex_pending e) (item_key item) = Some item"
proof -
  have wf: "gm_wf (ex_pending e)" "keyed_by item_key (ex_pending e)"
    using assms(1) by (simp_all add: ex_ok_def)
  have "mset (map item_key items) = mset (map item_key (gm_vals (ex_pending e)))"
    using assms(2) by simp
  then show "distinct (map item_key items)"
    using distinct_vals_key [OF wf] by (metis mset_eq_imp_distinct_iff)
  have "set items = set (gm_vals (ex_pending e))" using assms(2) by (rule mset_eq_setD)
  then show "\<forall>item \<in> set items. gm_get (ex_pending e) (item_key item) = Some item"
    using keyed_by_get [OF wf(2)] unfolding gm_vals_conv [OF wf(1)] set_eq_iff by metis
qed

lemma keeper_ok_step:
  assumes "keeper_ok c k" and "keeper_step c k k'"
  shows "keeper_ok c k'"
  using assms(2)
proof cases
  case (price pairIndex p actions)
  then show ?thesis using assms(1) by (auto simp: keeper_ok_def ex_ok_Enqueue Enqueue_keeps)
next
  case (redis unmarshal payload)
  then show ?thesis using assms(1)
    by (auto simp: keeper_ok_def ex_ok_def ts_wf_Apply split: sum.splits)
next
  case (fees q)
  then show ?thesis using assms(1) by (auto simp: keeper_ok_def ex_ok_def ts_wf_LoadFees)
next
  case (tick_start items)
  then show ?thesis using assms(1) snapshot_ok [of c "kp_exec k" items] by (simp add: keeper_ok_def)
next
  case (tick_item item items rpc sent e)
  have e: "e = snd (tryExecute c rpc item (kp_exec k))" using tick_item(3) by simp
  have "item_key item \<notin> item_key ` set items"
    using assms(1) unfolding keeper_ok_def tick_item(2) by simp
  then have "\<forall>i \<in> set items. item_key i \<noteq> item_key item" by (metis imageI)
  then have "\<forall>i \<in> set items. gm_get (ex_pending e) (item_key i) = gm_get (ex_pending (kp_exec k)) (item_key i)"
    by (simp add: e tryExecute_other)
  moreover have "ex_ok c e"
    unfolding e by (rule ex_ok_tryExecute) (use assms(1) tick_item(2) in \<open>auto simp: keeper_ok_def\<close>)
  ultimately show ?thesis using assms(1) tick_item(1,2) by (auto simp: keeper_ok_def)
next
  case tick_done
  then show ?thesis using assms(1) by (simp add: keeper_ok_def)
qed

section \<open>Properties\<close>

text \<open>The queue key identifies an action. Two actions have the same key only if they agree on
  type, trader, pair and index (the limit index for a limit order, the trade index otherwise),
  whatever bytes the trader string holds, separators included.\<close>

theorem pendKey_injective:
  "pendKey a = pendKey b \<longleftrightarrow>
     pa_Type a = pa_Type b \<and> tk_Trader (pa_Key a) = tk_Trader (pa_Key b) \<and>
     tk_PairIndex (pa_Key a) = tk_PairIndex (pa_Key b) \<and> action_index a = action_index b"
  by (rule pendKey_eq_iff)

text \<open>C5: in every reachable state of the keeper, under every interleaving of prices, Redis events,
  refreshes of the accumulators and ticks and with every behaviour of the RPC server, the queue is
  sound: each action is queued once, under its own key, and has either not been tried or has retries
  left; the items that the running tick has still to handle are in the queue unchanged, each once;
  and the keeper's trade state is well formed.\<close>

theorem keeper_queue_invariant:
  assumes "ts_wf s0" and "keeper_reachable c s0 k"
  shows "keeper_ok c k"
  using assms(2)
proof induction
  case init
  then show ?case using assms(1) by (simp add: keeper_ok_def ex_ok_def NewExecutor_def)
next
  case (step k k')
  from step.IH step.hyps(2) show ?case by (rule keeper_ok_step)
qed

text \<open>The parts of the concrete runs below.\<close>

definition demo_conf :: "invoke_args exec_conf" where
  "demo_conf = \<lparr> ec_sdk = demo_sdk, ec_txb = demo_txb, ec_networkPassphrase = ''net'', ec_maxRetries = 2 \<rparr>"

definition demo_action :: pending_action where
  "demo_action = \<lparr> pa_Type = ActionLiquidate, pa_Key = TradeKey ''alice'' 1 2, pa_IsLong = True,
     pa_LimitIndex = 0 \<rparr>"

definition demo_exec :: executor where
  "demo_exec = Enqueue [demo_action] (NewExecutor demo_state)"

lemma demo_exec_ok: "ex_ok demo_conf demo_exec"
proof -
  have "ex_ok demo_conf (NewExecutor demo_state)"
    by (simp add: ex_ok_def NewExecutor_def demo_state_wf)
  then show ?thesis unfolding demo_exec_def by (rule ex_ok_Enqueue)
qed

lemma demo_exec_get:
  "gm_get (ex_pending demo_exec) (pendKey demo_action) = Some \<lparr>pi_Action = demo_action, pi_Retries = 0\<rparr>"
  by (simp add: demo_exec_def Enqueue_def enqueue_one_def NewExecutor_def)

lemmas demo_exec_defs = demo_conf_def demo_txb_def demo_sdk_def demo_action_def demo_rpc_def demo_sim_def demo_send_def

lemma demo_build: "build_action_tx demo_conf demo_action = Inr ''E''"
  by (simp add: build_action_tx_def demo_exec_defs BuildLiquidateTx_def buildInvokeTx_def finish_tx_def
      contractScAddress_def mustAccountAddressScVal_def accountScAddress_def mustU32ScVal_def
      demo_invoke_def)

theorem keeper_queue_invariant_witness:
  "\<exists>k. keeper_reachable demo_conf demo_state k \<and> ex_pending (kp_exec k) \<noteq> gm_empty \<and>
     keeper_ok demo_conf k"
proof -
  let ?k0 = "\<lparr> kp_exec = NewExecutor demo_state, kp_tick = [] \<rparr>"
  obtain actions where a: "Detect 1 (Some 905) demo_state = Some actions" and "demo_action \<in> set actions"
    using demo_detect by (auto simp: demo_action_def)
  then have ne: "actions \<noteq> []" by auto
  let ?k1 = "?k0\<lparr>kp_exec := Enqueue actions (NewExecutor demo_state)\<rparr>"
  have "keeper_step demo_conf ?k0 ?k1"
    using keeper_step.price [of 1 905 ?k0 actions demo_conf] a ne by (simp add: NewExecutor_def)
  with keeper_reachable.init have r: "keeper_reachable demo_conf demo_state ?k1"
    by (rule keeper_reachable.step)
  obtain x xs where "actions = x # xs" using ne by (cases actions) auto
  then have "gm_get (ex_pending (kp_exec ?k1)) (pendKey x) \<noteq> None"
    using Enqueue_keeps [of "enqueue_one x (NewExecutor demo_state)" "pendKey x" _ xs]
    by (simp add: Enqueue_def enqueue_one_def NewExecutor_def)
  then have "ex_pending (kp_exec ?k1) \<noteq> gm_empty" by auto
  with r keeper_queue_invariant [OF demo_state_wf(1) r] show ?thesis by blast
qed

definition accepted :: "string \<times> (string + send_result) \<Rightarrow> bool" where
  "accepted = (\<lambda>(tx, res). \<exists>r. res = Inr r \<and> sr_Status r \<in> {''PENDING'', ''TRY_AGAIN_LATER'', ''DUPLICATE''})"

lemma tryExecute_sent:
  assumes "tryExecute c rpc item e = (sent, e')"
  shows "(ex_sent e' = ex_sent e \<and> \<not> sent) \<or> (\<exists>x. ex_sent e' = x # ex_sent e \<and> accepted x = sent)"
proof -
  have "ex_sent (retry_or_drop c item e) = ex_sent e" for e
    by (simp add: retry_or_drop_def Let_def dropItem_def set_item_def)
  moreover have "ex_sent (sim_failed c sim item e) = ex_sent e" for sim
    by (simp add: sim_failed_def Let_def dropItem_def set_item_def)
  ultimately show ?thesis
    using assms
    by (auto simp: tryExecute_def after_send_def accepted_def Let_def dropItem_def
        split: sum.splits if_splits)
qed

lemma submitted_leaves_queue:
  "tryExecute c rpc item e = (True, e') \<Longrightarrow> gm_get (ex_pending e') (pendKey (pi_Action item)) = None"
  by (auto simp: tryExecute_def after_send_def dropItem_def Let_def split: sum.splits if_splits)

lemma tryExecute_hands_over:
  assumes "tryExecute c rpc item e = (sent, e')" and "ex_sent e' = (x, res) # ex_sent e"
  shows "\<exists>u sim. build_action_tx c (pi_Action item) = Inr u \<and> rp_SimulateTransaction rpc u = Inr sim \<and>
    IsSuccess sim \<and> prepareTx (ec_sdk c) (ec_txb c) (ec_networkPassphrase c) rpc u sim = Inr x \<and>
    rp_SendTransaction rpc x = res"
proof -
  have "ex_sent (retry_or_drop c item e) = ex_sent e" for e
    by (simp add: retry_or_drop_def Let_def dropItem_def set_item_def)
  moreover have "ex_sent (sim_failed c sim item e) = ex_sent e" for sim
    by (simp add: sim_failed_def Let_def dropItem_def set_item_def)
  ultimately show ?thesis
    using assms
    by (auto simp: tryExecute_def after_send_def Let_def dropItem_def split: sum.splits if_splits)
qed

lemma process_items_sent:
  "\<exists>new. ex_sent (process_items c envs items e) = new @ ex_sent e \<and> (\<forall>x \<in> set (tl new). \<not> accepted x)"
proof (induction c envs items e rule: process_items.induct)
  case (3 c stop rpc envs item items e)
  obtain sent e' where t: "tryExecute c rpc item e = (sent, e')" by (cases "tryExecute c rpc item e")
  show ?case
  proof (cases "stop \<or> sent")
    case True
    then show ?thesis using tryExecute_sent [OF t] t by (auto intro: exI [of _ "[]"] exI [of _ "[x]" for x])
  next
    case False
    with 3 t obtain new where new: "ex_sent (process_items c envs items e') = new @ ex_sent e'"
      "\<forall>x \<in> set (tl new). \<not> accepted x" by auto
    have p: "process_items c ((stop, rpc) # envs) (item # items) e = process_items c envs items e'"
      using False t by simp
    from tryExecute_sent [OF t] show ?thesis
    proof
      assume "ex_sent e' = ex_sent e \<and> \<not> sent"
      with new p show ?thesis by auto
    next
      assume "\<exists>x. ex_sent e' = x # ex_sent e \<and> accepted x = sent"
      then obtain x where x: "ex_sent e' = x # ex_sent e" "\<not> accepted x" using False by auto
      have "\<forall>y \<in> set (tl (new @ [x])). \<not> accepted y" using new(2) x(2) by (cases new) auto
      with new p x show ?thesis by (intro exI [of _ "new @ [x]"]) auto
    qed
  qed
qed auto

text \<open>A tick has at most one accepted submission, and it is the tick's last: of the
  transactions handed over during processPending, at most one is answered PENDING, TRY_AGAIN_LATER or
  DUPLICATE, and none is handed over after it.\<close>

theorem processPending_one_submission:
  "\<exists>new. ex_sent (processPending c envs e) = new @ ex_sent e \<and> filter accepted (tl new) = []"
  unfolding processPending_def using process_items_sent [of c envs _ e] by (simp add: filter_empty_conv)

section \<open>No action is retried forever\<close>

text \<open>Attempts on one key, one per tick, as long as the action is queued.\<close>

fun attempts :: "'tx exec_conf \<Rightarrow> string \<Rightarrow> rpc_env list \<Rightarrow> executor \<Rightarrow> executor" where
  "attempts c k [] e = e"
| "attempts c k (rpc # rpcs) e =
     (case gm_get (ex_pending e) k of
        None \<Rightarrow> e
      | Some item \<Rightarrow> attempts c k rpcs (snd (tryExecute c rpc item e)))"

text \<open>The statuses the RPC documents for \<open>sendTransaction\<close>.\<close>

definition documented_status :: "rpc_env \<Rightarrow> bool" where
  "documented_status rpc \<longleftrightarrow> (\<forall>tx res. rp_SendTransaction rpc tx = Inr res \<longrightarrow>
     sr_Status res \<in> {''PENDING'', ''TRY_AGAIN_LATER'', ''DUPLICATE'', ''ERROR''})"

lemma attempt_progress:
  assumes "gm_get (ex_pending e) (item_key item) = Some item" and "documented_status rpc"
  shows "gm_get (ex_pending (snd (tryExecute c rpc item e))) (item_key item) = None \<or>
    gm_get (ex_pending (snd (tryExecute c rpc item e))) (item_key item) = Some (bump item) \<and>
    pi_Retries item + 1 < ec_maxRetries c"
proof -
  have r: "gm_get (ex_pending (retry_or_drop c item e)) (item_key item) = None \<or>
      gm_get (ex_pending (retry_or_drop c item e)) (item_key item) = Some (bump item) \<and>
      pi_Retries item + 1 < ec_maxRetries c" if "gm_get (ex_pending e) (item_key item) = Some item" for e
    using that
    by (auto simp: retry_or_drop_def Let_def dropItem_def set_item_def bump_def item_key_def)
  have f: "gm_get (ex_pending (sim_failed c sim item e)) (item_key item) = None \<or>
      gm_get (ex_pending (sim_failed c sim item e)) (item_key item) = Some (bump item) \<and>
      pi_Retries item + 1 < ec_maxRetries c" for sim
    using assms(1)
    by (auto simp: sim_failed_def Let_def dropItem_def set_item_def bump_def item_key_def)
  have a: "gm_get (ex_pending (snd (after_send c (rp_SendTransaction rpc x) item e))) (item_key item) = None \<or>
      gm_get (ex_pending (snd (after_send c (rp_SendTransaction rpc x) item e))) (item_key item) = Some (bump item) \<and>
      pi_Retries item + 1 < ec_maxRetries c" if "gm_get (ex_pending e) (item_key item) = Some item" for e x
    using r [OF that] assms(2)
    by (auto simp: after_send_def documented_status_def dropItem_def item_key_def split: sum.splits)
  show ?thesis
    using r [OF assms(1)] f a [of "e\<lparr>ex_sent := s\<rparr>" for s] assms(1)
    by (auto simp: tryExecute_def Let_def dropItem_def item_key_def split: sum.splits)
qed

lemma attempts_bound:
  assumes "ex_ok c e" and "\<forall>rpc \<in> set rpcs. documented_status rpc"
    and "\<And>item. gm_get (ex_pending e) k = Some item \<Longrightarrow>
      ec_maxRetries c - pi_Retries item \<le> int (length rpcs) \<and> 1 \<le> length rpcs"
  shows "gm_get (ex_pending (attempts c k rpcs e)) k = None"
  using assms
proof (induction c k rpcs e rule: attempts.induct)
  case (1 c k e)
  then show ?case by (cases "gm_get (ex_pending e) k") auto
next
  case (2 c k rpc rpcs e)
  show ?case
  proof (cases "gm_get (ex_pending e) k")
    case (Some item)
    then have k: "k = item_key item" using 2(2) keyed_by_get unfolding ex_ok_def by metis
    let ?e = "snd (tryExecute c rpc item e)"
    have ok: "ex_ok c ?e" using 2(2) Some k by (simp add: ex_ok_tryExecute)
    have "gm_get (ex_pending ?e) k = Some i \<Longrightarrow>
        ec_maxRetries c - pi_Retries i \<le> int (length rpcs) \<and> 1 \<le> length rpcs" for i
      using attempt_progress [of e item rpc c] Some k 2(3,4) by (auto simp: bump_def)
    then have "gm_get (ex_pending (attempts c k rpcs ?e)) k = None"
      using 2(1) [OF Some ok] 2(3) by auto
    then show ?thesis using Some by simp
  qed simp
qed

text \<open>C20: an action is not retried forever. Whatever the RPC server answers (with the documented
  statuses), after as many attempts as the retry limit, and after one if the limit is zero or
  negative, the action has left the queue.\<close>

theorem retries_bounded:
  assumes "ex_ok c e" and "\<forall>rpc \<in> set rpcs. documented_status rpc"
    and "max 1 (ec_maxRetries c) \<le> int (length rpcs)"
  shows "gm_get (ex_pending (attempts c k rpcs e)) k = None"
proof (rule attempts_bound [OF assms(1,2)])
  fix item
  assume "gm_get (ex_pending e) k = Some item"
  then have "0 \<le> pi_Retries item" using assms(1) unfolding ex_ok_def by force
  with assms(3) show "ec_maxRetries c - pi_Retries item \<le> int (length rpcs) \<and> 1 \<le> length rpcs"
    by linarith
qed

theorem retries_bounded_witness:
  "gm_get (ex_pending demo_exec) (pendKey demo_action) \<noteq> None \<and>
   gm_get (ex_pending (attempts demo_conf (pendKey demo_action)
     [demo_rpc ''oracle'' ''ERROR'', demo_rpc [] ''ERROR''] demo_exec)) (pendKey demo_action) = None"
proof -
  have "\<forall>rpc \<in> set [demo_rpc ''oracle'' ''ERROR'', demo_rpc [] ''ERROR'']. documented_status rpc"
    by (simp add: documented_status_def demo_rpc_def demo_send_def)
  from retries_bounded [OF demo_exec_ok this, of "pendKey demo_action"] show ?thesis
    by (simp add: demo_exec_get demo_conf_def)
qed

section \<open>What is sent\<close>

lemma build_action_host_function:
  assumes "sdk_roundtrips (ec_sdk c) ops" and "build_action_tx c a = Inr u"
    and "0 \<le> tk_PairIndex (pa_Key a)" "tk_PairIndex (pa_Key a) < 2 ^ 32"
    and "0 \<le> action_index a" "action_index a < 2 ^ 32"
  shows "\<exists>hf p i. envelope_host_function (ec_sdk c) u = Inr hf \<and>
    ia_FunctionName hf = (case pa_Type a of ActionLiquidate \<Rightarrow> ''liquidate_trade''
       | ActionTpSl \<Rightarrow> ''execute_tp_sl'' | ActionLimit \<Rightarrow> ''execute_limit_order'') \<and>
    ia_Args hf = (if pa_Type a = ActionTpSl
        then [mustAccountAddressScVal (ec_sdk c) (tb_Address (ec_txb c))] else []) @
      [mustAccountAddressScVal (ec_sdk c) (tk_Trader (pa_Key a)), ScvU32 p, ScvU32 i] \<and>
    uint p = tk_PairIndex (pa_Key a) \<and> uint i = action_index a"
proof -
  let ?p = "word_of_int (tk_PairIndex (pa_Key a)) :: u32" and ?i = "word_of_int (action_index a) :: u32"
  have w: "uint ?p = tk_PairIndex (pa_Key a)" "uint ?i = action_index a"
    using assms(3-6) by (simp_all add: word_of_int_index)
  have b: "buildInvokeTx (ec_sdk c) (ec_txb c)
      (case pa_Type a of ActionLiquidate \<Rightarrow> ''liquidate_trade''
         | ActionTpSl \<Rightarrow> ''execute_tp_sl'' | ActionLimit \<Rightarrow> ''execute_limit_order'')
      ((if pa_Type a = ActionTpSl
        then [mustAccountAddressScVal (ec_sdk c) (tb_Address (ec_txb c))] else []) @
       [mustAccountAddressScVal (ec_sdk c) (tk_Trader (pa_Key a)), ScvU32 ?p, ScvU32 ?i]) = Inr u"
    using assms(2)
    by (cases "pa_Type a") (simp_all add: build_action_tx_def Let_def BuildLiquidateTx_def
        BuildExecuteTpSlTx_def BuildExecuteLimitTx_def mustU32ScVal_def action_index_def)
  from buildInvokeTx_host_function [OF assms(1) b] w show ?thesis by fastforce
qed

text \<open>C19: what is sent is what was simulated. If an attempt hands a transaction over, the
  simulation of the action's own transaction had succeeded, and the transaction handed over invokes the
  same host function: the contract function of the action's type, with the trader's address and exactly
  the action's pair and index as unsigned 32-bit arguments (and the keeper's address first for a
  take-profit/stop-loss). This rests on the SDK decoding what it encoded.\<close>

theorem sent_is_simulated:
  assumes "sdk_roundtrips (ec_sdk c) ops"
    and "tryExecute c rpc item e = (sent, e')" and "ex_sent e' = (x, res) # ex_sent e"
    and "a = pi_Action item"
    and "0 \<le> tk_PairIndex (pa_Key a)" "tk_PairIndex (pa_Key a) < 2 ^ 32"
    and "0 \<le> action_index a" "action_index a < 2 ^ 32"
  shows "\<exists>u sim hf p i. build_action_tx c a = Inr u \<and>
    rp_SimulateTransaction rpc u = Inr sim \<and> IsSuccess sim \<and>
    envelope_host_function (ec_sdk c) u = Inr hf \<and> envelope_host_function (ec_sdk c) x = Inr hf \<and>
    ia_FunctionName hf = (case pa_Type a of ActionLiquidate \<Rightarrow> ''liquidate_trade''
       | ActionTpSl \<Rightarrow> ''execute_tp_sl'' | ActionLimit \<Rightarrow> ''execute_limit_order'') \<and>
    ia_Args hf = (if pa_Type a = ActionTpSl
        then [mustAccountAddressScVal (ec_sdk c) (tb_Address (ec_txb c))] else []) @
      [mustAccountAddressScVal (ec_sdk c) (tk_Trader (pa_Key a)), ScvU32 p, ScvU32 i] \<and>
    uint p = tk_PairIndex (pa_Key a) \<and> uint i = action_index a"
proof -
  obtain u sim where u: "build_action_tx c a = Inr u" "rp_SimulateTransaction rpc u = Inr sim"
    "IsSuccess sim" "prepareTx (ec_sdk c) (ec_txb c) (ec_networkPassphrase c) rpc u sim = Inr x"
    using tryExecute_hands_over [OF assms(2,3)] assms(4) by auto
  have "envelope_host_function (ec_sdk c) x = envelope_host_function (ec_sdk c) u"
    by (rule prepareTx_host_function [OF assms(1) u(4)])
  with u build_action_host_function [OF assms(1) u(1) assms(5-8)] show ?thesis by fastforce
qed

lemma demo_submits:
  "tryExecute demo_conf (demo_rpc [] ''PENDING'') \<lparr>pi_Action = demo_action, pi_Retries = 0\<rparr> demo_exec =
     (True, dropItem \<lparr>pi_Action = demo_action, pi_Retries = 0\<rparr> (demo_exec\<lparr>ex_sent := [(''E'', Inr (demo_send ''PENDING''))]\<rparr>))"
proof -
  have "prepareTx demo_sdk demo_txb ''net'' (demo_rpc [] ''PENDING'') ''E'' (demo_sim []) = Inr ''E''"
    by (simp add: prepareTx_def envelope_host_function_def fetchSequence_def finish_tx_def
        demo_exec_defs auth_entries_def)
  moreover have "ex_sent demo_exec = []"
    by (simp add: demo_exec_def Enqueue_def enqueue_one_def NewExecutor_def)
  ultimately show ?thesis
    using demo_build
    by (simp add: tryExecute_def demo_rpc_def demo_sim_def demo_send_def IsSuccess_def after_send_def demo_conf_def)
qed

theorem sent_is_simulated_witness:
  "\<exists>e' hf. tryExecute demo_conf (demo_rpc [] ''PENDING'') \<lparr>pi_Action = demo_action, pi_Retries = 0\<rparr>
      demo_exec = (True, e') \<and> ex_sent e' = [(''E'', Inr (demo_send ''PENDING''))] \<and>
    envelope_host_function demo_sdk ''E'' = Inr hf \<and> ia_FunctionName hf = ''liquidate_trade''"
proof -
  have s: "ex_sent demo_exec = []"
    by (simp add: demo_exec_def Enqueue_def enqueue_one_def NewExecutor_def)
  have "sdk_roundtrips (ec_sdk demo_conf) id" by (simp add: demo_conf_def demo_sdk_roundtrips)
  from sent_is_simulated [OF this demo_submits, of "''E''" "Inr (demo_send ''PENDING'')" demo_action] demo_submits s
  show ?thesis by (auto simp: dropItem_def demo_action_def action_index_def demo_conf_def)
qed

section \<open>Actions whose target is gone\<close>

lemma Detect_needs_entry:
  assumes "ts_wf s" and "Detect pairIndex (Some p) s = Some actions" and "b \<in> set actions"
  shows "if pa_Type b = ActionLimit
    then gm_get (ts_limits s) (LimitKey (tk_Trader (pa_Key b)) (tk_PairIndex (pa_Key b)) (pa_LimitIndex b)) \<noteq> None
    else gm_get (ts_trades s) (pa_Key b) \<noteq> None"
proof -
  from assms(2,3) have "b \<in> set (due_trade_actions s pairIndex p) \<or> b \<in> set (due_limit_actions s pairIndex p)"
    by (auto simp: Detect_due)
  then show ?thesis
  proof
    assume "b \<in> set (due_trade_actions s pairIndex p)"
    then show ?thesis unfolding due_trade_iff [OF assms(1)] by (auto split: if_splits)
  next
    assume b: "b \<in> set (due_limit_actions s pairIndex p)"
    then have "tk_PairIndex (pa_Key b) = pairIndex"
      unfolding due_limit_iff [OF assms(1)] by (metis trade_key.sel(2))
    with b show ?thesis unfolding due_limit_iff [OF assms(1)] by auto
  qed
qed

lemma sim_failed_not_found:
  assumes "isTradeNotFound (sm_Error sim) \<or> isLimitNotFound (sm_Error sim)" and "a = pi_Action item"
  shows "gm_get (ex_pending (sim_failed c sim item e)) (item_key item) = None"
    and "pa_Type a \<noteq> ActionLimit \<Longrightarrow> ex_state (sim_failed c sim item e) = Remove (pa_Key a) (ex_state e)"
    and "pa_Type a = ActionLimit \<Longrightarrow> ex_state (sim_failed c sim item e) =
      RemoveLimit (LimitKey (tk_Trader (pa_Key a)) (tk_PairIndex (pa_Key a)) (pa_LimitIndex a)) (ex_state e)"
  using assms
  by (auto simp: sim_failed_def Let_def dropItem_def set_item_def item_key_def bump_def)

text \<open>C37: an action whose target is gone is forgotten. When the simulation reports that the trade or
  the limit order does not exist, the attempt takes the action out of the queue and its target out of
  the keeper's state, so that no price makes the detector return this action again (until an event
  opens or places the target anew).\<close>

theorem not_found_is_forgotten:
  assumes "ex_ok c e" and "build_action_tx c (pi_Action item) = Inr u"
    and "rp_SimulateTransaction rpc u = Inr sim"
    and "isTradeNotFound (sm_Error sim) \<or> isLimitNotFound (sm_Error sim)"
  shows "\<exists>e'. tryExecute c rpc item e = (False, e') \<and>
    gm_get (ex_pending e') (pendKey (pi_Action item)) = None \<and>
    (\<forall>pairIndex p actions. Detect pairIndex (Some p) (ex_state e') = Some actions \<longrightarrow>
       pendKey (pi_Action item) \<notin> pendKey ` set actions)"
proof -
  let ?a = "pi_Action item" and ?e = "sim_failed c sim item e"
  note nf = sim_failed_not_found [OF assms(4) refl]
  have "\<not> IsSuccess sim"
    using assms(4) by (auto simp: IsSuccess_def isTradeNotFound_def isLimitNotFound_def)
  then have t: "tryExecute c rpc item e = (False, ?e)" using assms(2,3) by (simp add: tryExecute_def)
  have wf: "ts_wf (ex_state ?e)" using ts_wf_tryExecute [of e c rpc item] assms(1) t by (simp add: ex_ok_def)
  have "pendKey ?a \<notin> pendKey ` set actions"
    if "Detect pairIndex (Some p) (ex_state ?e) = Some actions" for pairIndex p actions
  proof
    assume "pendKey ?a \<in> pendKey ` set actions"
    then obtain b where b: "b \<in> set actions" "pendKey b = pendKey ?a" by auto
    note eq = b(2) [unfolded pendKey_eq_iff]
    show False
    proof (cases "pa_Type ?a = ActionLimit")
      case True
      with Detect_needs_entry [OF wf that b(1)] eq show False
        by (auto simp: nf(3) RemoveLimit_def action_index_def)
    next
      case False
      with eq have "pa_Key b = pa_Key ?a"
        by (auto simp: action_index_def intro: trade_key.expand)
      with False Detect_needs_entry [OF wf that b(1)] eq show False by (simp add: nf(2) Remove_def)
    qed
  qed
  with t nf(1) show ?thesis by (auto simp: item_key_def)
qed

theorem not_found_is_forgotten_witness:
  "\<exists>e'. tryExecute demo_conf (demo_rpc ''Error(Contract, #17)'' []) \<lparr>pi_Action = demo_action, pi_Retries = 0\<rparr>
      demo_exec = (False, e') \<and> gm_get (ex_pending e') (pendKey demo_action) = None \<and>
    (\<exists>actions. Detect 1 (Some 905) (ex_state e') = Some actions \<and> pendKey demo_action \<notin> pendKey ` set actions)"
proof -
  let ?sim = "demo_sim ''Error(Contract, #17)''"
  have "sublist ''#17'' ''Error(Contract, #17)''"
    unfolding sublist_def by (intro exI [of _ "''Error(Contract, ''"] exI [of _ "'')''"]) simp
  then have "isTradeNotFound (sm_Error ?sim) \<or> isLimitNotFound (sm_Error ?sim)"
    by (simp add: isTradeNotFound_def strings_Contains_def demo_sim_def)
  from not_found_is_forgotten [OF demo_exec_ok, of "\<lparr>pi_Action = demo_action, pi_Retries = 0\<rparr>" "''E''"
      "demo_rpc ''Error(Contract, #17)'' []" ?sim, OF _ _ this]
  show ?thesis using Detect_due by (auto simp: demo_build demo_rpc_def)
qed

end
