(* ===== verification/Go_Time.thy ===== *)
theory Go_Time
  imports Prelude
begin

text \<open>
  What the program uses of package \<open>time\<close>: \<open>time.Parse(time.RFC3339, s)\<close>. The parser of the
  standard library first tries the strict form of RFC 3339, which is modelled here byte by
  byte; what it does with a string that is not of this form (it still accepts an hour of one
  digit and a comma before the fraction) is a parameter. A time is the number of nanoseconds
  since 1970 in UTC.

  Proved here: the fraction read is less than a second, and the parser reads the form in which
  the RPC server prints ledger close times.
\<close>

type_synonym go_time = int

text \<open>\<open>parseUint\<close>: decimal digits only, and a value within the bounds.\<close>

definition parse_field :: "string \<Rightarrow> nat \<Rightarrow> nat \<Rightarrow> nat option" where
  "parse_field s lo hi =
     (case digits_val 0 s of
        None \<Rightarrow> None
      | Some x \<Rightarrow> if lo \<le> x \<and> x \<le> hi then Some x else None)"

definition is_leap :: "nat \<Rightarrow> bool" where
  "is_leap y \<longleftrightarrow> y mod 4 = 0 \<and> (y mod 100 \<noteq> 0 \<or> y mod 400 = 0)"

definition days_in :: "nat \<Rightarrow> nat \<Rightarrow> nat" where
  "days_in m y =
     (if m = 2 then (if is_leap y then 29 else 28)
      else if m = 4 \<or> m = 6 \<or> m = 9 \<or> m = 11 then 30 else 31)"

text \<open>The day number of a civil date; 1970-01-01 is day 0. The year may be 0.\<close>

definition days_before_year :: "nat \<Rightarrow> int" where
  "days_before_year y =
     (let p = int y - 1 in 365 * p + p div 4 - p div 100 + p div 400 - 719162)"

definition civil_day :: "nat \<Rightarrow> nat \<Rightarrow> nat \<Rightarrow> int" where
  "civil_day y m d = days_before_year y + (\<Sum>i \<leftarrow> [1..<m]. int (days_in i y)) + int d - 1"

text \<open>The fraction of a second in nanoseconds: at most nine digits count.\<close>

definition nanoseconds :: "string \<Rightarrow> nat" where
  "nanoseconds ds =
     (let t = take 9 ds in
      case digits_val 0 t of None \<Rightarrow> 0 | Some n \<Rightarrow> n * 10 ^ (9 - length t))"

text \<open>The zone: \<open>Z\<close> or an offset \<open>+hh:mm\<close>, in seconds.\<close>

definition parse_zone :: "string \<Rightarrow> int option" where
  "parse_zone z =
     (if z = ''Z'' then Some 0
      else if length z \<noteq> 6 then None
      else (case (parse_field (take 2 (drop 1 z)) 0 23, parse_field (drop 4 z) 0 59) of
              (Some hr, Some mm) \<Rightarrow>
                if (z ! 0 = CHR ''-'' \<or> z ! 0 = CHR ''+'') \<and> z ! 3 = CHR '':'' then
                  let off = (int hr * 60 + int mm) * 60
                  in Some (if z ! 0 = CHR ''-'' then - off else off)
                else None
            | _ \<Rightarrow> None))"

text \<open>\<open>parseRFC3339\<close> of the standard library.\<close>

definition parse_rfc3339 :: "string \<Rightarrow> go_time option" where
  "parse_rfc3339 s =
     (if length s < 19 then None
      else
        let sub = (\<lambda>i n. take n (drop i s)) in
        case (parse_field (sub 0 4) 0 9999, parse_field (sub 5 2) 1 12) of
          (Some y, Some mo) \<Rightarrow>
            (case (parse_field (sub 8 2) 1 (days_in mo y), parse_field (sub 11 2) 0 23,
                   parse_field (sub 14 2) 0 59, parse_field (sub 17 2) 0 59) of
               (Some d, Some h, Some mi, Some se) \<Rightarrow>
                 if s ! 4 = CHR ''-'' \<and> s ! 7 = CHR ''-'' \<and> s ! 10 = CHR ''T'' \<and>
                    s ! 13 = CHR '':'' \<and> s ! 16 = CHR '':'' then
                   let rest = drop 19 s;
                       frac = (length rest \<ge> 2 \<and> rest ! 0 = CHR ''.'' \<and> is_digit (rest ! 1));
                       ds = (if frac then takeWhile is_digit (drop 1 rest) else []);
                       zone = (if frac then drop (1 + length ds) rest else rest)
                   in (case parse_zone zone of
                         None \<Rightarrow> None
                       | Some off \<Rightarrow>
                           Some ((civil_day y mo d * 86400 +
                                  int h * 3600 + int mi * 60 + int se - off) * 1000000000 +
                                 int (nanoseconds ds)))
                 else None
             | _ \<Rightarrow> None)
        | _ \<Rightarrow> None)"

text \<open>\<open>time.Parse(time.RFC3339, s)\<close>: the strict form, else the general parser.\<close>

definition time_Parse_RFC3339 :: "(string \<Rightarrow> string + go_time) \<Rightarrow> string \<Rightarrow> string + go_time" where
  "time_Parse_RFC3339 general s =
     (case parse_rfc3339 s of Some t \<Rightarrow> Inr t | None \<Rightarrow> general s)"

lemma nanoseconds_bound: "nanoseconds ds < 10 ^ 9"
proof -
  let ?t = "take 9 ds"
  have l: "length ?t \<le> 9" by simp
  show ?thesis
  proof (cases "digits_val 0 ?t")
    case None
    then show ?thesis by (simp add: nanoseconds_def Let_def)
  next
    case (Some n)
    then have "n < 10 ^ length ?t" by (rule digits_val_bound)
    then have "n * 10 ^ (9 - length ?t) < 10 ^ length ?t * 10 ^ (9 - length ?t)"
      by (intro mult_strict_right_mono) auto
    also have "\<dots> = 10 ^ 9" using l by (simp flip: power_add)
    finally show ?thesis using Some by (simp add: nanoseconds_def Let_def)
  qed
qed

lemma parse_example: "parse_rfc3339 ''2026-06-19T10:00:00Z'' = Some (1781863200 * 10 ^ 9)"
  by (simp add: parse_rfc3339_def parse_field_def parse_zone_def digit_val_def days_in_def
      civil_day_def days_before_year_def is_leap_def nanoseconds_def Let_def upt_rec)

end
