(* ===== verification/Store.thy ===== *)
theory Store
  imports Keeper_Math Positions Go_Time "HOL-Library.Log_Nat"
begin

text \<open>
  \<^verbatim>\<open>internal/store/store.go\<close> over the schema of \<^verbatim>\<open>migrations/\<close>: the indexer's writes. The
  database is the record \<open>db\<close>, one field per table, a table with a primary key being a map and
  an append-only one a list. A NUMERIC column holds the integer whose decimal digits were
  written, an INTEGER column an \<^typ>\<open>int\<close>. Each SQL statement is one definition.

  \<open>Apply\<close> runs in one transaction: its statements work on a copy, which becomes the database
  when the commit succeeds. What can fail outside of the program (the connection, the server)
  is the record \<open>pg_env\<close>, one field per statement; the driver's refusal to put an integer out of
  range into an INTEGER or BIGINT column is computed. A failed SELECT of \<open>closeTradeUnknownReason\<close> is
  modelled as leaving the transaction usable, which allows more outcomes than PostgreSQL, where the
  statements after it fail too. Times are kept in full, while TIMESTAMPTZ keeps microseconds.

  Proved here: the invariant of the tables, that the live tables track the open positions and
  orders, that closing moves a row and loses nothing, which events may be applied twice and
  which may not, the vault's and the open interest's balances, and how the reason of a
  take-profit or stop-loss close is found out.
\<close>

section \<open>Tables\<close>

record trade_rec =
  tx_is_long :: bool
  tx_leverage :: int
  tx_collateral :: int
  tx_open_price :: int
  tx_acc_rollover_open :: int
  tx_acc_funding_open :: int
  tx_tp_price :: int
  tx_sl_price :: int
  tx_liq_price :: int
  tx_liq_threshold_p :: int
  tx_open_fee :: int
  tx_opened_at :: go_time
  tx_opened_tx :: string

record history_rec =
  hr_key :: trade_key
  hr_is_long :: bool
  hr_leverage :: int
  hr_collateral :: int
  hr_open_price :: int
  hr_close_price :: bigp
  hr_acc_rollover_open :: int
  hr_acc_funding_open :: int
  hr_tp_price :: int
  hr_sl_price :: int
  hr_realized_pnl :: bigp
  hr_open_fee :: bigp
  hr_close_fee :: bigp
  hr_close_reason :: string
  hr_opened_at :: go_time
  hr_opened_tx :: string
  hr_closed_at :: go_time
  hr_closed_tx :: string

record limit_rec =
  lx_is_long :: bool
  lx_leverage :: int
  lx_collateral :: int
  lx_limit_price :: int
  lx_tp_price :: int
  lx_sl_price :: int
  lx_placed_at :: go_time
  lx_placed_tx :: string

record limit_history_rec =
  lh_key :: limit_key
  lh_order :: limit_rec
  lh_resolution :: string
  lh_resolved_at :: go_time
  lh_resolved_tx :: string

record vault_rec =
  vp_shares :: int
  vp_total_deposited :: int
  vp_total_withdrawn :: int
  vp_last_action_at :: go_time

record oi_rec =
  oi_long :: int
  oi_short :: int
  oi_updated_at :: go_time

record fee_rec =
  fa_acc_rollover :: int
  fa_acc_funding_long :: int
  fa_acc_funding_short :: int
  fa_rollover_fee_per_ledger_p :: int
  fa_funding_fee_per_ledger_p :: int
  fa_projected_at_ledger :: int
  fa_synced_at :: go_time

record audit_rec =
  au_ledger :: u64
  au_contract_id :: string
  au_topic :: string
  au_trader :: "string option"
  au_pair_index :: "int option"
  au_trade_index :: "int option"
  au_data :: event
  au_occurred_at :: go_time

record db =
  db_trade_events :: "(string \<times> u32, audit_rec) gmap"
  db_trades :: "(trade_key, trade_rec) gmap"
  db_trade_history :: "history_rec list"
  db_limit_orders :: "(limit_key, limit_rec) gmap"
  db_limit_order_history :: "limit_history_rec list"
  db_vault_positions :: "(string, vault_rec) gmap"
  db_pair_oi :: "(int, oi_rec) gmap"
  db_pair_fee_accumulators :: "(int, fee_rec) gmap"
  db_indexer_cursor :: "(u64 \<times> string) option"

definition empty_db :: db where
  "empty_db =
     \<lparr> db_trade_events = gm_empty, db_trades = gm_empty, db_trade_history = [],
       db_limit_orders = gm_empty, db_limit_order_history = [], db_vault_positions = gm_empty,
       db_pair_oi = gm_empty, db_pair_fee_accumulators = gm_empty, db_indexer_cursor = None \<rparr>"

section \<open>Helpers\<close>

text \<open>The driver encodes a \<open>uint32\<close> for an INTEGER column and a \<open>uint64\<close> for a BIGINT column.\<close>

definition int4_ok :: "u32 \<Rightarrow> bool" where
  "int4_ok w \<longleftrightarrow> uint w < 2 ^ 31"

definition int8_ok :: "u64 \<Rightarrow> bool" where
  "int8_ok w \<longleftrightarrow> uint w < 2 ^ 63"

definition out_of_range :: string where
  "out_of_range = ''value out of range''"

definition nilIfEmpty :: "string \<Rightarrow> string option" where
  "nilIfEmpty s = (if s = [] then None else Some s)"

definition deref :: "i32 option \<Rightarrow> i32" where
  "deref p = (case p of None \<Rightarrow> 0 | Some x \<Rightarrow> x)"

text \<open>The NUMERIC column that receives \<open>bigStr(b)\<close>, and the nullable one of \<open>bigStrOrNil(b)\<close>.\<close>

definition numeric :: "string \<Rightarrow> int" where
  "numeric s = (case big_SetString10 s of None \<Rightarrow> 0 | Some x \<Rightarrow> x)"

definition bigStrOrNil :: "bigp \<Rightarrow> string option" where
  "bigStrOrNil b = (case b of None \<Rightarrow> None | Some x \<Rightarrow> Some (int_dec x))"

definition parseLedgerTime ::
  "(string \<Rightarrow> string + go_time) \<Rightarrow> go_time \<Rightarrow> string \<Rightarrow> string + go_time" where
  "parseLedgerTime general now s = (if s = [] then Inr now else time_Parse_RFC3339 general s)"

section \<open>The cursor\<close>

definition ReadCursor :: "string option \<Rightarrow> db \<Rightarrow> string + (u64 \<times> string)" where
  "ReadCursor fault d =
     (case fault of
        Some err \<Rightarrow> Inl err
      | None \<Rightarrow> (case db_indexer_cursor d of None \<Rightarrow> Inr (0, []) | Some c \<Rightarrow> Inr c))"

definition WriteCursor :: "string option \<Rightarrow> u64 \<Rightarrow> string \<Rightarrow> db \<Rightarrow> string option \<times> db" where
  "WriteCursor fault lastLedger cursor d =
     (if \<not> int8_ok lastLedger then (Some out_of_range, d)
      else (case fault of
              Some err \<Rightarrow> (Some err, d)
            | None \<Rightarrow> (None, d\<lparr>db_indexer_cursor := Some (lastLedger, cursor)\<rparr>)))"

section \<open>Position manager\<close>

text \<open>
  \<open>INSERT INTO trades ... ON CONFLICT DO UPDATE\<close>: on a conflict the threshold and the opening
  time and transaction of the existing row stay.
\<close>

definition upsert_trade :: "trade_key \<Rightarrow> trade_rec \<Rightarrow> db \<Rightarrow> db" where
  "upsert_trade k r d =
     d\<lparr>db_trades :=
        (case gm_get (db_trades d) k of
           None \<Rightarrow> gm_put k r (db_trades d)
         | Some old \<Rightarrow>
             gm_put k (r\<lparr>tx_liq_threshold_p := tx_liq_threshold_p old,
                         tx_opened_at := tx_opened_at old, tx_opened_tx := tx_opened_tx old\<rparr>)
               (db_trades d))\<rparr>"

definition opened_rec :: "event \<Rightarrow> trade \<Rightarrow> go_time \<Rightarrow> trade_rec" where
  "opened_rec e t tm =
     (let liqPrice = ignore_err (LiquidationPrice (tr_OpenPrice t) (tr_IsLong t)
                       (tr_Collateral t) (tr_Leverage t) None None 90)
      in \<lparr> tx_is_long = tr_IsLong t, tx_leverage = uint (tr_Leverage t),
           tx_collateral = numeric (bigStr (tr_Collateral t)),
           tx_open_price = numeric (bigStr (tr_OpenPrice t)),
           tx_acc_rollover_open = numeric (bigStr (tr_AccRolloverOpen t)),
           tx_acc_funding_open = numeric (bigStr (tr_AccFundingOpen t)),
           tx_tp_price = numeric (bigStr (tr_TpPrice t)),
           tx_sl_price = numeric (bigStr (tr_SlPrice t)),
           tx_liq_price = numeric (bigStr liqPrice), tx_liq_threshold_p = 90,
           tx_open_fee = numeric (bigStr (ev_OpenFee e)), tx_opened_at = tm,
           tx_opened_tx = ev_TxHash e \<rparr>)"

text \<open>
  \<open>WITH del AS (DELETE ... RETURNING ...) INSERT INTO trade_history ... ON CONFLICT (trader,
  pair_index, trade_index, closed_tx) DO NOTHING\<close>
\<close>

definition history_of :: "trade_key \<Rightarrow> trade_rec \<Rightarrow> event \<Rightarrow> string \<Rightarrow> go_time \<Rightarrow> history_rec" where
  "history_of k r e reason tm =
     \<lparr> hr_key = k, hr_is_long = tx_is_long r, hr_leverage = tx_leverage r,
       hr_collateral = tx_collateral r, hr_open_price = tx_open_price r,
       hr_close_price = map_option numeric (bigStrOrNil (ev_ClosePrice e)),
       hr_acc_rollover_open = tx_acc_rollover_open r, hr_acc_funding_open = tx_acc_funding_open r,
       hr_tp_price = tx_tp_price r, hr_sl_price = tx_sl_price r,
       hr_realized_pnl = map_option numeric (bigStrOrNil (ev_NetPnl e)),
       hr_open_fee = Some (tx_open_fee r),
       hr_close_fee = map_option numeric (bigStrOrNil (ev_CloseFee e)),
       hr_close_reason = reason, hr_opened_at = tx_opened_at r, hr_opened_tx = tx_opened_tx r,
       hr_closed_at = tm, hr_closed_tx = ev_TxHash e \<rparr>"

definition closeTrade :: "event \<Rightarrow> string \<Rightarrow> go_time \<Rightarrow> db \<Rightarrow> db" where
  "closeTrade e reason tm d =
     (case ev_TradeIndex e of
        None \<Rightarrow> d
      | Some i \<Rightarrow>
          let k = TradeKey (ev_Trader e) (sint (deref (ev_PairIndex e))) (sint i) in
          (case gm_get (db_trades d) k of
             None \<Rightarrow> d
           | Some r \<Rightarrow>
               let h = history_of k r e reason tm;
                   d = d\<lparr>db_trades := gm_del k (db_trades d)\<rparr>
               in if \<exists>x \<in> set (db_trade_history d). hr_key x = k \<and> hr_closed_tx x = ev_TxHash e
                  then d
                  else d\<lparr>db_trade_history := db_trade_history d @ [h]\<rparr>))"

text \<open>
  Binary floating point of precision \<open>p\<close>, rounding to nearest, ties to even, on integers: 53
  bits for the \<open>float64\<close> a price column is scanned into, 64 bits for \<open>big.Float.SetString\<close>.
\<close>

definition round_nat :: "nat \<Rightarrow> nat \<Rightarrow> nat" where
  "round_nat p n =
     (if n < 2 ^ p then n
      else
        let s = floorlog 2 n - p; q = n div 2 ^ s; r = n mod 2 ^ s; h = 2 ^ (s - 1);
            q' = (if r > h \<or> (r = h \<and> odd q) then q + 1 else q)
        in q' * 2 ^ s)"

definition round_int :: "nat \<Rightarrow> int \<Rightarrow> int" where
  "round_int p i = (if i < 0 then - int (round_nat p (nat (- i))) else int (round_nat p (nat i)))"

text \<open>The comparison of \<open>closeTradeUnknownReason\<close>; \<open>row\<close> is \<open>None\<close> when no row was read.\<close>

definition close_reason :: "(bool \<times> int \<times> int) option \<Rightarrow> bigp \<Rightarrow> string" where
  "close_reason row closePrice =
     (let (isLong, tp, sl) =
            (case row of None \<Rightarrow> (False, 0, 0)
             | Some (l, t, s) \<Rightarrow> (l, round_int 53 t, round_int 53 s))
      in case (row, closePrice) of
           (Some _, Some c) \<Rightarrow>
             let cp = round_int 64 c in
             if isLong then
               if 0 < sl \<and> cp \<le> sl then ''sl''
               else if 0 < tp \<and> cp \<ge> tp then ''tp''
               else ''tp''
             else
               if 0 < sl \<and> cp \<ge> sl then ''sl''
               else if 0 < tp \<and> cp \<le> tp then ''tp''
               else ''tp''
         | _ \<Rightarrow> if tp = 0 then ''sl'' else ''tp'')"

text \<open>A failing SELECT reads as no row.\<close>

definition closeTradeUnknownReason :: "bool \<Rightarrow> event \<Rightarrow> go_time \<Rightarrow> db \<Rightarrow> db" where
  "closeTradeUnknownReason scan_fails e tm d =
     (case ev_TradeIndex e of
        None \<Rightarrow> d
      | Some i \<Rightarrow>
          let k = TradeKey (ev_Trader e) (sint (deref (ev_PairIndex e))) (sint i);
              row = (if scan_fails then None
                     else map_option (\<lambda>r. (tx_is_long r, tx_tp_price r, tx_sl_price r))
                            (gm_get (db_trades d) k))
          in closeTrade e (close_reason row (ev_ClosePrice e)) tm d)"

definition upsert_limit :: "limit_key \<Rightarrow> limit_rec \<Rightarrow> db \<Rightarrow> db" where
  "upsert_limit k r d =
     d\<lparr>db_limit_orders :=
        (case gm_get (db_limit_orders d) k of
           None \<Rightarrow> gm_put k r (db_limit_orders d)
         | Some old \<Rightarrow> gm_put k (r\<lparr>lx_placed_at := lx_placed_at old, lx_placed_tx := lx_placed_tx old\<rparr>)
                         (db_limit_orders d))\<rparr>"

definition placed_rec :: "event \<Rightarrow> limit_order \<Rightarrow> go_time \<Rightarrow> limit_rec" where
  "placed_rec e l tm =
     \<lparr> lx_is_long = lo_IsLong l, lx_leverage = uint (lo_Leverage l),
       lx_collateral = numeric (bigStr (lo_Collateral l)),
       lx_limit_price = numeric (bigStr (lo_LimitPrice l)),
       lx_tp_price = numeric (bigStr (lo_TpPrice l)), lx_sl_price = numeric (bigStr (lo_SlPrice l)),
       lx_placed_at = tm, lx_placed_tx = ev_TxHash e \<rparr>"

text \<open>\<open>limit_order_history\<close> has no unique index, so every deleted row is appended.\<close>

definition resolveLimit :: "event \<Rightarrow> string \<Rightarrow> go_time \<Rightarrow> db \<Rightarrow> db" where
  "resolveLimit e resolution tm d =
     (case ev_LimitIndex e of
        None \<Rightarrow> d
      | Some i \<Rightarrow>
          let k = LimitKey (ev_Trader e) (sint (deref (ev_PairIndex e))) (sint i) in
          (case gm_get (db_limit_orders d) k of
             None \<Rightarrow> d
           | Some r \<Rightarrow>
               d\<lparr>db_limit_orders := gm_del k (db_limit_orders d),
                 db_limit_order_history := db_limit_order_history d @
                   [\<lparr> lh_key = k, lh_order = r, lh_resolution = resolution, lh_resolved_at = tm,
                      lh_resolved_tx = ev_TxHash e \<rparr>]\<rparr>))"

text \<open>The result is an error or the new contents of the transaction.\<close>

definition applyPM :: "bool \<Rightarrow> event \<Rightarrow> go_time \<Rightarrow> db \<Rightarrow> string + db" where
  "applyPM scan_fails e tm d =
     (if ev_Topic e = ''opened'' then
        (case (ev_Trade e, ev_TradeIndex e) of
           (Some t, Some i) \<Rightarrow>
             if \<not> int4_ok (tr_PairIndex t) \<or> \<not> int4_ok (tr_Leverage t) then Inl out_of_range
             else Inr (upsert_trade (TradeKey (ev_Trader e) (uint (tr_PairIndex t)) (sint i))
                         (opened_rec e t tm) d)
         | _ \<Rightarrow> Inr d)
      else if ev_Topic e = ''updated_tp_sl'' then
        (case (ev_TradeIndex e, ev_TpPrice e, ev_SlPrice e) of
           (Some i, Some tp, Some sl) \<Rightarrow>
             Inr (d\<lparr>db_trades :=
                      gm_modify (TradeKey (ev_Trader e) (sint (deref (ev_PairIndex e))) (sint i))
                        (\<lambda>r. r\<lparr>tx_tp_price := numeric (bigStr (Some tp)),
                               tx_sl_price := numeric (bigStr (Some sl))\<rparr>) (db_trades d)\<rparr>)
         | _ \<Rightarrow> Inr d)
      else if ev_Topic e = ''closed'' then Inr (closeTrade e ''manual'' tm d)
      else if ev_Topic e = ''tp_sl_executed'' then Inr (closeTradeUnknownReason scan_fails e tm d)
      else if ev_Topic e = ''liq'' then Inr (closeTrade e ''liquidation'' tm d)
      else if ev_Topic e = ''placed'' then
        (case (ev_Limit e, ev_LimitIndex e) of
           (Some l, Some i) \<Rightarrow>
             if \<not> int4_ok (lo_PairIndex l) \<or> \<not> int4_ok (lo_Leverage l) then Inl out_of_range
             else Inr (upsert_limit (LimitKey (ev_Trader e) (uint (lo_PairIndex l)) (sint i))
                         (placed_rec e l tm) d)
         | _ \<Rightarrow> Inr d)
      else if ev_Topic e = ''updated_limit'' then
        (case (ev_LimitIndex e, ev_LimitPrice e) of
           (Some i, Some p) \<Rightarrow>
             Inr (d\<lparr>db_limit_orders :=
                      gm_modify (LimitKey (ev_Trader e) (sint (deref (ev_PairIndex e))) (sint i))
                        (\<lambda>r. r\<lparr>lx_limit_price := numeric (bigStr (Some p)),
                               lx_tp_price := numeric (bigStr (ev_TpPrice e)),
                               lx_sl_price := numeric (bigStr (ev_SlPrice e))\<rparr>)
                        (db_limit_orders d)\<rparr>)
         | _ \<Rightarrow> Inr d)
      else if ev_Topic e = ''executed'' then Inr (resolveLimit e ''executed'' tm d)
      else if ev_Topic e = ''canceled'' then Inr (resolveLimit e ''canceled'' tm d)
      else Inr d)"

section \<open>Vault and registry\<close>

definition applyVault :: "event \<Rightarrow> go_time \<Rightarrow> db \<Rightarrow> db" where
  "applyVault e tm d =
     (if ev_Topic e = ''deposit'' then
        let sh = numeric (bigStr (ev_Shares e)); am = numeric (bigStr (ev_Assets e))
        in d\<lparr>db_vault_positions :=
              gm_put (ev_Trader e)
                (case gm_get (db_vault_positions d) (ev_Trader e) of
                   None \<Rightarrow> \<lparr> vp_shares = sh, vp_total_deposited = am, vp_total_withdrawn = 0,
                            vp_last_action_at = tm \<rparr>
                 | Some v \<Rightarrow> v\<lparr> vp_shares := vp_shares v + sh,
                               vp_total_deposited := vp_total_deposited v + am,
                               vp_last_action_at := tm \<rparr>)
                (db_vault_positions d)\<rparr>
      else if ev_Topic e = ''withdraw'' then
        let sh = - numeric (bigStr (ev_Shares e)); am = numeric (bigStr (ev_Assets e))
        in d\<lparr>db_vault_positions :=
              gm_put (ev_Trader e)
                (case gm_get (db_vault_positions d) (ev_Trader e) of
                   None \<Rightarrow> \<lparr> vp_shares = sh, vp_total_deposited = 0, vp_total_withdrawn = am,
                            vp_last_action_at = tm \<rparr>
                 | Some v \<Rightarrow> v\<lparr> vp_shares := vp_shares v + sh,
                               vp_total_withdrawn := vp_total_withdrawn v + am,
                               vp_last_action_at := tm \<rparr>)
                (db_vault_positions d)\<rparr>
      else d)"

text \<open>The row an INSERT with the defaults of the schema creates.\<close>

definition default_fee_rec :: "go_time \<Rightarrow> fee_rec" where
  "default_fee_rec tm =
     \<lparr> fa_acc_rollover = 0, fa_acc_funding_long = 0, fa_acc_funding_short = 0,
       fa_rollover_fee_per_ledger_p = 0, fa_funding_fee_per_ledger_p = 0,
       fa_projected_at_ledger = 0, fa_synced_at = tm \<rparr>"

definition fee_row_or_default :: "int \<Rightarrow> go_time \<Rightarrow> db \<Rightarrow> fee_rec" where
  "fee_row_or_default p tm d =
     (case gm_get (db_pair_fee_accumulators d) p of None \<Rightarrow> default_fee_rec tm | Some r \<Rightarrow> r)"

definition applyRegistry :: "event \<Rightarrow> go_time \<Rightarrow> db \<Rightarrow> db" where
  "applyRegistry e tm d =
     (if ev_Topic e = ''rollover_rate'' then
        (case (ev_PairIndex e, ev_RatePer e) of
           (Some p, Some rate) \<Rightarrow>
             d\<lparr>db_pair_fee_accumulators :=
                gm_put (sint p) ((fee_row_or_default (sint p) tm d)
                  \<lparr> fa_rollover_fee_per_ledger_p := numeric (bigStr (Some rate)), fa_synced_at := tm \<rparr>)
                  (db_pair_fee_accumulators d)\<rparr>
         | _ \<Rightarrow> d)
      else if ev_Topic e = ''funding_rate'' then
        (case (ev_PairIndex e, ev_RatePer e) of
           (Some p, Some rate) \<Rightarrow>
             d\<lparr>db_pair_fee_accumulators :=
                gm_put (sint p) ((fee_row_or_default (sint p) tm d)
                  \<lparr> fa_funding_fee_per_ledger_p := numeric (bigStr (Some rate)), fa_synced_at := tm \<rparr>)
                  (db_pair_fee_accumulators d)\<rparr>
         | _ \<Rightarrow> d)
      else if ev_Topic e = ''oi_add'' \<or> ev_Topic e = ''oi_sub'' then
        (case (ev_PairIndex e, ev_OIIsLong e, ev_Amount e) of
           (Some p, Some isLong, Some amount) \<Rightarrow>
             let longDelta = numeric (if isLong then bigStr (Some amount) else ''0'');
                 shortDelta = numeric (if isLong then ''0'' else bigStr (Some amount));
                 sub = (ev_Topic e = ''oi_sub'');
                 insertLong = (if sub then 0 else longDelta);
                 insertShort = (if sub then 0 else shortDelta)
             in d\<lparr>db_pair_oi :=
                   gm_put (sint p)
                     (case gm_get (db_pair_oi d) (sint p) of
                        None \<Rightarrow> \<lparr> oi_long = max 0 insertLong, oi_short = max 0 insertShort,
                                 oi_updated_at = tm \<rparr>
                      | Some r \<Rightarrow>
                          \<lparr> oi_long = max 0 (if sub then oi_long r - longDelta else oi_long r + longDelta),
                            oi_short = max 0 (if sub then oi_short r - shortDelta else oi_short r + shortDelta),
                            oi_updated_at = tm \<rparr>)
                     (db_pair_oi d)\<rparr>
         | _ \<Rightarrow> d)
      else d)"

section \<open>Apply\<close>

text \<open>
  The outside faults of one call: of \<open>BeginTx\<close>, of the audit INSERT, of the SELECT, of the
  projection's statement, and of the commit, which may report an error whether or not the
  server committed; and the two sources of time.
\<close>

record pg_env =
  pg_begin :: "string option"
  pg_audit :: "string option"
  pg_select_fails :: bool
  pg_projection :: "string option"
  pg_commit :: "(string \<times> bool) option"
  pg_now :: go_time
  pg_general_parse :: "string \<Rightarrow> string + go_time"

definition insert_audit :: "event \<Rightarrow> u32 \<Rightarrow> go_time \<Rightarrow> db \<Rightarrow> db" where
  "insert_audit e idx tm d =
     (case gm_get (db_trade_events d) (ev_TxHash e, idx) of
        Some _ \<Rightarrow> d
      | None \<Rightarrow>
          d\<lparr>db_trade_events :=
             gm_put (ev_TxHash e, idx)
               \<lparr> au_ledger = ev_Ledger e, au_contract_id = ev_ContractID e, au_topic = ev_Topic e,
                 au_trader = nilIfEmpty (ev_Trader e),
                 au_pair_index = map_option sint (ev_PairIndex e),
                 au_trade_index = map_option sint (ev_TradeIndex e),
                 au_data = e, au_occurred_at = tm \<rparr> (db_trade_events d)\<rparr>)"

text \<open>The switch on the source; a projection that runs a statement meets its fault.\<close>

definition apply_projection :: "pg_env \<Rightarrow> event \<Rightarrow> go_time \<Rightarrow> db \<Rightarrow> string + db" where
  "apply_projection pg e tm d =
     (let r = (if ev_Source e = SrcPM then applyPM (pg_select_fails pg) e tm d
               else if ev_Source e = SrcVault then Inr (applyVault e tm d)
               else if ev_Source e = SrcRegistry then Inr (applyRegistry e tm d)
               else Inr d)
      in case pg_projection pg of Some err \<Rightarrow> Inl err | None \<Rightarrow> r)"

text \<open>\<open>Apply\<close>. Of the error of an unreadable time only the text around the quoted time is kept.\<close>

definition Store_Apply :: "pg_env \<Rightarrow> event \<Rightarrow> u32 \<Rightarrow> db \<Rightarrow> string option \<times> db" where
  "Store_Apply pg e eventIndex d =
     (case pg_begin pg of
        Some err \<Rightarrow> (Some err, d)
      | None \<Rightarrow>
     (case parseLedgerTime (pg_general_parse pg) (pg_now pg) (ev_OccurredAt e) of
        Inl err \<Rightarrow> (Some (''parse ledger time: '' @ err), d)
      | Inr occurred \<Rightarrow>
          if \<not> int4_ok eventIndex \<or> \<not> int8_ok (ev_Ledger e)
          then (Some (''insert trade_events: '' @ out_of_range), d)
          else
     (case pg_audit pg of
        Some err \<Rightarrow> (Some (''insert trade_events: '' @ err), d)
      | None \<Rightarrow>
     (case apply_projection pg e occurred (insert_audit e eventIndex occurred d) of
        Inl err \<Rightarrow> (Some err, d)
      | Inr d' \<Rightarrow>
          (case pg_commit pg of
             None \<Rightarrow> (None, d')
           | Some (err, committed) \<Rightarrow> (Some err, if committed then d' else d))))))"

section \<open>Frame and invariant\<close>

lemma numeric_simps [simp]: "numeric (bigStr b) = or_zero b" "numeric (int_dec x) = x" "numeric ''0'' = 0"
  using SetString_int_dec [of 0] by (simp_all add: numeric_def int_dec_0)

lemma deref_deref32 [simp]: "deref = deref32"
  by (simp add: fun_eq_iff deref_def deref32_def)

lemmas pm_defs = applyPM_def closeTrade_def closeTradeUnknownReason_def resolveLimit_def
  upsert_trade_def upsert_limit_def Let_def

text \<open>What one committed call does, independent of the outside faults.\<close>

definition committed :: "bool \<Rightarrow> event \<Rightarrow> u32 \<Rightarrow> go_time \<Rightarrow> db \<Rightarrow> string + db" where
  "committed scan_fails e idx tm d =
     (let d = insert_audit e idx tm d in
      if ev_Source e = SrcPM then applyPM scan_fails e tm d
      else if ev_Source e = SrcVault then Inr (applyVault e tm d)
      else if ev_Source e = SrcRegistry then Inr (applyRegistry e tm d)
      else Inr d)"

text \<open>Every call either leaves the database as it was or commits exactly the event.\<close>

lemma Store_Apply_cases:
  obtains (unchanged) "snd (Store_Apply pg e idx d) = d" "fst (Store_Apply pg e idx d) \<noteq> None"
  | (done_) tm d' where "snd (Store_Apply pg e idx d) = d'"
      "parseLedgerTime (pg_general_parse pg) (pg_now pg) (ev_OccurredAt e) = Inr tm"
      "int4_ok idx" "int8_ok (ev_Ledger e)"
      "committed (pg_select_fails pg) e idx tm d = Inr d'"
proof -
  show ?thesis
    using unchanged done_
    unfolding Store_Apply_def apply_projection_def committed_def
    by (fastforce simp: Let_def split: option.splits sum.splits if_splits)
qed

definition history_key :: "history_rec \<Rightarrow> trade_key \<times> string" where
  "history_key h = (hr_key h, hr_closed_tx h)"

definition close_reasons :: "string list" where
  "close_reasons = [''manual'', ''tp'', ''sl'', ''liquidation'']"

text \<open>The constraints of the schema, and that open interest is never negative.\<close>

definition db_ok :: "db \<Rightarrow> bool" where
  "db_ok d \<longleftrightarrow>
     gm_wf (db_trade_events d) \<and> gm_wf (db_trades d) \<and> gm_wf (db_limit_orders d) \<and>
     gm_wf (db_vault_positions d) \<and> gm_wf (db_pair_oi d) \<and> gm_wf (db_pair_fee_accumulators d) \<and>
     distinct (map history_key (db_trade_history d)) \<and>
     (\<forall>h \<in> set (db_trade_history d). hr_close_reason h \<in> set close_reasons) \<and>
     (\<forall>h \<in> set (db_limit_order_history d). lh_resolution h \<in> {''executed'', ''canceled''}) \<and>
     (\<forall>p r. gm_get (db_pair_oi d) p = Some r \<longrightarrow> 0 \<le> oi_long r \<and> 0 \<le> oi_short r)"

lemma close_reason_values: "close_reason row cp = ''tp'' \<or> close_reason row cp = ''sl''"
  by (auto simp: close_reason_def Let_def split: option.splits prod.splits)

lemma db_ok_audit: "db_ok d \<Longrightarrow> db_ok (insert_audit e idx tm d)"
  by (auto simp: db_ok_def insert_audit_def split: option.splits)

lemma db_ok_closeTrade:
  assumes "db_ok d" and "reason \<in> set close_reasons"
  shows "db_ok (closeTrade e reason tm d)"
proof (cases "\<exists>i r. ev_TradeIndex e = Some i \<and>
    gm_get (db_trades d) (TradeKey (ev_Trader e) (sint (deref (ev_PairIndex e))) (sint i)) = Some r")
  case True
  then obtain i r where ir: "ev_TradeIndex e = Some i"
    "gm_get (db_trades d) (TradeKey (ev_Trader e) (sint (deref (ev_PairIndex e))) (sint i)) = Some r" by blast
  let ?k = "TradeKey (ev_Trader e) (sint (deref (ev_PairIndex e))) (sint i)"
  let ?d = "d\<lparr>db_trades := gm_del ?k (db_trades d)\<rparr>"
  have ok: "db_ok ?d" using assms(1) by (auto simp: db_ok_def)
  show ?thesis
  proof (cases "\<exists>x \<in> set (db_trade_history d). hr_key x = ?k \<and> hr_closed_tx x = ev_TxHash e")
    case True
    then have "closeTrade e reason tm d = ?d" using ir by (simp add: closeTrade_def Let_def)
    with ok show ?thesis by simp
  next
    case False
    then have "closeTrade e reason tm d =
        ?d\<lparr>db_trade_history := db_trade_history d @ [history_of ?k r e reason tm]\<rparr>"
      using ir by (simp add: closeTrade_def Let_def)
    moreover have "history_key (history_of ?k r e reason tm) \<notin> history_key ` set (db_trade_history d)"
      using False by (auto simp: history_key_def history_of_def)
    ultimately show ?thesis using ok assms(2) by (auto simp: db_ok_def history_of_def)
  qed
next
  case False
  then have "closeTrade e reason tm d = d" by (auto simp: closeTrade_def Let_def split: option.splits)
  with assms show ?thesis by simp
qed

lemma db_ok_resolveLimit:
  "db_ok d \<Longrightarrow> res \<in> {''executed'', ''canceled''} \<Longrightarrow> db_ok (resolveLimit e res tm d)"
  by (auto simp: db_ok_def resolveLimit_def Let_def split: option.splits)

lemma db_ok_applyPM:
  assumes "db_ok d" and "applyPM sf e tm d = Inr d'"
  shows "db_ok d'"
proof -
  have "close_reason row cp \<in> set close_reasons" for row cp
    using close_reason_values [of row cp] by (auto simp: close_reasons_def)
  then have c: "db_ok (closeTradeUnknownReason sf e tm d)"
    using assms(1) by (auto simp: closeTradeUnknownReason_def Let_def db_ok_closeTrade split: option.splits)
  have m: "db_ok (closeTrade e ''manual'' tm d)" "db_ok (closeTrade e ''liquidation'' tm d)"
    using assms(1) by (simp_all add: db_ok_closeTrade close_reasons_def)
  have u: "db_ok (upsert_trade k r d)" "db_ok (upsert_limit lk lr d)" for k r lk lr
    using assms(1) by (auto simp: db_ok_def upsert_trade_def upsert_limit_def split: option.splits)
  have f: "db_ok (d\<lparr>db_trades := gm_modify k g (db_trades d)\<rparr>)"
    "db_ok (d\<lparr>db_limit_orders := gm_modify lk lg (db_limit_orders d)\<rparr>)" for k g lk lg
    using assms(1) by (auto simp: db_ok_def)
  show ?thesis
    using assms c m u f
    by (auto simp: applyPM_def db_ok_resolveLimit split: option.splits if_splits)
qed

lemma db_ok_applyVault: "db_ok d \<Longrightarrow> db_ok (applyVault e tm d)"
  by (auto simp: db_ok_def applyVault_def Let_def)

lemma db_ok_applyRegistry:
  assumes "db_ok d"
  shows "db_ok (applyRegistry e tm d)"
proof -
  have "db_ok (d\<lparr>db_pair_oi := gm_put p r (db_pair_oi d)\<rparr>)" if "0 \<le> oi_long r" "0 \<le> oi_short r" for p r
    using assms that by (auto simp: db_ok_def)
  moreover have "db_ok (d\<lparr>db_pair_fee_accumulators := gm_put p r (db_pair_fee_accumulators d)\<rparr>)" for p r
    using assms by (auto simp: db_ok_def)
  ultimately show ?thesis
    using assms by (auto simp: applyRegistry_def Let_def split: option.splits)
qed

lemma db_ok_committed: "db_ok d \<Longrightarrow> committed sf e idx tm d = Inr d' \<Longrightarrow> db_ok d'"
  by (auto simp: committed_def Let_def db_ok_audit db_ok_applyVault db_ok_applyRegistry
      split: if_splits intro: db_ok_applyPM [OF db_ok_audit])

lemma db_ok_Apply: "db_ok d \<Longrightarrow> db_ok (snd (Store_Apply pg e idx d))"
  by (rule Store_Apply_cases [of pg e idx d]) (auto dest: db_ok_committed)

lemma db_ok_empty: "db_ok empty_db"
  by (simp add: db_ok_def empty_db_def)

section \<open>The live tables track the open positions\<close>

definition db_open :: "db \<Rightarrow> trade_key set" where
  "db_open d = dom (gm_get (db_trades d))"

definition db_open_limits :: "db \<Rightarrow> limit_key set" where
  "db_open_limits d = dom (gm_get (db_limit_orders d))"

text \<open>The events that a call commits when nothing outside fails.\<close>

definition healthy :: "pg_env \<Rightarrow> bool" where
  "healthy pg \<longleftrightarrow> pg_begin pg = None \<and> pg_audit pg = None \<and> pg_projection pg = None \<and> pg_commit pg = None"

definition event_fits :: "event \<Rightarrow> bool" where
  "event_fits e \<longleftrightarrow> int4_ok (ev_EventIndex e) \<and> int8_ok (ev_Ledger e) \<and>
     (ev_Topic e = ''opened'' \<longrightarrow>
        (case ev_Trade e of None \<Rightarrow> True | Some t \<Rightarrow> int4_ok (tr_PairIndex t) \<and> int4_ok (tr_Leverage t))) \<and>
     (ev_Topic e = ''placed'' \<longrightarrow>
        (case ev_Limit e of None \<Rightarrow> True | Some l \<Rightarrow> int4_ok (lo_PairIndex l) \<and> int4_ok (lo_Leverage l)))"

definition store_accepts :: "pg_env \<Rightarrow> event \<Rightarrow> bool" where
  "store_accepts pg e \<longleftrightarrow> healthy pg \<and> event_fits e \<and>
     (\<exists>tm. parseLedgerTime (pg_general_parse pg) (pg_now pg) (ev_OccurredAt e) = Inr tm)"

lemma audit_tables [simp]:
  "db_trades (insert_audit e i tm d) = db_trades d"
  "db_limit_orders (insert_audit e i tm d) = db_limit_orders d"
  "db_trade_history (insert_audit e i tm d) = db_trade_history d"
  "db_limit_order_history (insert_audit e i tm d) = db_limit_order_history d"
  "db_vault_positions (insert_audit e i tm d) = db_vault_positions d"
  "db_pair_oi (insert_audit e i tm d) = db_pair_oi d"
  by (simp_all add: insert_audit_def split: option.splits)

lemma applyPM_total:
  assumes "event_fits e"
  shows "\<exists>d'. applyPM sf e tm d = Inr d'"
  using assms by (auto simp: applyPM_def event_fits_def split: option.splits)

lemma closeTrade_open:
  "db_open (closeTrade e reason tm d) =
     (case trade_key_of e of None \<Rightarrow> db_open d | Some k \<Rightarrow> db_open d - {k})"
  by (auto simp: db_open_def closeTrade_def trade_key_of_def Let_def split: option.splits if_splits)

lemma closeTradeUnknownReason_open:
  "db_open (closeTradeUnknownReason sf e tm d) =
     (case trade_key_of e of None \<Rightarrow> db_open d | Some k \<Rightarrow> db_open d - {k})"
  by (simp add: closeTradeUnknownReason_def Let_def closeTrade_open trade_key_of_def split: option.splits)

lemma resolveLimit_open:
  "db_open_limits (resolveLimit e res tm d) =
     (case limit_key_of e of None \<Rightarrow> db_open_limits d | Some k \<Rightarrow> db_open_limits d - {k})"
  by (auto simp: db_open_limits_def resolveLimit_def limit_key_of_def Let_def split: option.splits)

lemma upsert_open:
  "db_open (upsert_trade k r d) = insert k (db_open d)"
  "db_open_limits (upsert_limit lk lr d) = insert lk (db_open_limits d)"
  by (auto simp: db_open_def db_open_limits_def upsert_trade_def upsert_limit_def split: option.splits)

lemma modify_open:
  "db_open (d\<lparr>db_trades := gm_modify k f (db_trades d)\<rparr>) = db_open d"
  "db_open_limits (d\<lparr>db_limit_orders := gm_modify lk g (db_limit_orders d)\<rparr>) = db_open_limits d"
  by (simp_all add: db_open_def db_open_limits_def)

text \<open>The statements on one live table leave the other one alone.\<close>

lemma open_frames:
  "db_open_limits (closeTrade e reason tm d) = db_open_limits d"
  "db_open_limits (closeTradeUnknownReason sf e tm d) = db_open_limits d"
  "db_open (resolveLimit e res tm d) = db_open d"
  "db_open_limits (upsert_trade k r d) = db_open_limits d"
  "db_open (upsert_limit lk lr d) = db_open d"
  "db_open_limits (d\<lparr>db_trades := m\<rparr>) = db_open_limits d"
  "db_open (d\<lparr>db_limit_orders := m'\<rparr>) = db_open d"
  "db_open (insert_audit e i tm d) = db_open d"
  "db_open_limits (insert_audit e i tm d) = db_open_limits d"
  by (simp_all add: db_open_def db_open_limits_def closeTradeUnknownReason_def closeTrade_def
      resolveLimit_def upsert_trade_def upsert_limit_def Let_def split: option.splits)

lemmas open_simps = closeTrade_open closeTradeUnknownReason_open resolveLimit_open upsert_open
  modify_open open_frames

lemma applyPM_open:
  assumes "applyPM sf e tm d = Inr d'"
  shows "db_open d' = open_step e (db_open d)"
  using assms
  by (auto simp: applyPM_def open_step_def opened_key_def closing_topics_def open_simps
      split: option.splits if_splits)

lemma applyPM_limits:
  assumes "applyPM sf e tm d = Inr d'"
  shows "db_open_limits d' = limit_step e (db_open_limits d)"
  using assms
  by (auto simp: applyPM_def limit_step_def placed_key_def resolving_topics_def open_simps
      split: option.splits if_splits)

lemma Store_Apply_fits:
  assumes "healthy pg" "event_fits e" "int4_ok idx"
    and "parseLedgerTime (pg_general_parse pg) (pg_now pg) (ev_OccurredAt e) = Inr tm"
  shows "\<exists>d'. Store_Apply pg e idx d = (None, d') \<and> committed (pg_select_fails pg) e idx tm d = Inr d'"
proof -
  have "\<exists>d'. applyPM (pg_select_fails pg) e tm (insert_audit e idx tm d) = Inr d'"
    using assms(2) by (rule applyPM_total)
  then have "\<exists>d'. committed (pg_select_fails pg) e idx tm d = Inr d'"
    by (simp add: committed_def Let_def)
  then obtain d' where d': "committed (pg_select_fails pg) e idx tm d = Inr d'" ..
  then have "Store_Apply pg e idx d = (None, d')"
    using assms
    by (auto simp: Store_Apply_def apply_projection_def committed_def healthy_def event_fits_def Let_def
        split: sum.splits)
  with d' show ?thesis by blast
qed

lemma Store_Apply_accepts:
  assumes "store_accepts pg e"
  obtains tm d' where "Store_Apply pg e (ev_EventIndex e) d = (None, d')"
    "parseLedgerTime (pg_general_parse pg) (pg_now pg) (ev_OccurredAt e) = Inr tm"
    "committed (pg_select_fails pg) e (ev_EventIndex e) tm d = Inr d'"
  using assms Store_Apply_fits [of pg e "ev_EventIndex e" _ d] that
  unfolding store_accepts_def event_fits_def by blast

lemma Store_Apply_healthy:
  assumes "store_accepts pg e" and "ev_Source e = SrcPM"
  obtains tm d' where "Store_Apply pg e (ev_EventIndex e) d = (None, d')"
    "applyPM (pg_select_fails pg) e tm (insert_audit e (ev_EventIndex e) tm d) = Inr d'"
  using Store_Apply_accepts [OF assms(1), of d] that assms(2) by (auto simp: committed_def Let_def)

text \<open>The index with which an event is logged is its own here; the indexer passes its position in the
  page. The live tables do not depend on it.\<close>

definition store_step :: "pg_env \<Rightarrow> event \<Rightarrow> db \<Rightarrow> db" where
  "store_step pg e d = snd (Store_Apply pg e (ev_EventIndex e) d)"

interpretation store: position_projection "store_step pg" db_open db_open_limits db_ok
  "\<lambda>e. store_accepts pg e \<and> ev_Source e = SrcPM" for pg
proof
  fix d e
  assume a: "store_accepts pg e \<and> ev_Source e = SrcPM"
  show "db_ok d \<Longrightarrow> db_ok (store_step pg e d)" by (simp add: store_step_def db_ok_Apply)
  from a obtain tm d' where "Store_Apply pg e (ev_EventIndex e) d = (None, d')"
    "applyPM (pg_select_fails pg) e tm (insert_audit e (ev_EventIndex e) tm d) = Inr d'"
    using Store_Apply_healthy by blast
  then show "db_open (store_step pg e d) = open_step e (db_open d)"
    and "db_open_limits (store_step pg e d) = limit_step e (db_open_limits d)"
    by (simp_all add: store_step_def applyPM_open applyPM_limits open_frames)
qed

section \<open>Properties\<close>

text \<open>A sequence of calls on the repository.\<close>

datatype store_op = OpApply pg_env event u32 | OpWriteCursor "string option" u64 string

fun store_run :: "store_op list \<Rightarrow> db \<Rightarrow> db" where
  "store_run [] d = d"
| "store_run (OpApply pg e idx # ops) d = store_run ops (snd (Store_Apply pg e idx d))"
| "store_run (OpWriteCursor f l c # ops) d = store_run ops (snd (WriteCursor f l c d))"

lemma db_ok_WriteCursor: "db_ok d \<Longrightarrow> db_ok (snd (WriteCursor f l c d))"
  by (cases f) (simp_all add: WriteCursor_def db_ok_def)

lemma db_ok_run: "db_ok d \<Longrightarrow> db_ok (store_run ops d)"
  by (induction ops d rule: store_run.induct) (simp_all add: db_ok_Apply db_ok_WriteCursor)

text \<open>C3: the constraints of the schema hold in every database that the store can produce, from
  whatever events, in whatever order and with whatever failures of the server: keys are unique in every
  table, a position has at most one history row per closing transaction, every history row has one of the
  reasons and resolutions that the CHECK constraints allow (so no statement violates them), and open
  interest is never negative.\<close>

theorem store_invariant: "db_ok (store_run ops empty_db)"
  by (rule db_ok_run [OF db_ok_empty])

text \<open>The live tables hold exactly the open positions and orders. After any sequence of events of
  the position manager that fit the columns, on a healthy server, the keys of trades and of limit_orders
  are those of the abstract position set after the same events.\<close>

theorem store_tracks_positions:
  assumes "db_ok d" and "\<forall>e \<in> set es. store_accepts pg e \<and> ev_Source e = SrcPM"
  shows "db_open (fold (store_step pg) es d) = open_run es (db_open d) \<and>
    db_open_limits (fold (store_step pg) es d) = limit_run es (db_open_limits d)"
  using store.open_of_run [OF assms] store.limits_of_run [OF assms] by simp

definition demo_pg :: pg_env where
  "demo_pg = \<lparr> pg_begin = None, pg_audit = None, pg_select_fails = False, pg_projection = None,
     pg_commit = None, pg_now = 5, pg_general_parse = (\<lambda>s. Inl ''parse'') \<rparr>"

definition demo_db_opened :: event where
  "demo_db_opened = zero_event\<lparr>ev_Source := SrcPM, ev_Topic := ''opened'', ev_Trader := ''alice'',
     ev_TxHash := ''t1'', ev_PairIndex := Some 1, ev_TradeIndex := Some 2,
     ev_Trade := Some (zero_trade\<lparr>tr_PairIndex := 1, tr_IsLong := True, tr_Leverage := 10,
        tr_OpenPrice := Some 1000, tr_Collateral := Some 500, tr_TpPrice := Some 1200,
        tr_SlPrice := Some 950\<rparr>)\<rparr>"

definition demo_db_closed :: event where
  "demo_db_closed = zero_event\<lparr>ev_Source := SrcPM, ev_Topic := ''tp_sl_executed'', ev_Trader := ''alice'',
     ev_TxHash := ''t2'', ev_PairIndex := Some 1, ev_TradeIndex := Some 2, ev_ClosePrice := Some 940,
     ev_NetPnl := Some (- 300)\<rparr>"

lemmas demo_db_defs = demo_pg_def demo_db_opened_def demo_db_closed_def zero_event_def zero_trade_def

lemma demo_accepted:
  "store_accepts demo_pg demo_db_opened" "store_accepts demo_pg demo_db_closed"
  "ev_Source demo_db_opened = SrcPM" "ev_Source demo_db_closed = SrcPM"
  by (simp_all add: store_accepts_def healthy_def event_fits_def int4_ok_def int8_ok_def
      parseLedgerTime_def demo_db_defs)

theorem store_tracks_positions_witness:
  "db_open (fold (store_step demo_pg) [demo_db_opened] empty_db) = {TradeKey ''alice'' 1 2} \<and>
   db_open (fold (store_step demo_pg) [demo_db_opened, demo_db_closed] empty_db) = {}"
proof -
  have e: "db_open empty_db = {}" by (auto simp: db_open_def empty_db_def)
  show ?thesis
    using store_tracks_positions [OF db_ok_empty, of "[demo_db_opened]" demo_pg]
      store_tracks_positions [OF db_ok_empty, of "[demo_db_opened, demo_db_closed]" demo_pg] demo_accepted
    by (auto simp: e open_run_def open_step_def opened_key_def trade_key_of_def closing_topics_def
        demo_db_defs)
qed

section \<open>Closing\<close>

lemma closeTrade_history:
  "\<exists>new. db_trade_history (closeTrade e reason tm d) = db_trade_history d @ new"
  by (auto simp: closeTrade_def Let_def split: option.splits)

lemma closeTrade_recorded:
  assumes "k \<in> db_open d" "k \<notin> db_open (closeTrade e reason tm d)"
  shows "(k, ev_TxHash e) \<in> history_key ` set (db_trade_history (closeTrade e reason tm d))"
proof -
  from assms have k: "trade_key_of e = Some k" by (auto simp: closeTrade_open split: option.splits)
  obtain r where "gm_get (db_trades d) k = Some r" using assms(1) by (auto simp: db_open_def)
  with k have "\<exists>x \<in> set (db_trade_history (closeTrade e reason tm d)). hr_key x = k \<and> hr_closed_tx x = ev_TxHash e"
    by (auto simp: closeTrade_def trade_key_of_def Let_def history_of_def)
  then show ?thesis by (auto simp: history_key_def image_iff)
qed

definition records :: "event \<Rightarrow> db \<Rightarrow> db \<Rightarrow> bool" where
  "records e d d' \<longleftrightarrow>
     (\<exists>new. db_trade_history d' = db_trade_history d @ new) \<and>
     (\<exists>new. db_limit_order_history d' = db_limit_order_history d @ new) \<and>
     (\<forall>k \<in> db_open d - db_open d'. (k, ev_TxHash e) \<in> history_key ` set (db_trade_history d')) \<and>
     (\<forall>k \<in> db_open_limits d - db_open_limits d'.
        \<exists>h \<in> set (db_limit_order_history d'). lh_key h = k \<and> lh_resolved_tx h = ev_TxHash e)"

lemma records_refl: "records e d d"
  by (simp add: records_def)

lemma records_closeTrade: "records e d (closeTrade e reason tm d)"
proof -
  have "db_limit_order_history (closeTrade e reason tm d) = db_limit_order_history d"
    by (simp add: closeTrade_def Let_def split: option.splits)
  then show ?thesis
    using closeTrade_history closeTrade_recorded by (auto simp: records_def open_frames)
qed

lemma records_resolveLimit: "records e d (resolveLimit e res tm d)"
  by (auto simp: records_def resolveLimit_def db_open_def db_open_limits_def Let_def split: option.splits)

lemma records_frame:
  assumes "db_trade_history d' = db_trade_history d" "db_limit_order_history d' = db_limit_order_history d"
    and "db_open d \<subseteq> db_open d'" "db_open_limits d \<subseteq> db_open_limits d'"
  shows "records e d d'"
  using assms by (auto simp: records_def)

lemma records_updates:
  "records e d (upsert_trade k r d)" "records e d (upsert_limit lk lr d)"
  "records e d (d\<lparr>db_trades := gm_modify k f (db_trades d)\<rparr>)"
  "records e d (d\<lparr>db_limit_orders := gm_modify lk g (db_limit_orders d)\<rparr>)"
proof -
  show "records e d (upsert_trade k r d)"
    by (rule records_frame) (auto simp: open_simps, auto simp: upsert_trade_def)
  show "records e d (upsert_limit lk lr d)"
    by (rule records_frame) (auto simp: open_simps, auto simp: upsert_limit_def)
  show "records e d (d\<lparr>db_trades := gm_modify k f (db_trades d)\<rparr>)"
    "records e d (d\<lparr>db_limit_orders := gm_modify lk g (db_limit_orders d)\<rparr>)"
    by (simp_all add: records_def open_simps)
qed

lemma records_other_sources: "records e d (applyVault e tm d)" "records e d (applyRegistry e tm d)"
  by (simp_all add: records_def applyVault_def applyRegistry_def db_open_def db_open_limits_def
      Let_def split: option.splits)

lemma records_applyPM:
  assumes "applyPM sf e tm d = Inr d'"
  shows "records e d d'"
proof -
  have "records e d (closeTradeUnknownReason sf e tm d)"
    by (simp add: closeTradeUnknownReason_def Let_def records_closeTrade records_refl split: option.splits)
  with assms show ?thesis
    by (auto simp: applyPM_def records_refl records_closeTrade records_resolveLimit records_updates
        split: option.splits if_splits)
qed

lemma records_audit: "records e (insert_audit e i tm d) d' = records e d d'"
  by (simp add: records_def open_frames)

lemma records_committed: "committed sf e idx tm d = Inr d' \<Longrightarrow> records e d d'"
  using records_audit [of e idx tm d d']
  by (auto simp: committed_def Let_def records_refl records_other_sources
      split: if_splits dest: records_applyPM)

text \<open>C30: nothing is lost. A call with any event, index and failure pattern only appends to the two
  history tables, and every position (limit order) that it removes from the live table has a history row
  with this event's transaction.\<close>

theorem Store_Apply_loses_nothing: "records e d (snd (Store_Apply pg e idx d))"
  by (rule Store_Apply_cases [of pg e idx d]) (auto simp: records_refl dest: records_committed)

section \<open>Delivering an event twice\<close>

lemma applyPM_audit:
  "applyPM sf e tm d = Inr d' \<Longrightarrow> db_trade_events d' = db_trade_events d"
  by (auto simp: applyPM_def closeTradeUnknownReason_def closeTrade_def resolveLimit_def upsert_trade_def
      upsert_limit_def Let_def split: option.splits if_splits)

lemma upsert_trade_twice: "upsert_trade k (r\<lparr>tx_opened_at := a\<rparr>) (upsert_trade k r d) = upsert_trade k r d"
  by (cases "gm_get (db_trades d) k") (simp_all add: upsert_trade_def gm_put_same)

lemma upsert_limit_twice: "upsert_limit k (r\<lparr>lx_placed_at := a\<rparr>) (upsert_limit k r d) = upsert_limit k r d"
  by (cases "gm_get (db_limit_orders d) k") (simp_all add: upsert_limit_def gm_put_same)

lemma opened_rec_time: "opened_rec e t a = (opened_rec e t b)\<lparr>tx_opened_at := a\<rparr>"
  "placed_rec e l a = (placed_rec e l b)\<lparr>lx_placed_at := a\<rparr>"
  by (simp_all add: opened_rec_def placed_rec_def Let_def)

lemma closeTrade_twice: "closeTrade e reason' tm' (closeTrade e reason tm d) = closeTrade e reason tm d"
  by (auto simp: closeTrade_def Let_def split: option.splits)

lemma resolveLimit_twice: "resolveLimit e res' tm' (resolveLimit e res tm d) = resolveLimit e res tm d"
  by (auto simp: resolveLimit_def Let_def split: option.splits)

lemma closeTradeUnknownReason_twice:
  "closeTradeUnknownReason sf' e tm' (closeTradeUnknownReason sf e tm d) = closeTradeUnknownReason sf e tm d"
  by (auto simp: closeTradeUnknownReason_def Let_def closeTrade_twice split: option.splits)

lemma upsert_redelivered:
  "upsert_trade k (opened_rec e t tm') (upsert_trade k (opened_rec e t tm) d) =
     upsert_trade k (opened_rec e t tm) d"
  "upsert_limit lk (placed_rec e l tm') (upsert_limit lk (placed_rec e l tm) d) =
     upsert_limit lk (placed_rec e l tm) d"
  using upsert_trade_twice [where r = "opened_rec e t tm" and a = tm' and k = k and d = d] opened_rec_time(1) [of e t tm' tm]
    upsert_limit_twice [where r = "placed_rec e l tm" and a = tm' and k = lk and d = d] opened_rec_time(2) [of e l tm' tm]
  by simp_all

lemmas redelivered = upsert_redelivered closeTrade_twice resolveLimit_twice
  closeTradeUnknownReason_twice gm_modify_twice

text \<open>One topic after the other.\<close>

lemma applyPM_twice:
  assumes "applyPM sf e tm d = Inr d'"
  shows "applyPM sf' e tm' d' = Inr d'"
proof -
  consider "ev_Topic e = ''opened''" | "ev_Topic e = ''updated_tp_sl''" | "ev_Topic e = ''closed''"
    | "ev_Topic e = ''tp_sl_executed''" | "ev_Topic e = ''liq''" | "ev_Topic e = ''placed''"
    | "ev_Topic e = ''updated_limit''" | "ev_Topic e = ''executed''" | "ev_Topic e = ''canceled''"
    | "ev_Topic e \<notin> set pmTopics"
    unfolding pmTopics_def by auto
  then show ?thesis
    using assms
    by cases (auto simp: applyPM_def pmTopics_def redelivered split: option.splits if_splits)
qed

lemma insert_audit_twice:
  assumes "gm_get (db_trade_events d) (ev_TxHash e, idx) \<noteq> None"
  shows "insert_audit e idx tm d = d"
  using assms by (auto simp: insert_audit_def split: option.splits)

lemma insert_audit_present: "gm_get (db_trade_events (insert_audit e idx tm d)) (ev_TxHash e, idx) \<noteq> None"
  by (auto simp: insert_audit_def split: option.splits)

text \<open>Applying a position manager event again is harmless. Once a call has stored such an event,
  a second call with the same event and index, whether it succeeds or not and whenever it runs, leaves
  every table exactly as it is.\<close>

theorem PM_redelivery:
  assumes "ev_Source e = SrcPM" and "Store_Apply pg e idx d = (None, d1)"
  shows "snd (Store_Apply pg' e idx d1) = d1"
proof -
  obtain tm where d1: "applyPM (pg_select_fails pg) e tm (insert_audit e idx tm d) = Inr d1"
    by (rule Store_Apply_cases [of pg e idx d]) (use assms in \<open>auto simp: committed_def Let_def\<close>)
  have "gm_get (db_trade_events d1) (ev_TxHash e, idx) \<noteq> None"
    unfolding applyPM_audit [OF d1] by (rule insert_audit_present)
  then have a: "insert_audit e idx tm' d1 = d1" for tm' by (rule insert_audit_twice)
  show ?thesis
    by (rule Store_Apply_cases [of pg' e idx d1])
      (auto simp: committed_def Let_def assms(1) a applyPM_twice [OF d1])
qed

theorem PM_redelivery_witness:
  "\<exists>d1. Store_Apply demo_pg demo_db_opened 0 empty_db = (None, d1) \<and> d1 \<noteq> empty_db \<and>
     snd (Store_Apply (demo_pg\<lparr>pg_now := 9\<rparr>) demo_db_opened 0 d1) = d1"
proof -
  have z: "ev_EventIndex demo_db_opened = 0" by (simp add: demo_db_defs)
  from Store_Apply_healthy [OF demo_accepted(1,3), of empty_db] obtain d1 where
    d1: "Store_Apply demo_pg demo_db_opened 0 empty_db = (None, d1)" unfolding z by blast
  have "store_step demo_pg demo_db_opened empty_db = d1" using d1 by (simp add: store_step_def z)
  then have "db_open d1 = open_step demo_db_opened (db_open empty_db)"
    using store.open_apply [OF db_ok_empty, of demo_pg demo_db_opened] demo_accepted by simp
  then have "TradeKey ''alice'' 1 2 \<in> db_open d1"
    by (simp add: open_step_def opened_key_def demo_db_defs)
  then have "d1 \<noteq> empty_db" by (auto simp: db_open_def empty_db_def)
  with d1 PM_redelivery [OF demo_accepted(3) d1] show ?thesis by blast
qed

section \<open>Vault shares\<close>

definition shares_of :: "db \<Rightarrow> string \<Rightarrow> int" where
  "shares_of d u = (case gm_get (db_vault_positions d) u of None \<Rightarrow> 0 | Some v \<Rightarrow> vp_shares v)"

definition vault_delta :: "string \<Rightarrow> event \<Rightarrow> int" where
  "vault_delta u e =
     (if ev_Source e = SrcVault \<and> ev_Trader e = u then
        if ev_Topic e = ''deposit'' then or_zero (ev_Shares e)
        else if ev_Topic e = ''withdraw'' then - or_zero (ev_Shares e) else 0
      else 0)"

lemma applyPM_vault: "applyPM sf e tm d = Inr d' \<Longrightarrow> db_vault_positions d' = db_vault_positions d"
  by (auto simp: applyPM_def closeTradeUnknownReason_def closeTrade_def resolveLimit_def upsert_trade_def
      upsert_limit_def Let_def split: option.splits if_splits)

lemma applyRegistry_vault: "db_vault_positions (applyRegistry e tm d) = db_vault_positions d"
  by (simp add: applyRegistry_def Let_def split: option.splits)

lemma committed_shares:
  assumes "committed sf e idx tm d = Inr d'"
  shows "shares_of d' u = shares_of d u + vault_delta u e"
proof (cases "ev_Source e = SrcVault")
  case True
  with assms have "d' = applyVault e tm (insert_audit e idx tm d)" by (simp add: committed_def Let_def)
  with True show ?thesis
    by (auto simp: applyVault_def shares_of_def vault_delta_def Let_def split: option.splits)
next
  case False
  with assms have "db_vault_positions d' = db_vault_positions d"
    by (auto simp: committed_def Let_def applyRegistry_vault dest: applyPM_vault split: if_splits)
  with False show ?thesis by (simp add: shares_of_def vault_delta_def)
qed

text \<open>C39: the vault's books. After any sequence of accepted events, of all contracts, a depositor's
  shares are the shares before plus those of the deposits minus those of the withdrawals, counted once per
  delivery. The witness delivers one deposit twice: it is counted twice, unlike the events of the position
  manager.\<close>

theorem vault_balance:
  assumes "\<forall>e \<in> set es. store_accepts pg e"
  shows "shares_of (fold (store_step pg) es d) u = shares_of d u + sum_list (map (vault_delta u) es)"
  using assms
proof (induction es arbitrary: d)
  case (Cons e es)
  obtain tm d' where a: "Store_Apply pg e (ev_EventIndex e) d = (None, d')"
    and c: "committed (pg_select_fails pg) e (ev_EventIndex e) tm d = Inr d'"
    using Store_Apply_accepts [of pg e d] Cons.prems by (metis list.set_intros(1))
  have "shares_of (store_step pg e d) u = shares_of d u + vault_delta u e"
    using committed_shares [OF c] a by (simp add: store_step_def)
  with Cons show ?case by simp
qed simp

definition demo_deposit :: event where
  "demo_deposit = zero_event\<lparr>ev_Source := SrcVault, ev_Topic := ''deposit'', ev_Trader := ''bob'',
     ev_TxHash := ''t3'', ev_Shares := Some 10, ev_Assets := Some 11\<rparr>"

theorem vault_balance_witness:
  "shares_of (fold (store_step demo_pg) [demo_deposit] empty_db) ''bob'' = 10 \<and>
   shares_of (fold (store_step demo_pg) [demo_deposit, demo_deposit] empty_db) ''bob'' = 20"
proof -
  have "store_accepts demo_pg demo_deposit"
    by (simp add: store_accepts_def healthy_def event_fits_def int4_ok_def int8_ok_def
        parseLedgerTime_def demo_db_defs demo_deposit_def)
  moreover have "shares_of empty_db ''bob'' = 0" by (simp add: shares_of_def empty_db_def)
  ultimately show ?thesis
    using vault_balance [of "[demo_deposit]" demo_pg empty_db "''bob''"]
      vault_balance [of "[demo_deposit, demo_deposit]" demo_pg empty_db "''bob''"]
    by (simp add: vault_delta_def demo_deposit_def zero_event_def)
qed

section \<open>The reason of a close\<close>

lemma round_int_small: "0 \<le> i \<Longrightarrow> i < 2 ^ p \<Longrightarrow> round_int p i = i"
  by (auto simp: round_int_def round_nat_def nat_less_iff)

lemma numeric_bigStrOrNil: "map_option numeric (bigStrOrNil x) = x"
  by (cases x) (simp_all add: bigStrOrNil_def numeric_def)

text \<open>C40: a take-profit or stop-loss execution is booked exactly. For prices that a float64 holds
  exactly (below 2^53), a tp_sl_executed event of an open position on a healthy server deletes the
  position and appends one history row: direction, leverage, collateral, prices, accumulators, opening fee,
  time and transaction are those of the position, close price, profit, closing fee, time and transaction those
  of the event, each in its own column, and the reason is sl if the close price is at or beyond a stop-loss
  that is set, tp otherwise.\<close>

theorem tp_sl_close_booked:
  assumes "store_accepts pg e" "ev_Source e = SrcPM" "ev_Topic e = ''tp_sl_executed''"
    and "\<not> pg_select_fails pg" "trade_key_of e = Some k" "gm_get (db_trades d) k = Some r"
    and "ev_ClosePrice e = Some c" "0 \<le> c" "c < 2 ^ 64" "0 \<le> tx_sl_price r" "tx_sl_price r < 2 ^ 53"
    and "(k, ev_TxHash e) \<notin> history_key ` set (db_trade_history d)"
  shows "\<exists>d' tm. Store_Apply pg e (ev_EventIndex e) d = (None, d') \<and>
    parseLedgerTime (pg_general_parse pg) (pg_now pg) (ev_OccurredAt e) = Inr tm \<and>
    gm_get (db_trades d') = (gm_get (db_trades d))(k := None) \<and>
    db_trade_history d' = db_trade_history d @
      [\<lparr> hr_key = k, hr_is_long = tx_is_long r, hr_leverage = tx_leverage r, hr_collateral = tx_collateral r,
         hr_open_price = tx_open_price r, hr_close_price = Some c,
         hr_acc_rollover_open = tx_acc_rollover_open r, hr_acc_funding_open = tx_acc_funding_open r,
         hr_tp_price = tx_tp_price r, hr_sl_price = tx_sl_price r,
         hr_realized_pnl = ev_NetPnl e, hr_open_fee = Some (tx_open_fee r), hr_close_fee = ev_CloseFee e,
         hr_close_reason = (if 0 < tx_sl_price r \<and> (if tx_is_long r then c \<le> tx_sl_price r else tx_sl_price r \<le> c)
           then ''sl'' else ''tp''),
         hr_opened_at = tx_opened_at r, hr_opened_tx = tx_opened_tx r, hr_closed_at = tm, hr_closed_tx = ev_TxHash e \<rparr>]"
proof -
  let ?reason = "if 0 < tx_sl_price r \<and> (if tx_is_long r then c \<le> tx_sl_price r else tx_sl_price r \<le> c)
     then ''sl'' else ''tp''"
  obtain tm d' where a: "Store_Apply pg e (ev_EventIndex e) d = (None, d')"
    and t: "parseLedgerTime (pg_general_parse pg) (pg_now pg) (ev_OccurredAt e) = Inr tm"
    and "committed (pg_select_fails pg) e (ev_EventIndex e) tm d = Inr d'"
    using Store_Apply_accepts [OF assms(1), of d] by blast
  then have d': "d' = closeTradeUnknownReason False e tm (insert_audit e (ev_EventIndex e) tm d)"
    using assms(2,3,4) by (simp add: committed_def Let_def applyPM_def)
  have r: "close_reason (Some (tx_is_long r, tx_tp_price r, tx_sl_price r)) (Some c) = ?reason"
    using assms(8-11) by (auto simp: close_reason_def Let_def round_int_small)
  have "d' = closeTrade e ?reason tm (insert_audit e (ev_EventIndex e) tm d)"
    using assms(5,6,7) r by (auto simp: d' closeTradeUnknownReason_def trade_key_of_def Let_def)
  moreover have "\<not> (\<exists>x \<in> set (db_trade_history d). hr_key x = k \<and> hr_closed_tx x = ev_TxHash e)"
    using assms(12) by (auto simp: history_key_def image_iff)
  ultimately have b: "gm_get (db_trades d') = (gm_get (db_trades d))(k := None)"
    "db_trade_history d' = db_trade_history d @ [history_of k r e ?reason tm]"
    using assms(5,6) by (auto simp: closeTrade_def trade_key_of_def Let_def fun_eq_iff)
  have h: "history_of k r e ?reason tm =
      \<lparr> hr_key = k, hr_is_long = tx_is_long r, hr_leverage = tx_leverage r, hr_collateral = tx_collateral r,
         hr_open_price = tx_open_price r, hr_close_price = Some c,
         hr_acc_rollover_open = tx_acc_rollover_open r, hr_acc_funding_open = tx_acc_funding_open r,
         hr_tp_price = tx_tp_price r, hr_sl_price = tx_sl_price r,
         hr_realized_pnl = ev_NetPnl e, hr_open_fee = Some (tx_open_fee r), hr_close_fee = ev_CloseFee e,
         hr_close_reason = ?reason,
         hr_opened_at = tx_opened_at r, hr_opened_tx = tx_opened_tx r, hr_closed_at = tm, hr_closed_tx = ev_TxHash e \<rparr>"
    using assms(7) by (simp only: history_of_def numeric_bigStrOrNil)
  show ?thesis using a t b unfolding h by blast
qed

theorem tp_sl_close_booked_witness:
  "let k = TradeKey ''alice'' 1 2;
       r = opened_rec demo_db_opened (the (ev_Trade demo_db_opened)) 3;
       d = empty_db\<lparr>db_trades := gm_put k r gm_empty\<rparr>
   in \<exists>d'. Store_Apply demo_pg demo_db_closed 0 d = (None, d') \<and>
        map (\<lambda>h. (hr_key h, hr_close_reason h, hr_close_price h, hr_open_price h)) (db_trade_history d') =
          [(k, ''sl'', Some 940, 1000)]"
proof -
  let ?k = "TradeKey ''alice'' 1 2"
  let ?r = "opened_rec demo_db_opened (the (ev_Trade demo_db_opened)) 3"
  let ?d = "empty_db\<lparr>db_trades := gm_put ?k ?r gm_empty\<rparr>"
  have z: "ev_EventIndex demo_db_closed = 0" by (simp add: demo_db_defs)
  have g: "gm_get (db_trades ?d) ?k = Some ?r" by simp
  have r: "tx_sl_price ?r = 950" "tx_is_long ?r" "tx_open_price ?r = 1000"
    by (simp_all add: opened_rec_def demo_db_defs Let_def)
  note booked = tp_sl_close_booked [OF demo_accepted(2,4) _ _ _ g, where c = 940]
  obtain d' tm where "Store_Apply demo_pg demo_db_closed (ev_EventIndex demo_db_closed) ?d = (None, d')"
    and h: "db_trade_history d' = db_trade_history ?d @
      [\<lparr> hr_key = ?k, hr_is_long = tx_is_long ?r, hr_leverage = tx_leverage ?r, hr_collateral = tx_collateral ?r,
         hr_open_price = tx_open_price ?r, hr_close_price = Some 940,
         hr_acc_rollover_open = tx_acc_rollover_open ?r, hr_acc_funding_open = tx_acc_funding_open ?r,
         hr_tp_price = tx_tp_price ?r, hr_sl_price = tx_sl_price ?r,
         hr_realized_pnl = ev_NetPnl demo_db_closed, hr_open_fee = Some (tx_open_fee ?r), hr_close_fee = ev_CloseFee demo_db_closed,
         hr_close_reason = (if 0 < tx_sl_price ?r \<and> (if tx_is_long ?r then 940 \<le> tx_sl_price ?r else tx_sl_price ?r \<le> 940)
           then ''sl'' else ''tp''),
         hr_opened_at = tx_opened_at ?r, hr_opened_tx = tx_opened_tx ?r, hr_closed_at = tm, hr_closed_tx = ev_TxHash demo_db_closed \<rparr>]"
    using booked by (auto simp: r) (auto simp: demo_db_defs trade_key_of_def empty_db_def)
  then show ?thesis unfolding Let_def z by (auto simp: r empty_db_def)
qed

text \<open>
  Beyond 2^53 the column is rounded when it is scanned: a long position stopped out exactly at
  its stop-loss of 2^53 + 1 is booked as a take-profit.
\<close>

lemma close_reason_rounding:
  "close_reason (Some (True, 0, 2 ^ 53 + 1)) (Some (2 ^ 53 + 1)) = ''tp''"
proof -
  have "floorlog 2 (2 ^ 53 + 1 :: nat) = 54"
    using floorlog_leI [of "2 ^ 53 + 1" 2 54] floorlog_geI [of 2 54 "2 ^ 53 + 1"] by simp
  then have "round_int 53 (2 ^ 53 + 1) = 2 ^ 53"
    by (simp add: round_int_def round_nat_def Let_def)
  moreover have "round_int 64 (2 ^ 53 + 1) = 2 ^ 53 + 1" by (rule round_int_small) simp_all
  ultimately show ?thesis by (simp add: close_reason_def Let_def)
qed

text \<open>
  The history of limit orders has no unique index: placing and executing an order, delivered
  a second time as a whole, leaves two history rows.
\<close>

lemma limit_history_duplicates:
  assumes "ev_LimitIndex p = Some i" "ev_LimitIndex x = Some i" "ev_Trader x = ev_Trader p"
    and "k = LimitKey (ev_Trader p) (uint (lo_PairIndex l)) (sint i)"
    and "limit_key_of x = Some k"
  shows "length (db_limit_order_history
    (resolveLimit x ''executed'' t4 (upsert_limit k (placed_rec p l t3)
      (resolveLimit x ''executed'' t2 (upsert_limit k (placed_rec p l t1) d))))) =
    length (db_limit_order_history d) + 2"
  using assms
  by (auto simp: resolveLimit_def upsert_limit_def limit_key_of_def Let_def split: option.splits)

end
