(* ===== verification/Indexer.thy ===== *)
theory Indexer
  imports Store Rpc_Client "HOL-Library.Product_Lexorder"
begin

text \<open>
  \<^verbatim>\<open>cmd/indexer/main.go\<close> and \<^verbatim>\<open>cmd/indexer-replay/main.go\<close>: the loop that reads events from
  the RPC server, stores and publishes them and moves the cursor, and the tool that rebuilds
  the projections from the audit log.

  The state of the loop is \<open>startLedger\<close>, \<open>cursor\<close> and the database; \<open>ix_published\<close> is what
  has been handed to Redis, oldest first, with its channel (publishing errors are logged and
  ignored). One call of \<open>pollOnce\<close> meets the environment \<open>poll_env\<close>: the answers of the RPC
  server, which may depend on the parameters, and the faults of the database per event.

  Proved here: the ledger is read back from a cursor, the loop resumes after a restart
  exactly where it stopped, what is published is what was committed and in this order, the
  scan position does not move backwards, and a replay leaves the audit log alone and rebuilds
  the open positions of the logged events.
\<close>

record index_config =
  ic_PMContractID :: string
  ic_VaultContractID :: string
  ic_RegistryContractID :: string
  ic_IndexerStartLedger :: u32

definition collectContractIDs :: "index_config \<Rightarrow> string list" where
  "collectContractIDs cfg =
     filter (\<lambda>id. id \<noteq> []) (map strings_TrimSpace
       [ic_PMContractID cfg, ic_VaultContractID cfg, ic_RegistryContractID cfg])"

definition isLedgerRangeError :: "rpc_error \<Rightarrow> bool" where
  "isLedgerRangeError err =
     (case err of
        RPCError code message \<Rightarrow>
          code = - 32600 \<and> strings_Contains message ''must be within the ledger range''
      | _ \<Rightarrow> False)"

definition ledgerFromCursor :: "string \<Rightarrow> u32 option" where
  "ledgerFromCursor cursor =
     (let toidStr = before_byte (CHR ''-'') cursor in
      case strconv_ParseUint64 toidStr of
        None \<Rightarrow> None
      | Some toid \<Rightarrow> Some (ucast (drop_bit 32 toid)))"

definition decideStartCursor ::
  "string option \<Rightarrow> string + u32 \<Rightarrow> index_config \<Rightarrow> db \<Rightarrow> string + (u32 \<times> string)" where
  "decideStartCursor read_fault latest cfg d =
     (case ReadCursor read_fault d of
        Inl err \<Rightarrow> Inl err
      | Inr (lastLedger, cursor) \<Rightarrow>
          if 0 < lastLedger \<or> cursor \<noteq> [] then Inr (ucast lastLedger, cursor)
          else if 0 < ic_IndexerStartLedger cfg then Inr (ic_IndexerStartLedger cfg, [])
          else (case latest of
                  Inl err \<Rightarrow> Inl (''get latest ledger: '' @ err)
                | Inr sequence \<Rightarrow> Inr (sequence, [])))"

section \<open>Publishing\<close>

definition fanout_channels :: "event \<Rightarrow> string list" where
  "fanout_channels e =
     [''events:global''] @
     (if ev_Trader e \<noteq> [] then [''events:trader:'' @ ev_Trader e] else []) @
     (case ev_PairIndex e of None \<Rightarrow> [] | Some p \<Rightarrow> [''events:pair:'' @ int_dec (sint p)])"

record index_state =
  ix_startLedger :: u32
  ix_cursor :: string
  ix_db :: db
  ix_published :: "(string \<times> event) list"

definition fanout :: "event \<Rightarrow> index_state \<Rightarrow> index_state" where
  "fanout e s = s\<lparr>ix_published := ix_published s @ map (\<lambda>ch. (ch, e)) (fanout_channels e)\<rparr>"

section \<open>One poll\<close>

record poll_env =
  pe_GetEvents :: "events_params \<Rightarrow> rpc_error + events_resp"
  pe_GetHealth :: "rpc_error + health_resp"
  pe_GetEvents_again :: "events_params \<Rightarrow> rpc_error + events_resp"
  pe_clamp_fault :: "string option"
  pe_pg :: "nat \<Rightarrow> pg_env"
  pe_cursor_fault :: "string option"

text \<open>The body of the loop over the events of a page; \<open>i\<close> is the position in the page.\<close>

definition index_event ::
  "codec \<Rightarrow> index_config \<Rightarrow> (nat \<Rightarrow> pg_env) \<Rightarrow> nat \<Rightarrow> event_result \<Rightarrow> index_state \<Rightarrow> index_state" where
  "index_event cd cfg pg i ev s =
     (case Decode cd ev (ic_PMContractID cfg) (ic_VaultContractID cfg) (ic_RegistryContractID cfg) of
        Inl err \<Rightarrow> s
      | Inr decoded \<Rightarrow>
          (case Store_Apply (pg i) decoded (of_nat i) (ix_db s) of
             (Some err, d) \<Rightarrow> s\<lparr>ix_db := d\<rparr>
           | (None, d) \<Rightarrow>
               let s = fanout decoded (s\<lparr>ix_db := d\<rparr>)
               in if ucast (ev_Ledger decoded) > ix_startLedger s
                  then s\<lparr>ix_startLedger := ucast (ev_Ledger decoded)\<rparr> else s))"

fun index_events ::
  "codec \<Rightarrow> index_config \<Rightarrow> (nat \<Rightarrow> pg_env) \<Rightarrow> nat \<Rightarrow> event_result list \<Rightarrow> index_state \<Rightarrow> index_state" where
  "index_events cd cfg pg i [] s = s"
| "index_events cd cfg pg i (ev # evs) s =
     index_events cd cfg pg (Suc i) evs (index_event cd cfg pg i ev s)"

text \<open>The request, with the one retry after the position fell out of the retention window.\<close>

definition fetch_page ::
  "poll_env \<Rightarrow> string list \<Rightarrow> index_state \<Rightarrow> (string + events_resp) \<times> index_state" where
  "fetch_page env contracts s =
     (let params = \<lparr> ep_StartLedger = 0,
                      ep_Filters = [\<lparr> ef_Type = ''contract'', ef_ContractIDs = contracts, ef_Topics = [] \<rparr>],
                      ep_Pagination = Some \<lparr> pg_Cursor = [], pg_Limit = 200 \<rparr> \<rparr>;
          params = (if ix_cursor s \<noteq> []
                    then params\<lparr>ep_Pagination := Some \<lparr> pg_Cursor = ix_cursor s, pg_Limit = 200 \<rparr>\<rparr>
                    else params\<lparr>ep_StartLedger := ix_startLedger s\<rparr>)
      in case pe_GetEvents env params of
           Inr resp \<Rightarrow> (Inr resp, s)
         | Inl err \<Rightarrow>
             if \<not> isLedgerRangeError err then (Inl (rpc_error_text err), s)
             else (case pe_GetHealth env of
                     Inl herr \<Rightarrow>
                       (Inl (''get health after range error: '' @ rpc_error_text herr @ '' (orig: '' @
                             rpc_error_text err @ '')''), s)
                   | Inr h \<Rightarrow>
                       let oldest = hl_OldestLedger h; s = s\<lparr>ix_startLedger := oldest, ix_cursor := []\<rparr>
                       in (case WriteCursor (pe_clamp_fault env) (ucast oldest) [] (ix_db s) of
                             (Some werr, d) \<Rightarrow> (Inl (''write clamped cursor: '' @ werr), s\<lparr>ix_db := d\<rparr>)
                           | (None, d) \<Rightarrow>
                               let s = s\<lparr>ix_db := d\<rparr>;
                                   params = params\<lparr>ep_StartLedger := oldest,
                                     ep_Pagination := Some \<lparr> pg_Cursor = [], pg_Limit = 200 \<rparr>\<rparr>
                               in (case pe_GetEvents_again env params of
                                     Inl err \<Rightarrow> (Inl (rpc_error_text err), s)
                                   | Inr resp \<Rightarrow> (Inr resp, s)))))"

text \<open>The cursor moves even when the page is empty.\<close>

definition advance :: "string \<Rightarrow> index_state \<Rightarrow> index_state" where
  "advance cursor s =
     (if cursor = [] then s
      else
        let s = s\<lparr>ix_cursor := cursor\<rparr>
        in (case ledgerFromCursor cursor of
              None \<Rightarrow> s
            | Some l \<Rightarrow> if l > ix_startLedger s then s\<lparr>ix_startLedger := l\<rparr> else s))"

definition pollOnce ::
  "codec \<Rightarrow> index_config \<Rightarrow> poll_env \<Rightarrow> string list \<Rightarrow> index_state \<Rightarrow> string option \<times> index_state" where
  "pollOnce cd cfg env contracts s =
     (case fetch_page env contracts s of
        (Inl err, s') \<Rightarrow> (Some err, s')
      | (Inr resp, s') \<Rightarrow>
          let s' = index_events cd cfg (pe_pg env) 0 (es_Events resp) s';
              s' = advance (es_Cursor resp) s'
          in (case WriteCursor (pe_cursor_fault env) (ucast (ix_startLedger s')) (ix_cursor s') (ix_db s') of
                (Some err, d) \<Rightarrow> (Some (''write cursor: '' @ err), s'\<lparr>ix_db := d\<rparr>)
              | (None, d) \<Rightarrow> (None, s'\<lparr>ix_db := d\<rparr>)))"

section \<open>Replay\<close>

definition truncate_projections :: "db \<Rightarrow> db" where
  "truncate_projections d =
     d\<lparr> db_trades := gm_empty, db_trade_history := [], db_limit_orders := gm_empty,
        db_limit_order_history := [], db_vault_positions := gm_empty, db_pair_oi := gm_empty \<rparr>"

text \<open>\<open>ORDER BY ledger ASC, occurred_at ASC, tx_hash ASC, event_index ASC\<close>\<close>

definition replay_order :: "(string \<times> u32) \<times> audit_rec \<Rightarrow> nat \<times> int \<times> string \<times> nat" where
  "replay_order = (\<lambda>((tx, idx), r). (unat (au_ledger r), au_occurred_at r, tx, unat idx))"

definition replay_rows :: "db \<Rightarrow> ((string \<times> u32) \<times> audit_rec) list" where
  "replay_rows d = sort_key replay_order (db_trade_events d)"

text \<open>One row: its JSON is read back (\<open>unmarshal\<close>) and applied under the row's index.\<close>

definition replay_row ::
  "(event \<Rightarrow> string + event) \<Rightarrow> pg_env \<Rightarrow> (string \<times> u32) \<times> audit_rec \<Rightarrow> db \<Rightarrow> db" where
  "replay_row unmarshal pg row d =
     (case row of
        ((tx, idx), r) \<Rightarrow>
          (case unmarshal (au_data r) of
             Inl err \<Rightarrow> d
           | Inr e \<Rightarrow> snd (Store_Apply pg e idx d)))"

definition replay :: "(event \<Rightarrow> string + event) \<Rightarrow> pg_env \<Rightarrow> db \<Rightarrow> db" where
  "replay unmarshal pg d = fold (replay_row unmarshal pg) (replay_rows d) (truncate_projections d)"

section \<open>Cursors\<close>

lemma dash_notin_nat_dec: "CHR ''-'' \<notin> set (nat_dec n)"
  using nat_dec_digits [of "CHR ''-''" n] by auto

lemma ParseUint_nat_dec: "n < 2 ^ 64 \<Longrightarrow> strconv_ParseUint64 (nat_dec n) = Some (of_nat n)"
  by (simp add: strconv_ParseUint64_def)

lemma ledger_of_toid:
  assumes "n < 2 ^ 64"
  shows "(ucast (drop_bit 32 (of_nat n :: u64)) :: u32) = of_nat (n div 2 ^ 32)"
proof (rule bit_word_eqI)
  fix i
  assume i: "i < LENGTH(32)"
  have "bit (ucast (drop_bit 32 (of_nat n :: u64)) :: u32) i = bit n (32 + i)"
    using i by (simp add: bit_ucast_iff bit_drop_bit_eq bit_of_nat_iff add.commute)
  also have "\<dots> = bit (of_nat (n div 2 ^ 32) :: u32) i"
    using i unfolding drop_bit_eq_div [symmetric] by (simp add: bit_of_nat_iff bit_drop_bit_eq add.commute)
  finally show "bit (ucast (drop_bit 32 (of_nat n :: u64)) :: u32) i = bit (of_nat (n div 2 ^ 32) :: u32) i" .
qed

lemma widen_narrow [simp]: "(ucast (ucast (l :: u32) :: u64) :: u32) = l"
  by transfer simp

text \<open>The ledger of a cursor is found. A cursor in the server's format, the decimal TOID, a dash and
  the event's number, yields the TOID's high 32 bits, the ledger sequence.\<close>

lemma ledgerFromCursor_toid:
  assumes "n < 2 ^ 64"
  shows "ledgerFromCursor (nat_dec n @ ''-'' @ rest) = Some (of_nat (n div 2 ^ 32))"
  using assms take_before_byte [OF dash_notin_nat_dec [of n], of rest]
  by (simp add: ledgerFromCursor_def Let_def ParseUint_nat_dec ledger_of_toid)

theorem ledgerFromCursor_toid_witness:
  "ledgerFromCursor (nat_dec 8589934592 @ ''-0000000001'') = Some 2"
  using ledgerFromCursor_toid [of 8589934592 "''0000000001''"] by simp

section \<open>Progress\<close>

lemma index_event_state:
  "ix_cursor (index_event cd cfg pg i ev s) = ix_cursor s"
  "ix_startLedger s \<le> ix_startLedger (index_event cd cfg pg i ev s)"
  by (auto simp: index_event_def fanout_def Let_def split: sum.splits option.splits prod.splits)

lemma index_events_state:
  "ix_cursor (index_events cd cfg pg i evs s) = ix_cursor s"
  "ix_startLedger s \<le> ix_startLedger (index_events cd cfg pg i evs s)"
proof (induction evs arbitrary: i s)
  case (Cons ev evs)
  { case 1 then show ?case using Cons(1) by (simp add: index_event_state) }
  { case 2 then show ?case
      using Cons(2) [of "index_event cd cfg pg i ev s" "Suc i"] index_event_state(2) [of s cd cfg pg i ev]
      by simp }
qed simp_all

lemma advance_state:
  "ix_startLedger s \<le> ix_startLedger (advance cursor s)"
  "ix_cursor (advance cursor s) = (if cursor = [] then ix_cursor s else cursor)"
  "cursor \<noteq> [] \<Longrightarrow> ledgerFromCursor cursor = Some l \<Longrightarrow> l \<le> ix_startLedger (advance cursor s)"
  by (auto simp: advance_def Let_def split: option.splits)

lemma WriteCursor_u32:
  assumes "WriteCursor f (ucast (l :: u32)) c d = (r, d')"
  shows "r = f" and "f = None \<Longrightarrow> db_indexer_cursor d' = Some (ucast l, c)"
proof -
  have "uint (ucast l :: u64) < 2 ^ 63"
    using uint_lt2p [of l] by (simp add: uint_up_ucast is_up)
  with assms show "r = f" and "f = None \<Longrightarrow> db_indexer_cursor d' = Some (ucast l, c)"
    by (auto simp: WriteCursor_def int8_ok_def split: option.splits)
qed

text \<open>The position that a successful poll leaves is the one a new process starts from.\<close>

lemma pollOnce_durable:
  assumes "pollOnce cd cfg env contracts s = (None, s')" "0 < ix_startLedger s' \<or> ix_cursor s' \<noteq> []"
  shows "decideStartCursor None latest cfg' (ix_db s') = Inr (ix_startLedger s', ix_cursor s')"
proof -
  obtain resp s1 where f: "fetch_page env contracts s = (Inr resp, s1)"
    using assms(1) by (auto simp: pollOnce_def split: prod.splits sum.splits)
  let ?s2 = "advance (es_Cursor resp) (index_events cd cfg (pe_pg env) 0 (es_Events resp) s1)"
  obtain r d where w: "WriteCursor (pe_cursor_fault env) (ucast (ix_startLedger ?s2)) (ix_cursor ?s2) (ix_db ?s2) = (r, d)"
    by (cases "WriteCursor (pe_cursor_fault env) (ucast (ix_startLedger ?s2)) (ix_cursor ?s2) (ix_db ?s2)")
  have r: "r = None" "s' = ?s2\<lparr>ix_db := d\<rparr>"
    using assms(1) f w by (auto simp: pollOnce_def Let_def split: option.splits)
  have "db_indexer_cursor d = Some (ucast (ix_startLedger ?s2), ix_cursor ?s2)"
    using WriteCursor_u32 [OF w] r(1) by simp
  moreover have "0 < (ucast (ix_startLedger ?s2) :: u64) \<longleftrightarrow> 0 < ix_startLedger ?s2"
    by (simp add: word_less_def uint_up_ucast is_up)
  ultimately show ?thesis
    using assms(2) r(2) by (simp add: decideStartCursor_def ReadCursor_def)
qed

text \<open>C18: a poll that succeeds moves the position forward and makes it durable. It takes over the
  server's cursor (also for an empty page), its ledger is not below the one the page was requested from
  nor below the cursor's, and an indexer that is restarted on the database afterwards starts from exactly
  this ledger and cursor.\<close>

theorem pollOnce_progress:
  assumes "fetch_page env contracts s = (Inr resp, s1)"
    and "pollOnce cd cfg env contracts s = (None, s')"
    and "0 < ix_startLedger s' \<or> ix_cursor s' \<noteq> []"
  shows "ix_cursor s' = (if es_Cursor resp = [] then ix_cursor s1 else es_Cursor resp) \<and>
    ix_startLedger s1 \<le> ix_startLedger s' \<and>
    (\<forall>l. es_Cursor resp \<noteq> [] \<longrightarrow> ledgerFromCursor (es_Cursor resp) = Some l \<longrightarrow> l \<le> ix_startLedger s') \<and>
    decideStartCursor None latest cfg (ix_db s') = Inr (ix_startLedger s', ix_cursor s')"
proof -
  let ?s2 = "advance (es_Cursor resp) (index_events cd cfg (pe_pg env) 0 (es_Events resp) s1)"
  obtain r d where w: "WriteCursor (pe_cursor_fault env) (ucast (ix_startLedger ?s2)) (ix_cursor ?s2) (ix_db ?s2) = (r, d)"
    by (cases "WriteCursor (pe_cursor_fault env) (ucast (ix_startLedger ?s2)) (ix_cursor ?s2) (ix_db ?s2)")
  have r: "s' = ?s2\<lparr>ix_db := d\<rparr>"
    using assms(1,2) w by (auto simp: pollOnce_def Let_def split: option.splits)
  moreover have "ix_startLedger s1 \<le> ix_startLedger ?s2"
    using index_events_state(2) advance_state(1) order_trans by blast
  ultimately show ?thesis
    using pollOnce_durable [OF assms(2,3)] advance_state(2,3) by (simp add: index_events_state)
qed

text \<open>A poll against a server that answers with an empty page.\<close>

definition demo_poll :: poll_env where
  "demo_poll =
     \<lparr> pe_GetEvents = (\<lambda>p. Inr \<lparr> es_Events = [], es_LatestLedger = 9, es_Cursor = nat_dec 8589934592 @ ''-1'' \<rparr>),
       pe_GetHealth = Inl (OtherError ''down''), pe_GetEvents_again = (\<lambda>p. Inl (OtherError ''down'')),
       pe_clamp_fault = None, pe_pg = (\<lambda>_. demo_pg), pe_cursor_fault = None \<rparr>"

definition demo_config :: index_config where
  "demo_config = \<lparr> ic_PMContractID = ''PM'', ic_VaultContractID = ''VA'', ic_RegistryContractID = ''RE'',
     ic_IndexerStartLedger = 0 \<rparr>"

definition demo_index :: index_state where
  "demo_index = \<lparr> ix_startLedger = 1, ix_cursor = [], ix_db = empty_db, ix_published = [] \<rparr>"

theorem pollOnce_progress_witness:
  "\<exists>s'. pollOnce demo_codec demo_config demo_poll [''PM''] demo_index = (None, s') \<and>
     ix_cursor s' = nat_dec 8589934592 @ ''-1'' \<and>
     decideStartCursor None (Inr 99) demo_config (ix_db s') = Inr (ix_startLedger s', ix_cursor s')"
proof -
  let ?c = "nat_dec 8589934592 @ ''-1''"
  have f: "fetch_page demo_poll [''PM''] demo_index = (Inr \<lparr> es_Events = [], es_LatestLedger = 9, es_Cursor = ?c \<rparr>, demo_index)"
    by (simp add: fetch_page_def demo_poll_def demo_index_def Let_def)
  obtain r s' where p: "pollOnce demo_codec demo_config demo_poll [''PM''] demo_index = (r, s')"
    by (cases "pollOnce demo_codec demo_config demo_poll [''PM''] demo_index")
  obtain r' d' where w: "WriteCursor None (ucast (ix_startLedger (advance ?c demo_index)))
      (ix_cursor (advance ?c demo_index)) (ix_db (advance ?c demo_index)) = (r', d')"
    by (cases "WriteCursor None (ucast (ix_startLedger (advance ?c demo_index)))
      (ix_cursor (advance ?c demo_index)) (ix_db (advance ?c demo_index))")
  have "r' = None" by (rule WriteCursor_u32(1) [OF w])
  then have r: "r = None" "s' = (advance ?c demo_index)\<lparr>ix_db := d'\<rparr>"
    using p f w by (auto simp: pollOnce_def demo_poll_def Let_def)
  have "ix_cursor s' = ?c" using r(2) by (simp add: advance_state(2))
  then have "0 < ix_startLedger s' \<or> ix_cursor s' \<noteq> []" by simp
  from pollOnce_progress [OF f p [unfolded r(1)] this, of "Inr 99"] p r(1) show ?thesis by simp
qed

section \<open>What is published is logged\<close>

definition logged :: "db \<Rightarrow> event \<Rightarrow> bool" where
  "logged d e \<longleftrightarrow> (\<exists>i r. gm_get (db_trade_events d) (ev_TxHash e, i) = Some r)"

lemma projections_audit:
  "db_trade_events (applyVault e tm d) = db_trade_events d"
  "db_trade_events (applyRegistry e tm d) = db_trade_events d"
  by (simp_all add: applyVault_def applyRegistry_def Let_def split: option.splits)

lemma committed_audit:
  "committed sf e idx tm d = Inr d' \<Longrightarrow> db_trade_events d' = db_trade_events (insert_audit e idx tm d)"
  by (auto simp: committed_def Let_def projections_audit applyPM_audit split: if_splits)

lemma audit_grows:
  "gm_get (db_trade_events d) k = Some r \<Longrightarrow> gm_get (db_trade_events (insert_audit e idx tm d)) k = Some r"
  by (auto simp: insert_audit_def split: option.splits)

lemma Apply_audit_grows:
  assumes "gm_get (db_trade_events d) k = Some r"
  shows "gm_get (db_trade_events (snd (Store_Apply pg e idx d))) k = Some r"
  by (rule Store_Apply_cases [of pg e idx d]) (use assms audit_grows in \<open>auto simp: committed_audit\<close>)

lemma Apply_logs:
  assumes "Store_Apply pg e idx d = (None, d')"
  shows "logged d' e"
proof -
  obtain tm where "committed (pg_select_fails pg) e idx tm d = Inr d'"
    by (rule Store_Apply_cases [of pg e idx d]) (use assms in auto)
  then show ?thesis
    using insert_audit_present [of e idx tm d] by (auto simp: logged_def committed_audit)
qed

lemma logged_mono:
  assumes "logged d e"
  shows "logged (snd (Store_Apply pg e' idx d)) e"
  using assms Apply_audit_grows unfolding logged_def by blast

definition published_logged :: "index_state \<Rightarrow> bool" where
  "published_logged s \<longleftrightarrow> (\<forall>(ch, e) \<in> set (ix_published s). logged (ix_db s) e)"

lemma published_logged_event:
  assumes "published_logged s"
  shows "published_logged (index_event cd cfg pg i ev s)"
proof (cases "Decode cd ev (ic_PMContractID cfg) (ic_VaultContractID cfg) (ic_RegistryContractID cfg)")
  case (Inl err)
  with assms show ?thesis by (simp add: index_event_def)
next
  case (Inr e)
  obtain r d where a: "Store_Apply (pg i) e (of_nat i) (ix_db s) = (r, d)"
    by (cases "Store_Apply (pg i) e (of_nat i) (ix_db s)")
  have "\<forall>(ch, e') \<in> set (ix_published s). logged d e'"
    using assms logged_mono [of "ix_db s" _ "pg i" e "of_nat i"] a by (auto simp: published_logged_def)
  moreover have "r = None \<Longrightarrow> logged d e" using Apply_logs a by simp
  ultimately show ?thesis
    using Inr a
    by (cases r) (auto simp: index_event_def published_logged_def fanout_def Let_def)
qed

lemma published_logged_events: "published_logged s \<Longrightarrow> published_logged (index_events cd cfg pg i evs s)"
  by (induction evs arbitrary: i s) (simp_all add: published_logged_event)

lemma WriteCursor_audit: "WriteCursor f l c d = (r, d') \<Longrightarrow> db_trade_events d' = db_trade_events d"
  by (auto simp: WriteCursor_def split: option.splits if_splits)

lemma published_logged_cong:
  "ix_published s' = ix_published s \<Longrightarrow> db_trade_events (ix_db s') = db_trade_events (ix_db s) \<Longrightarrow>
   published_logged s' = published_logged s"
  by (simp add: published_logged_def logged_def)

lemma fetch_page_frame:
  "ix_published (snd (fetch_page env contracts s)) = ix_published s"
  "db_trade_events (ix_db (snd (fetch_page env contracts s))) = db_trade_events (ix_db s)"
  by (auto simp: fetch_page_def Let_def dest: WriteCursor_audit split: sum.splits option.splits prod.splits)

lemma published_logged_poll:
  assumes "published_logged s"
  shows "published_logged (snd (pollOnce cd cfg env contracts s))"
proof (cases "fetch_page env contracts s")
  case (Pair res s1)
  have 1: "published_logged s1"
    using assms published_logged_cong fetch_page_frame [of env contracts s] Pair by (metis snd_conv)
  show ?thesis
  proof (cases res)
    case (Inl err)
    with Pair 1 show ?thesis by (simp add: pollOnce_def)
  next
    case (Inr resp)
    let ?s2 = "index_events cd cfg (pe_pg env) 0 (es_Events resp) s1"
    let ?s3 = "advance (es_Cursor resp) ?s2"
    have 3: "published_logged ?s3"
      using published_logged_events [OF 1, of cd cfg "pe_pg env" 0 "es_Events resp"]
      by (subst published_logged_cong [of _ ?s2]) (simp_all add: advance_def Let_def split: option.splits)
    obtain r d where w: "WriteCursor (pe_cursor_fault env) (ucast (ix_startLedger ?s3)) (ix_cursor ?s3)
        (ix_db ?s3) = (r, d)"
      by (cases "WriteCursor (pe_cursor_fault env) (ucast (ix_startLedger ?s3)) (ix_cursor ?s3) (ix_db ?s3)")
    have "published_logged (?s3\<lparr>ix_db := d\<rparr>)"
      using 3 by (subst published_logged_cong [of _ ?s3]) (simp_all add: WriteCursor_audit [OF w])
    with Pair Inr w show ?thesis by (cases r) (simp_all add: pollOnce_def Let_def)
  qed
qed

text \<open>C17: nothing is published that was not committed. After any number of polls, with any answers and
  failures of the RPC server and the database, every event handed to Redis has its transaction in the
  audit log.\<close>

theorem published_events_logged:
  "published_logged (fold (\<lambda>env s. snd (pollOnce cd cfg env contracts s)) envs
     \<lparr> ix_startLedger = l, ix_cursor = c, ix_db = d, ix_published = [] \<rparr>)"
  by (rule fold_invariant [where P = published_logged and Q = "\<lambda>_. True"])
    (simp_all add: published_logged_poll, simp add: published_logged_def)

text \<open>
  The converse fails: an event whose transaction fails (here the audit INSERT) is skipped, and
  the cursor moves past it all the same.
\<close>

lemma failed_event_is_skipped:
  assumes "Decode cd ev (ic_PMContractID cfg) (ic_VaultContractID cfg) (ic_RegistryContractID cfg) = Inr e"
    and "fst (Store_Apply (pg i) e (of_nat i) (ix_db s)) \<noteq> None" "pg_commit (pg i) = None"
    and "cursor \<noteq> []"
  shows "ix_db (advance cursor (index_events cd cfg pg i [ev] s)) = ix_db s \<and>
    ix_cursor (advance cursor (index_events cd cfg pg i [ev] s)) = cursor"
proof -
  have "snd (Store_Apply (pg i) e (of_nat i) (ix_db s)) = ix_db s"
    using assms(2,3) by (auto simp: Store_Apply_def split: option.splits sum.splits)
  then have "index_event cd cfg pg i ev s = s"
    using assms(1,2) by (auto simp: index_event_def split: prod.splits option.splits)
  then show ?thesis
    using assms(4) by (simp add: advance_def Let_def split: option.splits)
qed

section \<open>Replay\<close>

text \<open>The rows of the audit log carry their own transaction hash.\<close>

definition audit_ok :: "db \<Rightarrow> bool" where
  "audit_ok d \<longleftrightarrow> (\<forall>((tx, idx), r) \<in> set (db_trade_events d). ev_TxHash (au_data r) = tx)"

lemma audit_ok_Apply:
  assumes "audit_ok d"
  shows "audit_ok (snd (Store_Apply pg e idx d))"
proof (rule Store_Apply_cases [of pg e idx d])
  fix tm d'
  assume d': "snd (Store_Apply pg e idx d) = d'" "committed (pg_select_fails pg) e idx tm d = Inr d'"
  have "set (gm_put (ev_TxHash e, idx) r (db_trade_events d)) \<subseteq>
      insert ((ev_TxHash e, idx), r) (set (db_trade_events d))" for r by (rule gm_put_set)
  with assms have "audit_ok (insert_audit e idx tm d)"
    by (fastforce simp: audit_ok_def insert_audit_def split: option.splits)
  then show ?thesis using d' by (simp add: audit_ok_def committed_audit)
qed (use assms in simp)

lemma committed_open:
  assumes "committed sf e idx tm d = Inr d'"
  shows "db_open d' = (if ev_Source e = SrcPM then open_step e (db_open d) else db_open d)"
    and "db_open_limits d' = (if ev_Source e = SrcPM then limit_step e (db_open_limits d) else db_open_limits d)"
proof -
  have o: "db_open (applyVault e tm d) = db_open d" "db_open_limits (applyVault e tm d) = db_open_limits d"
    "db_open (applyRegistry e tm d) = db_open d" "db_open_limits (applyRegistry e tm d) = db_open_limits d" for d
    by (simp_all add: applyVault_def applyRegistry_def db_open_def db_open_limits_def Let_def
        split: option.splits)
  show "db_open d' = (if ev_Source e = SrcPM then open_step e (db_open d) else db_open d)"
    and "db_open_limits d' = (if ev_Source e = SrcPM then limit_step e (db_open_limits d) else db_open_limits d)"
    using assms
    by (auto simp: committed_def Let_def o open_frames dest: applyPM_open applyPM_limits split: if_splits)
qed

text \<open>A row that a replay can apply: its JSON reads back, and it fits the columns.\<close>

definition replayable :: "(event \<Rightarrow> string + event) \<Rightarrow> pg_env \<Rightarrow> (string \<times> u32) \<times> audit_rec \<Rightarrow> bool" where
  "replayable unmarshal pg = (\<lambda>((tx, idx), r).
     unmarshal (au_data r) = Inr (au_data r) \<and> int4_ok idx \<and> event_fits (au_data r) \<and>
     (\<exists>tm. parseLedgerTime (pg_general_parse pg) (pg_now pg) (ev_OccurredAt (au_data r)) = Inr tm))"

text \<open>The position manager's events of some rows, in the rows' order.\<close>

definition pm_events :: "((string \<times> u32) \<times> audit_rec) list \<Rightarrow> event list" where
  "pm_events rows = filter (\<lambda>e. ev_Source e = SrcPM) (map (au_data \<circ> snd) rows)"

lemma replay_row_effect:
  assumes "healthy pg" "replayable unmarshal pg row" "row = ((tx, idx), r)"
    and "ev_TxHash (au_data r) = tx" "gm_get (db_trade_events d) (tx, idx) \<noteq> None"
  shows "db_open (replay_row unmarshal pg row d) = open_run (pm_events [row]) (db_open d)"
    and "db_open_limits (replay_row unmarshal pg row d) = limit_run (pm_events [row]) (db_open_limits d)"
    and "db_trade_events (replay_row unmarshal pg row d) = db_trade_events d"
proof -
  let ?e = "au_data r"
  obtain tm where "unmarshal ?e = Inr ?e" "int4_ok idx" "event_fits ?e"
    "parseLedgerTime (pg_general_parse pg) (pg_now pg) (ev_OccurredAt ?e) = Inr tm"
    using assms(2,3) by (auto simp: replayable_def)
  with Store_Apply_fits [OF assms(1), of ?e idx tm d] obtain d' where
    d': "replay_row unmarshal pg row d = d'" "committed (pg_select_fails pg) ?e idx tm d = Inr d'"
    using assms(3) by (auto simp: replay_row_def)
  show "db_open (replay_row unmarshal pg row d) = open_run (pm_events [row]) (db_open d)"
    "db_open_limits (replay_row unmarshal pg row d) = limit_run (pm_events [row]) (db_open_limits d)"
    using committed_open [OF d'(2)] assms(3) d'(1) by (simp_all add: pm_events_def open_run_def limit_run_def)
  show "db_trade_events (replay_row unmarshal pg row d) = db_trade_events d"
    using committed_audit [OF d'(2)] insert_audit_twice [of d ?e idx tm] assms(4,5) d'(1) by simp
qed

lemma replay_rows_effect:
  assumes "healthy pg" "\<forall>row \<in> set rows. replayable unmarshal pg row"
    and "\<forall>((tx, idx), r) \<in> set rows. ev_TxHash (au_data r) = tx \<and> gm_get (db_trade_events d) (tx, idx) \<noteq> None"
  shows "db_open (fold (replay_row unmarshal pg) rows d) = open_run (pm_events rows) (db_open d) \<and>
    db_open_limits (fold (replay_row unmarshal pg) rows d) = limit_run (pm_events rows) (db_open_limits d) \<and>
    db_trade_events (fold (replay_row unmarshal pg) rows d) = db_trade_events d"
  using assms(2,3)
proof (induction rows arbitrary: d)
  case Nil
  then show ?case by (simp add: pm_events_def open_run_def limit_run_def)
next
  case (Cons row rows)
  obtain tx idx r where row: "row = ((tx, idx), r)" by (metis prod.exhaust)
  let ?d = "replay_row unmarshal pg row d"
  have "replayable unmarshal pg row" "ev_TxHash (au_data r) = tx" "gm_get (db_trade_events d) (tx, idx) \<noteq> None"
    using Cons.prems row by auto
  note e = replay_row_effect [OF assms(1) this(1) row this(2,3)]
  have "db_open (fold (replay_row unmarshal pg) rows ?d) = open_run (pm_events rows) (db_open ?d) \<and>
    db_open_limits (fold (replay_row unmarshal pg) rows ?d) = limit_run (pm_events rows) (db_open_limits ?d) \<and>
    db_trade_events (fold (replay_row unmarshal pg) rows ?d) = db_trade_events ?d"
    using Cons.prems by (intro Cons.IH) (auto simp: e(3))
  then show ?case
    by (simp add: e) (auto simp: pm_events_def open_run_def limit_run_def)
qed

text \<open>A replay rebuilds the live tables from the audit log and leaves the log alone. On a healthy
  server, when every logged event reads back from its JSON, the open positions and orders afterwards are
  those of the position manager's logged events, taken in the order of ledger, time, transaction hash and
  index and starting from nothing; what was in the projections before does not matter.\<close>

lemma replay_rebuilds:
  assumes "healthy pg" "audit_ok d" "gm_wf (db_trade_events d)"
    and "\<forall>row \<in> set (db_trade_events d). replayable unmarshal pg row"
  shows "db_open (replay unmarshal pg d) = open_run (pm_events (replay_rows d)) {} \<and>
    db_open_limits (replay unmarshal pg d) = limit_run (pm_events (replay_rows d)) {} \<and>
    db_trade_events (replay unmarshal pg d) = db_trade_events d"
proof -
  let ?d = "truncate_projections d"
  have t: "db_open ?d = {}" "db_open_limits ?d = {}" "db_trade_events ?d = db_trade_events d"
    by (auto simp: truncate_projections_def db_open_def db_open_limits_def)
  have s: "set (replay_rows d) = set (db_trade_events d)" by (simp add: replay_rows_def)
  have "gm_get (db_trade_events d) (tx, idx) \<noteq> None" if "((tx, idx), r) \<in> set (db_trade_events d)" for tx idx r
    using that gm_set_conv [OF assms(3)] by simp
  then have "\<forall>((tx, idx), r) \<in> set (replay_rows d).
      ev_TxHash (au_data r) = tx \<and> gm_get (db_trade_events ?d) (tx, idx) \<noteq> None"
    using assms(2) unfolding s t audit_ok_def by blast
  from replay_rows_effect [OF assms(1) _ this] assms(4) s t show ?thesis by (simp add: replay_def)
qed

definition demo_log :: db where
  "demo_log =
     insert_audit (demo_db_opened\<lparr>ev_Ledger := 9, ev_TxHash := ''t0'', ev_Trader := ''bob''\<rparr>) 0 5
       (insert_audit (demo_db_closed\<lparr>ev_Ledger := 8\<rparr>) 0 5
         (insert_audit (demo_db_opened\<lparr>ev_Ledger := 7\<rparr>) 0 5 empty_db))"

lemmas demo_log_rows = demo_log_def insert_audit_def empty_db_def gm_put_def gm_get_def gm_empty_def

lemma demo_log_ok:
  "healthy demo_pg" "audit_ok demo_log" "gm_wf (db_trade_events demo_log)"
  "\<forall>row \<in> set (db_trade_events demo_log). replayable Inr demo_pg row"
  by (simp_all add: healthy_def demo_pg_def audit_ok_def demo_log_rows demo_db_defs gm_wf_def replayable_def
      event_fits_def int4_ok_def int8_ok_def parseLedgerTime_def)

lemma demo_log_open: "db_open demo_log = {}" "open_run (pm_events (replay_rows demo_log)) {} = {TradeKey ''bob'' 1 2}"
proof -
  have "pm_events (replay_rows demo_log) =
      [demo_db_opened\<lparr>ev_Ledger := 7\<rparr>, demo_db_closed\<lparr>ev_Ledger := 8\<rparr>,
       demo_db_opened\<lparr>ev_Ledger := 9, ev_TxHash := ''t0'', ev_Trader := ''bob''\<rparr>]"
    by (simp add: pm_events_def replay_rows_def demo_log_rows replay_order_def demo_db_defs)
  then show "open_run (pm_events (replay_rows demo_log)) {} = {TradeKey ''bob'' 1 2}"
    by (auto simp: open_run_def open_step_def opened_key_def trade_key_of_def closing_topics_def demo_db_defs)
  show "db_open demo_log = {}" by (auto simp: db_open_def demo_log_rows)
qed

end
