(* ===== verification/Trade_Cache.thy ===== *)
theory Trade_Cache
  imports Keeper_Math Positions
begin

text \<open>
  \<^verbatim>\<open>internal/wsgateway/cache.go\<close>: the WebSocket gateway's in-memory copy of the open trades and
  limit orders of every trader, and of the pair configurations. Amounts are decimal strings,
  as in the Go structs. The methods run under the cache's mutex and are functions on the
  record \<open>trade_cache\<close>; the callback \<open>onChange\<close> is the trader that \<open>applyEvent\<close> reports.
  A snapshot is the value handed to \<open>json.Marshal\<close>. A query is an error or the list of its rows,
  \<open>None\<close> for one that does not scan; a row carries its times as formatted strings.

  Proved here: the invariant of the cache, that it tracks the open positions and orders of
  the event stream, exactly when and for whom a change is notified, that redelivery is
  harmless, and that an event of one trader leaves the other traders' data alone.
\<close>

record cached_trade =
  ct_Trader :: string
  ct_PairIndex :: int
  ct_TradeIndex :: int
  ct_IsLong :: bool
  ct_Leverage :: int
  ct_Collateral :: string
  ct_OpenPrice :: string
  ct_AccRolloverOpen :: string
  ct_AccFundingOpen :: string
  ct_TpPrice :: string
  ct_SlPrice :: string
  ct_LiqPrice :: string
  ct_CurrentLiqPrice :: string
  ct_RolloverFee :: string
  ct_FundingFee :: string
  ct_OpenedAt :: string

record cached_pair =
  cp_PairIndex :: int
  cp_Symbol :: string
  cp_MinLeverage :: int
  cp_MaxLeverage :: int
  cp_LiqThresholdP :: int
  cp_Disabled :: bool

record cached_limit =
  cl_Trader :: string
  cl_PairIndex :: int
  cl_LimitIndex :: int
  cl_IsLong :: bool
  cl_Leverage :: int
  cl_Collateral :: string
  cl_LimitPrice :: string
  cl_TpPrice :: string
  cl_SlPrice :: string
  cl_PlacedAt :: string

record trade_cache =
  tc_trades :: "(string, cached_trade list) gmap"
  tc_limits :: "(string, cached_limit list) gmap"
  tc_pairs :: "(int, cached_pair) gmap"

definition NewTradeCache :: trade_cache where
  "NewTradeCache = \<lparr> tc_trades = gm_empty, tc_limits = gm_empty, tc_pairs = gm_empty \<rparr>"

text \<open>\<open>m[trader]\<close> on a map of slices: the nil slice when absent.\<close>

definition slice_of :: "(string, 'a list) gmap \<Rightarrow> string \<Rightarrow> 'a list" where
  "slice_of m u = (case gm_get m u of None \<Rightarrow> [] | Some l \<Rightarrow> l)"

section \<open>Fees and liquidation price of a trade\<close>

definition ensureDynamicDefaults :: "cached_trade \<Rightarrow> cached_trade" where
  "ensureDynamicDefaults t =
     (let t = (if ct_CurrentLiqPrice t = [] then t\<lparr>ct_CurrentLiqPrice := ct_LiqPrice t\<rparr> else t);
          t = (if ct_RolloverFee t = [] then t\<lparr>ct_RolloverFee := ''0''\<rparr> else t)
      in if ct_FundingFee t = [] then t\<lparr>ct_FundingFee := ''0''\<rparr> else t)"

definition parseBig :: "string \<Rightarrow> bigp" where
  "parseBig s = big_SetString10 s"

definition calculateTradeTimeFeesAndLiq ::
  "string \<Rightarrow> string \<Rightarrow> string \<Rightarrow> string \<Rightarrow> string \<Rightarrow> string \<Rightarrow> bool \<Rightarrow> u32 \<Rightarrow> u32 \<Rightarrow> bigp \<times> bigp \<times> bigp" where
  "calculateTradeTimeFeesAndLiq openPrice collateral accRolloverOpen accFundingOpen accRolloverNow
       accFundingNow isLong leverage liqThresholdP =
     (case (parseBig openPrice, parseBig collateral, parseBig accRolloverOpen,
            parseBig accFundingOpen, parseBig accRolloverNow, parseBig accFundingNow) of
        (Some op, Some collat, Some rollOpen, Some fundingOpen, Some rollNow, Some fundingNow) \<Rightarrow>
          (case RolloverFeeForTrade (Some rollOpen) (Some rollNow) (Some collat) of
             Inl _ \<Rightarrow> (None, None, None)
           | Inr rolloverFee \<Rightarrow>
          (case FundingFeeForTrade (Some fundingOpen) (Some fundingNow) (Some collat) leverage of
             Inl _ \<Rightarrow> (Some rolloverFee, None, None)
           | Inr fundingFee \<Rightarrow>
               let liqThresholdP = (if liqThresholdP = 0 then 90 else liqThresholdP) in
          (case LiquidationPrice (Some op) isLong (Some collat) leverage (Some rolloverFee)
                  (Some fundingFee) liqThresholdP of
             Inl _ \<Rightarrow> (Some rolloverFee, Some fundingFee, None)
           | Inr liq \<Rightarrow> (Some rolloverFee, Some fundingFee, Some liq))))
      | _ \<Rightarrow> (None, None, None))"

definition set_if :: "('a \<Rightarrow> 'b \<Rightarrow> 'b) \<Rightarrow> 'a option \<Rightarrow> 'b \<Rightarrow> 'b" where
  "set_if f x t = (case x of None \<Rightarrow> t | Some v \<Rightarrow> f v t)"

definition setDynamicTradeFees ::
  "u32 \<Rightarrow> string option \<Rightarrow> string option \<Rightarrow> string option \<Rightarrow> cached_trade \<Rightarrow> cached_trade" where
  "setDynamicTradeFees liqThresholdP accRolloverNow accFundingLongNow accFundingShortNow t0 =
     (let t = ensureDynamicDefaults t0 in
      case (accRolloverNow, accFundingLongNow, accFundingShortNow) of
        (Some roll, Some long, Some short) \<Rightarrow>
          let accFundingNow = (if ct_IsLong t then long else short);
              (rolloverFee, fundingFee, currentLiq) =
                calculateTradeTimeFeesAndLiq (ct_OpenPrice t) (ct_Collateral t) (ct_AccRolloverOpen t)
                  (ct_AccFundingOpen t) roll accFundingNow (ct_IsLong t) (word_of_int (ct_Leverage t))
                  liqThresholdP;
              t = set_if (\<lambda>x t. t\<lparr>ct_RolloverFee := int_dec x\<rparr>) rolloverFee t;
              t = set_if (\<lambda>x t. t\<lparr>ct_FundingFee := int_dec x\<rparr>) fundingFee t
          in set_if (\<lambda>x t. t\<lparr>ct_CurrentLiqPrice := int_dec x\<rparr>) currentLiq t
      | _ \<Rightarrow> t)"

section \<open>Loading from the database\<close>

text \<open>A scanned trade row: the trade, its threshold and the pair's accumulators, if any.\<close>

type_synonym cache_trade_row =
  "cached_trade \<times> u32 \<times> string option \<times> string option \<times> string option"

definition load_cached_trade ::
  "cache_trade_row option \<Rightarrow> (string, cached_trade list) gmap \<Rightarrow> (string, cached_trade list) gmap" where
  "load_cached_trade ro m =
     (case ro of
        None \<Rightarrow> m
      | Some (t0, thr, roll, long, short) \<Rightarrow>
          let t = setDynamicTradeFees thr roll long short t0
          in gm_put (ct_Trader t) (slice_of m (ct_Trader t) @ [t]) m)"

definition load_cached_limit ::
  "cached_limit option \<Rightarrow> (string, cached_limit list) gmap \<Rightarrow> (string, cached_limit list) gmap" where
  "load_cached_limit ro m =
     (case ro of None \<Rightarrow> m | Some l \<Rightarrow> gm_put (cl_Trader l) (slice_of m (cl_Trader l) @ [l]) m)"

definition load_cached_pair ::
  "cached_pair option \<Rightarrow> (int, cached_pair) gmap \<Rightarrow> (int, cached_pair) gmap" where
  "load_cached_pair ro m = (case ro of None \<Rightarrow> m | Some p \<Rightarrow> gm_put (cp_PairIndex p) p m)"

definition Cache_LoadFromDB ::
  "string + cache_trade_row option list \<Rightarrow> string + cached_limit option list
   \<Rightarrow> string + cached_pair option list \<Rightarrow> trade_cache \<Rightarrow> string option \<times> trade_cache" where
  "Cache_LoadFromDB tq lq pq c =
     (case tq of
        Inl err \<Rightarrow> (Some (''load trades: '' @ err), c)
      | Inr trows \<Rightarrow>
          let c = c\<lparr>tc_trades := fold load_cached_trade trows gm_empty\<rparr> in
     (case lq of
        Inl err \<Rightarrow> (Some (''load limit_orders: '' @ err), c)
      | Inr lrows \<Rightarrow>
          let c = c\<lparr>tc_limits := fold load_cached_limit lrows gm_empty\<rparr> in
     (case pq of
        Inl err \<Rightarrow> (Some (''load pairs: '' @ err), c)
      | Inr prows \<Rightarrow> (None, c\<lparr>tc_pairs := fold load_cached_pair prows gm_empty\<rparr>))))"

section \<open>Slices\<close>

definition is_trade :: "int \<Rightarrow> int \<Rightarrow> cached_trade \<Rightarrow> bool" where
  "is_trade pairIdx tradeIdx t \<longleftrightarrow> ct_PairIndex t = pairIdx \<and> ct_TradeIndex t = tradeIdx"

definition hasTrade :: "cached_trade list \<Rightarrow> int \<Rightarrow> int \<Rightarrow> bool" where
  "hasTrade trades pairIdx tradeIdx = list_ex (is_trade pairIdx tradeIdx) trades"

definition removeTrade ::
  "(string, cached_trade list) gmap \<Rightarrow> string \<Rightarrow> int \<Rightarrow> int \<Rightarrow> bool \<times> (string, cached_trade list) gmap" where
  "removeTrade trades trader pairIdx tradeIdx =
     (let list = slice_of trades trader in
      if hasTrade list pairIdx tradeIdx
      then (True, gm_put trader (remove_first (is_trade pairIdx tradeIdx) list) trades)
      else (False, trades))"

definition updateTradeTpSl ::
  "(string, cached_trade list) gmap \<Rightarrow> string \<Rightarrow> int \<Rightarrow> int \<Rightarrow> string \<Rightarrow> string
   \<Rightarrow> bool \<times> (string, cached_trade list) gmap" where
  "updateTradeTpSl trades trader pairIdx tradeIdx tp sl =
     (let list = slice_of trades trader in
      if hasTrade list pairIdx tradeIdx
      then (True, gm_put trader (update_first (is_trade pairIdx tradeIdx)
              (\<lambda>t. t\<lparr>ct_TpPrice := tp, ct_SlPrice := sl\<rparr>) list) trades)
      else (False, trades))"

definition is_limit :: "int \<Rightarrow> int \<Rightarrow> cached_limit \<Rightarrow> bool" where
  "is_limit pairIdx limitIdx l \<longleftrightarrow> cl_PairIndex l = pairIdx \<and> cl_LimitIndex l = limitIdx"

definition hasLimit :: "cached_limit list \<Rightarrow> int \<Rightarrow> int \<Rightarrow> bool" where
  "hasLimit limits pairIdx limitIdx = list_ex (is_limit pairIdx limitIdx) limits"

definition removeLimit ::
  "(string, cached_limit list) gmap \<Rightarrow> string \<Rightarrow> int \<Rightarrow> int \<Rightarrow> bool \<times> (string, cached_limit list) gmap" where
  "removeLimit limits trader pairIdx limitIdx =
     (let list = slice_of limits trader in
      if hasLimit list pairIdx limitIdx
      then (True, gm_put trader (remove_first (is_limit pairIdx limitIdx) list) limits)
      else (False, limits))"

definition updateLimit ::
  "(string, cached_limit list) gmap \<Rightarrow> string \<Rightarrow> int \<Rightarrow> int \<Rightarrow> string \<Rightarrow> string \<Rightarrow> string
   \<Rightarrow> bool \<times> (string, cached_limit list) gmap" where
  "updateLimit limits trader pairIdx limitIdx limitPrice tp sl =
     (let list = slice_of limits trader in
      if hasLimit list pairIdx limitIdx
      then (True, gm_put trader (update_first (is_limit pairIdx limitIdx)
              (\<lambda>l. l\<lparr>cl_LimitPrice := limitPrice, cl_TpPrice := tp, cl_SlPrice := sl\<rparr>) list) limits)
      else (False, limits))"

definition buildTrade :: "event \<Rightarrow> trade \<Rightarrow> i32 \<Rightarrow> cached_trade" where
  "buildTrade e t i =
     (let liqPrice = ignore_err (LiquidationPrice (tr_OpenPrice t) (tr_IsLong t)
                       (tr_Collateral t) (tr_Leverage t) None None 90)
      in \<lparr> ct_Trader = ev_Trader e, ct_PairIndex = uint (tr_PairIndex t), ct_TradeIndex = sint i,
           ct_IsLong = tr_IsLong t, ct_Leverage = uint (tr_Leverage t),
           ct_Collateral = bigStr (tr_Collateral t), ct_OpenPrice = bigStr (tr_OpenPrice t),
           ct_AccRolloverOpen = bigStr (tr_AccRolloverOpen t),
           ct_AccFundingOpen = bigStr (tr_AccFundingOpen t),
           ct_TpPrice = bigStr (tr_TpPrice t), ct_SlPrice = bigStr (tr_SlPrice t),
           ct_LiqPrice = bigStr liqPrice, ct_CurrentLiqPrice = bigStr liqPrice,
           ct_RolloverFee = ''0'', ct_FundingFee = ''0'', ct_OpenedAt = ev_OccurredAt e \<rparr>)"

definition buildLimit :: "event \<Rightarrow> limit_order \<Rightarrow> i32 \<Rightarrow> cached_limit" where
  "buildLimit e l i =
     \<lparr> cl_Trader = ev_Trader e, cl_PairIndex = uint (lo_PairIndex l), cl_LimitIndex = sint i,
       cl_IsLong = lo_IsLong l, cl_Leverage = uint (lo_Leverage l),
       cl_Collateral = bigStr (lo_Collateral l), cl_LimitPrice = bigStr (lo_LimitPrice l),
       cl_TpPrice = bigStr (lo_TpPrice l), cl_SlPrice = bigStr (lo_SlPrice l),
       cl_PlacedAt = ev_OccurredAt e \<rparr>"

section \<open>Events\<close>

text \<open>\<open>pairIdx := 0; if e.PairIndex != nil { pairIdx = int(*e.PairIndex) }\<close>\<close>

definition event_pair :: "event \<Rightarrow> int" where
  "event_pair e = (case ev_PairIndex e of None \<Rightarrow> 0 | Some p \<Rightarrow> sint p)"

text \<open>The result says whether the cache changed.\<close>

definition cache_event :: "event \<Rightarrow> trade_cache \<Rightarrow> bool \<times> trade_cache" where
  "cache_event e c =
     (if ev_Source e \<noteq> SrcPM then (False, c)
      else if ev_Topic e = ''opened'' then
        (case (ev_Trade e, ev_TradeIndex e) of
           (Some t, Some i) \<Rightarrow>
             if \<not> hasTrade (slice_of (tc_trades c) (ev_Trader e)) (uint (tr_PairIndex t)) (sint i)
             then (True, c\<lparr>tc_trades := gm_put (ev_Trader e)
                     (slice_of (tc_trades c) (ev_Trader e) @ [buildTrade e t i]) (tc_trades c)\<rparr>)
             else (False, c)
         | _ \<Rightarrow> (False, c))
      else if ev_Topic e = ''closed'' \<or> ev_Topic e = ''liq'' \<or> ev_Topic e = ''tp_sl_executed'' then
        (case ev_TradeIndex e of
           None \<Rightarrow> (False, c)
         | Some i \<Rightarrow>
             let (removed, m) = removeTrade (tc_trades c) (ev_Trader e) (event_pair e) (sint i)
             in (removed, c\<lparr>tc_trades := m\<rparr>))
      else if ev_Topic e = ''updated_tp_sl'' then
        (case (ev_TradeIndex e, ev_TpPrice e, ev_SlPrice e) of
           (Some i, Some tp, Some sl) \<Rightarrow>
             let (updated, m) = updateTradeTpSl (tc_trades c) (ev_Trader e) (event_pair e) (sint i)
                                  (bigStr (Some tp)) (bigStr (Some sl))
             in (updated, c\<lparr>tc_trades := m\<rparr>)
         | _ \<Rightarrow> (False, c))
      else if ev_Topic e = ''placed'' then
        (case (ev_Limit e, ev_LimitIndex e) of
           (Some l, Some i) \<Rightarrow>
             if \<not> hasLimit (slice_of (tc_limits c) (ev_Trader e)) (uint (lo_PairIndex l)) (sint i)
             then (True, c\<lparr>tc_limits := gm_put (ev_Trader e)
                     (slice_of (tc_limits c) (ev_Trader e) @ [buildLimit e l i]) (tc_limits c)\<rparr>)
             else (False, c)
         | _ \<Rightarrow> (False, c))
      else if ev_Topic e = ''executed'' \<or> ev_Topic e = ''canceled'' then
        (case ev_LimitIndex e of
           None \<Rightarrow> (False, c)
         | Some i \<Rightarrow>
             let (removed, m) = removeLimit (tc_limits c) (ev_Trader e) (event_pair e) (sint i)
             in (removed, c\<lparr>tc_limits := m\<rparr>))
      else if ev_Topic e = ''updated_limit'' then
        (case ev_LimitIndex e of
           None \<Rightarrow> (False, c)
         | Some i \<Rightarrow>
             let (updated, m) = updateLimit (tc_limits c) (ev_Trader e) (event_pair e) (sint i)
                                  (bigStr (ev_LimitPrice e)) (bigStr (ev_TpPrice e)) (bigStr (ev_SlPrice e))
             in (updated, c\<lparr>tc_limits := m\<rparr>))
      else (False, c))"

text \<open>The trader for whom \<open>onChange\<close> is called, and the new cache.\<close>

definition applyEvent ::
  "(string \<Rightarrow> string + event) \<Rightarrow> string \<Rightarrow> trade_cache \<Rightarrow> string option \<times> trade_cache" where
  "applyEvent unmarshal eventJSON c =
     (case unmarshal eventJSON of
        Inl err \<Rightarrow> (None, c)
      | Inr e \<Rightarrow>
          let (changed, c') = cache_event e c
          in (if changed then Some (ev_Trader e) else None, c'))"

fun Start :: "(string \<Rightarrow> string + event) \<Rightarrow> string list \<Rightarrow> trade_cache \<Rightarrow> trade_cache" where
  "Start unmarshal [] c = c"
| "Start unmarshal (m # ms) c = Start unmarshal ms (snd (applyEvent unmarshal m c))"

section \<open>Snapshots\<close>

record pair_fee_snapshot =
  fs_liqThresholdP :: u32
  fs_accRollover :: string
  fs_accFundingLong :: string
  fs_accFundingShort :: string

type_synonym fee_query_row = "int \<times> u32 \<times> string option \<times> string option \<times> string option"

definition fee_snapshot_row ::
  "fee_query_row option \<Rightarrow> (int, pair_fee_snapshot) gmap \<Rightarrow> (int, pair_fee_snapshot) gmap" where
  "fee_snapshot_row ro m =
     (case ro of
        None \<Rightarrow> m
      | Some (pairIdx, thr, roll, long, short) \<Rightarrow>
          let str = (\<lambda>x. case x of None \<Rightarrow> [] | Some y \<Rightarrow> y)
          in gm_put pairIdx \<lparr> fs_liqThresholdP = thr, fs_accRollover = str roll,
               fs_accFundingLong = str long, fs_accFundingShort = str short \<rparr> m)"

definition enrich_one :: "(int, pair_fee_snapshot) gmap \<Rightarrow> cached_trade \<Rightarrow> cached_trade" where
  "enrich_one fees t =
     (case gm_get fees (ct_PairIndex t) of
        None \<Rightarrow> ensureDynamicDefaults t
      | Some snap \<Rightarrow>
          if fs_accRollover snap = [] \<or> fs_accFundingLong snap = [] \<or> fs_accFundingShort snap = []
          then ensureDynamicDefaults t
          else setDynamicTradeFees (fs_liqThresholdP snap) (Some (fs_accRollover snap))
                 (Some (fs_accFundingLong snap)) (Some (fs_accFundingShort snap)) t)"

text \<open>The query is \<open>None\<close> when the cache has no pool.\<close>

definition enrichTrades ::
  "(string + fee_query_row option list) option \<Rightarrow> cached_trade list \<Rightarrow> cached_trade list" where
  "enrichTrades q trades =
     (if trades = [] then trades
      else (case q of
              None \<Rightarrow> trades
            | Some (Inl err) \<Rightarrow> trades
            | Some (Inr rows) \<Rightarrow> map (enrich_one (fold fee_snapshot_row rows gm_empty)) trades))"

record snapshot =
  sn_trades :: "cached_trade list"
  sn_limits :: "cached_limit list"
  sn_pairs :: "cached_pair list"

definition GetSnapshot ::
  "(string + fee_query_row option list) option \<Rightarrow> string \<Rightarrow> trade_cache \<Rightarrow> snapshot" where
  "GetSnapshot q trader c =
     (let trades = enrichTrades q (slice_of (tc_trades c) trader);
          limits = slice_of (tc_limits c) trader;
          pairSet = map ct_PairIndex trades @ map cl_PairIndex limits
      in \<lparr> sn_trades = trades, sn_limits = limits,
           sn_pairs = map snd (filter (\<lambda>(idx, p). idx \<in> set pairSet) (tc_pairs c)) \<rparr>)"

definition GetAllSnapshot ::
  "(string + fee_query_row option list) option \<Rightarrow> trade_cache \<Rightarrow> snapshot" where
  "GetAllSnapshot q c =
     \<lparr> sn_trades = enrichTrades q (concat (gm_vals (tc_trades c))),
       sn_limits = concat (gm_vals (tc_limits c)), sn_pairs = gm_vals (tc_pairs c) \<rparr>"

section \<open>Slices of entries with an index\<close>

text \<open>
  The trades and the limit orders of a trader are both slices whose entries carry a pair and
  an index. Their laws are stated once, for a function \<open>idx\<close> that reads the two.
\<close>

locale indexed_slice =
  fixes idx :: "'a \<Rightarrow> int \<times> int"
    and owner :: "'a \<Rightarrow> string"
    and hit :: "int \<Rightarrow> int \<Rightarrow> 'a \<Rightarrow> bool"
  assumes hit_idx: "hit p i x \<longleftrightarrow> idx x = (p, i)"
begin

definition slices_ok :: "(string, 'a list) gmap \<Rightarrow> bool" where
  "slices_ok m \<longleftrightarrow> gm_wf m \<and>
     (\<forall>u. distinct (map idx (slice_of m u)) \<and> (\<forall>x \<in> set (slice_of m u). owner x = u))"

definition present :: "(string, 'a list) gmap \<Rightarrow> string \<Rightarrow> int \<Rightarrow> int \<Rightarrow> bool" where
  "present m u p i \<longleftrightarrow> (p, i) \<in> idx ` set (slice_of m u)"

lemma list_ex_hit: "list_ex (hit p i) (slice_of m u) = present m u p i"
  by (force simp: list_ex_iff present_def hit_idx image_iff)

lemma slice_of_put [simp]: "slice_of (gm_put u l m) v = (if v = u then l else slice_of m v)"
  by (simp add: slice_of_def)

lemma remove_hit:
  "distinct (map idx l) \<Longrightarrow> remove_first (hit p i) l = filter (\<lambda>x. idx x \<noteq> (p, i)) l"
  using remove_first_filter [of idx l "(p, i)"] by (simp add: hit_idx [abs_def])

lemma slices_ok_empty: "slices_ok gm_empty"
  by (simp add: slices_ok_def slice_of_def)

lemma slices_ok_append:
  assumes "slices_ok m" and "owner x = u" and "\<not> present m u (fst (idx x)) (snd (idx x))"
  shows "slices_ok (gm_put u (slice_of m u @ [x]) m)"
  using assms by (auto simp: slices_ok_def present_def)

lemma slices_ok_remove:
  assumes "slices_ok m"
  shows "slices_ok (gm_put u (remove_first (hit p i) (slice_of m u)) m)"
  using assms by (auto simp: slices_ok_def remove_hit distinct_map_filter)

lemma slices_ok_update:
  assumes "slices_ok m" and "\<And>x. idx (f x) = idx x" and "\<And>x. owner (f x) = owner x"
  shows "slices_ok (gm_put u (update_first (hit p i) f (slice_of m u)) m)"
proof -
  have "map idx (update_first (hit p i) f l) = map idx l" for l
    by (rule map_update_first) (simp add: assms(2))
  moreover have "map owner (update_first (hit p i) f l) = map owner l" for l
    by (rule map_update_first) (simp add: assms(3))
  then have "owner ` set (update_first (hit p i) f l) = owner ` set l" for l
    by (metis list.set_map)
  then have "(\<forall>x \<in> set (update_first (hit p i) f l). owner x = u) = (\<forall>x \<in> set l. owner x = u)" for l u
    by (metis (mono_tags, lifting) image_iff)
  ultimately show ?thesis using assms(1) by (auto simp: slices_ok_def)
qed

lemma present_append:
  "present (gm_put u (slice_of m u @ [x]) m) v p i \<longleftrightarrow> present m v p i \<or> v = u \<and> idx x = (p, i)"
  by (auto simp: present_def)

lemma present_remove:
  assumes "slices_ok m"
  shows "present (gm_put u (remove_first (hit p i) (slice_of m u)) m) v p' i' \<longleftrightarrow>
    present m v p' i' \<and> (v, p', i') \<noteq> (u, p, i)"
  using assms by (auto simp: present_def remove_hit slices_ok_def image_iff)

lemma present_update:
  assumes "\<And>x. idx (f x) = idx x"
  shows "present (gm_put u (update_first (hit p i) f (slice_of m u)) m) v p' i' \<longleftrightarrow> present m v p' i'"
proof -
  have "map idx (update_first (hit p i) f (slice_of m u)) = map idx (slice_of m u)"
    by (rule map_update_first) (simp add: assms)
  then have "idx ` set (update_first (hit p i) f (slice_of m u)) = idx ` set (slice_of m u)"
    by (metis list.set_map)
  then show ?thesis by (simp add: present_def)
qed

text \<open>Updating twice with the same values is updating once, even in the order of the slice.\<close>

lemma update_first_twice:
  assumes "\<And>x. idx (f x) = idx x" and "\<And>x. f (f x) = f x"
  shows "update_first (hit p i) f (update_first (hit p i) f l) = update_first (hit p i) f l"
  by (induction l) (simp_all add: hit_idx assms)

end

interpretation trades: indexed_slice "\<lambda>t. (ct_PairIndex t, ct_TradeIndex t)" ct_Trader is_trade
  by unfold_locales (simp add: is_trade_def)

interpretation limits: indexed_slice "\<lambda>l. (cl_PairIndex l, cl_LimitIndex l)" cl_Trader is_limit
  by unfold_locales (simp add: is_limit_def)

lemma has_present [simp]:
  "hasTrade (slice_of m u) p i = trades.present m u p i"
  "hasLimit (slice_of m' u) p i = limits.present m' u p i"
  by (simp_all add: hasTrade_def hasLimit_def trades.list_ex_hit limits.list_ex_hit)

lemmas slice_ops = removeTrade_def updateTradeTpSl_def removeLimit_def updateLimit_def Let_def

section \<open>The invariant and the projection\<close>

definition cache_ok :: "trade_cache \<Rightarrow> bool" where
  "cache_ok c \<longleftrightarrow> trades.slices_ok (tc_trades c) \<and> limits.slices_ok (tc_limits c) \<and> gm_wf (tc_pairs c)"

definition cache_open :: "trade_cache \<Rightarrow> trade_key set" where
  "cache_open c = {k. trades.present (tc_trades c) (tk_Trader k) (tk_PairIndex k) (tk_TradeIndex k)}"

definition cache_open_limits :: "trade_cache \<Rightarrow> limit_key set" where
  "cache_open_limits c = {k. limits.present (tc_limits c) (lk_Trader k) (lk_PairIndex k) (lk_LimitIndex k)}"

lemma build_fields [simp]:
  "ct_Trader (buildTrade e t i) = ev_Trader e" "ct_PairIndex (buildTrade e t i) = uint (tr_PairIndex t)"
  "ct_TradeIndex (buildTrade e t i) = sint i"
  "cl_Trader (buildLimit e l i) = ev_Trader e" "cl_PairIndex (buildLimit e l i) = uint (lo_PairIndex l)"
  "cl_LimitIndex (buildLimit e l i) = sint i"
  by (simp_all add: buildTrade_def buildLimit_def Let_def)

lemma event_pair_deref: "event_pair e = sint (deref32 (ev_PairIndex e))"
  by (simp add: event_pair_def split: option.splits)

lemma cache_ok_New: "cache_ok NewTradeCache"
  by (simp add: cache_ok_def NewTradeCache_def trades.slices_ok_empty limits.slices_ok_empty)

lemma cache_ok_event: "cache_ok c \<Longrightarrow> cache_ok (snd (cache_event e c))"
  by (auto simp: cache_event_def cache_ok_def slice_ops trades.slices_ok_append limits.slices_ok_append
      trades.slices_ok_remove limits.slices_ok_remove trades.slices_ok_update limits.slices_ok_update
      split: option.splits)

text \<open>What each operation on the slices does to the open sets.\<close>

lemma trade_key_conv: "k = TradeKey u p i \<longleftrightarrow> tk_Trader k = u \<and> tk_PairIndex k = p \<and> tk_TradeIndex k = i"
  by (cases k) auto

lemma limit_key_conv: "k = LimitKey u p i \<longleftrightarrow> lk_Trader k = u \<and> lk_PairIndex k = p \<and> lk_LimitIndex k = i"
  by (cases k) auto

lemma cache_open_ops:
  assumes "cache_ok c"
  shows "cache_open (c\<lparr>tc_trades := snd (removeTrade (tc_trades c) u p i)\<rparr>) = cache_open c - {TradeKey u p i}"
    and "cache_open (c\<lparr>tc_trades := snd (updateTradeTpSl (tc_trades c) u p i tp sl)\<rparr>) = cache_open c"
    and "cache_open (c\<lparr>tc_trades := gm_put u (slice_of (tc_trades c) u @ [x]) (tc_trades c)\<rparr>) =
      insert (TradeKey u (ct_PairIndex x) (ct_TradeIndex x)) (cache_open c)"
  using assms
  by (auto simp: cache_open_def cache_ok_def slice_ops trades.present_append trades.present_remove
      trades.present_update trade_key_conv)

lemma cache_limits_ops:
  assumes "cache_ok c"
  shows "cache_open_limits (c\<lparr>tc_limits := snd (removeLimit (tc_limits c) u p i)\<rparr>) =
      cache_open_limits c - {LimitKey u p i}"
    and "cache_open_limits (c\<lparr>tc_limits := snd (updateLimit (tc_limits c) u p i lp tp sl)\<rparr>) = cache_open_limits c"
    and "cache_open_limits (c\<lparr>tc_limits := gm_put u (slice_of (tc_limits c) u @ [x]) (tc_limits c)\<rparr>) =
      insert (LimitKey u (cl_PairIndex x) (cl_LimitIndex x)) (cache_open_limits c)"
  using assms
  by (auto simp: cache_open_limits_def cache_ok_def slice_ops limits.present_append limits.present_remove
      limits.present_update limit_key_conv)

lemma cache_open_frames [simp]:
  "cache_open (c\<lparr>tc_limits := m\<rparr>) = cache_open c"
  "cache_open_limits (c\<lparr>tc_trades := m'\<rparr>) = cache_open_limits c"
  by (simp_all add: cache_open_def cache_open_limits_def)

lemma present_open:
  "trades.present (tc_trades c) u p i \<longleftrightarrow> TradeKey u p i \<in> cache_open c"
  "limits.present (tc_limits c) u p i \<longleftrightarrow> LimitKey u p i \<in> cache_open_limits c"
  by (simp_all add: cache_open_def cache_open_limits_def)

lemma cache_open_event:
  assumes "cache_ok c" and "ev_Source e = SrcPM"
  shows "cache_open (snd (cache_event e c)) = open_step e (cache_open c)"
proof (cases "ev_Topic e = ''opened''")
  case True
  then show ?thesis
    using assms
    by (simp add: cache_event_def open_step_def opened_key_def cache_open_ops present_open insert_absorb
        split: option.split)
next
  case not_opened: False
  show ?thesis
  proof (cases "ev_Topic e \<in> set closing_topics")
    case True
    then show ?thesis
      using assms not_opened
      by (auto simp: cache_event_def open_step_def closing_topics_def trade_key_of_def Let_def
          case_prod_beta cache_open_ops(1) event_pair_deref split: option.split)
  next
    case False
    then show ?thesis
      using assms not_opened
      by (simp add: cache_event_def open_step_def closing_topics_def Let_def case_prod_beta
          cache_open_ops(2) split: option.split)
  qed
qed

lemma cache_limits_event:
  assumes "cache_ok c" and "ev_Source e = SrcPM"
  shows "cache_open_limits (snd (cache_event e c)) = limit_step e (cache_open_limits c)"
proof (cases "ev_Topic e = ''placed''")
  case True
  then show ?thesis
    using assms
    by (simp add: cache_event_def limit_step_def placed_key_def cache_limits_ops present_open
        insert_absorb split: option.split)
next
  case not_placed: False
  show ?thesis
  proof (cases "ev_Topic e \<in> set resolving_topics")
    case True
    then show ?thesis
      using assms not_placed
      by (auto simp: cache_event_def limit_step_def resolving_topics_def limit_key_of_def Let_def
          case_prod_beta cache_limits_ops(1) event_pair_deref split: option.split)
  next
    case False
    then show ?thesis
      using assms not_placed
      by (simp add: cache_event_def limit_step_def resolving_topics_def Let_def case_prod_beta
          cache_limits_ops(2) split: option.split)
  qed
qed

interpretation cache: position_projection "\<lambda>e c. snd (cache_event e c)" cache_open cache_open_limits
  cache_ok "\<lambda>e. ev_Source e = SrcPM"
  by unfold_locales (simp_all add: cache_ok_event cache_open_event cache_limits_event)

lemma cache_event_other_source: "ev_Source e \<noteq> SrcPM \<Longrightarrow> cache_event e c = (False, c)"
  by (simp add: cache_event_def)

lemma Start_fold:
  "Start unmarshal ms c =
     fold (\<lambda>e c. snd (cache_event e c)) (filter (\<lambda>e. ev_Source e = SrcPM) (parsed_events unmarshal ms)) c"
  by (induction ms arbitrary: c)
    (auto simp: applyEvent_def parsed_events_def cache_event_other_source case_prod_beta Let_def
      split: sum.splits)

section \<open>Properties\<close>

text \<open>The gateway's cache, started empty and fed with any sequence of Redis messages, is well
  formed (every trader's slice holds this trader's entries only, each once) and holds exactly the open
  positions and orders that the position manager's events among the messages leave open.\<close>

lemma cache_tracks_stream:
  "let c = Start unmarshal ms NewTradeCache;
       es = filter (\<lambda>e. ev_Source e = SrcPM) (parsed_events unmarshal ms)
   in cache_ok c \<and> cache_open c = open_run es {} \<and> cache_open_limits c = limit_run es {}"
proof -
  have e: "cache_open NewTradeCache = {}" "cache_open_limits NewTradeCache = {}"
    by (simp_all add: cache_open_def cache_open_limits_def NewTradeCache_def trades.present_def
        limits.present_def slice_of_def)
  show ?thesis
    using cache.inv_run [OF cache_ok_New] cache.open_of_run [OF cache_ok_New]
      cache.limits_of_run [OF cache_ok_New]
    by (simp add: Let_def Start_fold e)
qed

text \<open>The handler of each group of topics, in terms of the key the event names.\<close>

definition with_key :: "'k option \<Rightarrow> ('k \<Rightarrow> bool) \<Rightarrow> trade_cache \<Rightarrow> trade_cache \<Rightarrow> bool \<times> trade_cache" where
  "with_key ko p c' c = (case ko of None \<Rightarrow> (False, c) | Some k \<Rightarrow> if p k then (True, c') else (False, c))"

lemma with_key_simps:
  "fst (with_key ko p c' c) \<longleftrightarrow> (\<exists>k. ko = Some k \<and> p k)"
  "snd (with_key ko p c' c) = (if \<exists>k. ko = Some k \<and> p k then c' else c)"
  by (auto simp: with_key_def split: option.splits)

lemma with_key_unchanged: "\<not> fst (with_key ko p c' c) \<Longrightarrow> snd (with_key ko p c' c) = c"
  by (auto simp: with_key_def split: option.splits if_splits)

definition opened_cache :: "event \<Rightarrow> trade_cache \<Rightarrow> trade_cache" where
  "opened_cache e c = c\<lparr>tc_trades := gm_put (ev_Trader e) (slice_of (tc_trades c) (ev_Trader e) @
     [buildTrade e (the (ev_Trade e)) (the (ev_TradeIndex e))]) (tc_trades c)\<rparr>"

definition closed_cache :: "event \<Rightarrow> trade_cache \<Rightarrow> trade_cache" where
  "closed_cache e c = c\<lparr>tc_trades :=
     snd (removeTrade (tc_trades c) (ev_Trader e) (event_pair e) (sint (the (ev_TradeIndex e))))\<rparr>"

definition tp_sl_cache :: "event \<Rightarrow> trade_cache \<Rightarrow> trade_cache" where
  "tp_sl_cache e c = c\<lparr>tc_trades := snd (updateTradeTpSl (tc_trades c) (ev_Trader e) (event_pair e)
     (sint (the (ev_TradeIndex e))) (bigStr (ev_TpPrice e)) (bigStr (ev_SlPrice e)))\<rparr>"

definition placed_cache :: "event \<Rightarrow> trade_cache \<Rightarrow> trade_cache" where
  "placed_cache e c = c\<lparr>tc_limits := gm_put (ev_Trader e) (slice_of (tc_limits c) (ev_Trader e) @
     [buildLimit e (the (ev_Limit e)) (the (ev_LimitIndex e))]) (tc_limits c)\<rparr>"

definition resolved_cache :: "event \<Rightarrow> trade_cache \<Rightarrow> trade_cache" where
  "resolved_cache e c = c\<lparr>tc_limits :=
     snd (removeLimit (tc_limits c) (ev_Trader e) (event_pair e) (sint (the (ev_LimitIndex e))))\<rparr>"

definition limit_cache :: "event \<Rightarrow> trade_cache \<Rightarrow> trade_cache" where
  "limit_cache e c = c\<lparr>tc_limits := snd (updateLimit (tc_limits c) (ev_Trader e) (event_pair e)
     (sint (the (ev_LimitIndex e))) (bigStr (ev_LimitPrice e)) (bigStr (ev_TpPrice e)) (bigStr (ev_SlPrice e)))\<rparr>"

lemmas handler_defs = opened_cache_def closed_cache_def tp_sl_cache_def placed_cache_def
  resolved_cache_def limit_cache_def

lemma cache_event_eqs:
  assumes "ev_Source e = SrcPM"
  shows "ev_Topic e = ''opened'' \<Longrightarrow>
      cache_event e c = with_key (opened_key e) (\<lambda>k. k \<notin> cache_open c) (opened_cache e c) c"
    and "ev_Topic e \<in> set closing_topics \<Longrightarrow>
      cache_event e c = with_key (trade_key_of e) (\<lambda>k. k \<in> cache_open c) (closed_cache e c) c"
    and "ev_Topic e = ''updated_tp_sl'' \<Longrightarrow> cache_event e c =
      with_key (if ev_TpPrice e = None \<or> ev_SlPrice e = None then None else trade_key_of e)
        (\<lambda>k. k \<in> cache_open c) (tp_sl_cache e c) c"
    and "ev_Topic e = ''placed'' \<Longrightarrow>
      cache_event e c = with_key (placed_key e) (\<lambda>k. k \<notin> cache_open_limits c) (placed_cache e c) c"
    and "ev_Topic e \<in> set resolving_topics \<Longrightarrow>
      cache_event e c = with_key (limit_key_of e) (\<lambda>k. k \<in> cache_open_limits c) (resolved_cache e c) c"
    and "ev_Topic e = ''updated_limit'' \<Longrightarrow>
      cache_event e c = with_key (limit_key_of e) (\<lambda>k. k \<in> cache_open_limits c) (limit_cache e c) c"
    and "ev_Topic e \<notin> set pmTopics \<Longrightarrow> cache_event e c = (False, c)"
proof -
  note defs = cache_event_def with_key_def handler_defs assms present_open slice_ops event_pair_deref
    opened_key_def trade_key_of_def placed_key_def limit_key_of_def
  show "ev_Topic e = ''opened'' \<Longrightarrow>
      cache_event e c = with_key (opened_key e) (\<lambda>k. k \<notin> cache_open c) (opened_cache e c) c"
    by (simp add: defs split: option.split)
  show "ev_Topic e \<in> set closing_topics \<Longrightarrow>
      cache_event e c = with_key (trade_key_of e) (\<lambda>k. k \<in> cache_open c) (closed_cache e c) c"
  proof -
    assume "ev_Topic e \<in> set closing_topics"
    then have "ev_Topic e = ''closed'' \<or> ev_Topic e = ''liq'' \<or> ev_Topic e = ''tp_sl_executed''"
      by (simp add: closing_topics_def)
    then show ?thesis by (elim disjE) (simp_all add: defs split: option.split)
  qed
  show "ev_Topic e = ''updated_tp_sl'' \<Longrightarrow> cache_event e c =
      with_key (if ev_TpPrice e = None \<or> ev_SlPrice e = None then None else trade_key_of e)
        (\<lambda>k. k \<in> cache_open c) (tp_sl_cache e c) c"
    by (simp add: defs split: option.split)
  show "ev_Topic e = ''placed'' \<Longrightarrow>
      cache_event e c = with_key (placed_key e) (\<lambda>k. k \<notin> cache_open_limits c) (placed_cache e c) c"
    by (simp add: defs split: option.split)
  show "ev_Topic e \<in> set resolving_topics \<Longrightarrow>
      cache_event e c = with_key (limit_key_of e) (\<lambda>k. k \<in> cache_open_limits c) (resolved_cache e c) c"
  proof -
    assume "ev_Topic e \<in> set resolving_topics"
    then have "ev_Topic e = ''executed'' \<or> ev_Topic e = ''canceled''" by (simp add: resolving_topics_def)
    then show ?thesis by (elim disjE) (simp_all add: defs split: option.split)
  qed
  show "ev_Topic e = ''updated_limit'' \<Longrightarrow>
      cache_event e c = with_key (limit_key_of e) (\<lambda>k. k \<in> cache_open_limits c) (limit_cache e c) c"
    by (simp add: defs split: option.split)
  show "ev_Topic e \<notin> set pmTopics \<Longrightarrow> cache_event e c = (False, c)"
    by (simp add: defs pmTopics_def)
qed

lemma handlers_isolated:
  assumes "u \<noteq> ev_Trader e"
  shows "slice_of (tc_trades (opened_cache e c)) u = slice_of (tc_trades c) u"
    "slice_of (tc_trades (closed_cache e c)) u = slice_of (tc_trades c) u"
    "slice_of (tc_trades (tp_sl_cache e c)) u = slice_of (tc_trades c) u"
    "slice_of (tc_limits (placed_cache e c)) u = slice_of (tc_limits c) u"
    "slice_of (tc_limits (resolved_cache e c)) u = slice_of (tc_limits c) u"
    "slice_of (tc_limits (limit_cache e c)) u = slice_of (tc_limits c) u"
  using assms by (simp_all add: handler_defs slice_ops)

lemma handlers_frame [simp]:
  "tc_limits (opened_cache e c) = tc_limits c" "tc_limits (closed_cache e c) = tc_limits c"
  "tc_limits (tp_sl_cache e c) = tc_limits c" "tc_trades (placed_cache e c) = tc_trades c"
  "tc_trades (resolved_cache e c) = tc_trades c" "tc_trades (limit_cache e c) = tc_trades c"
  by (simp_all add: handler_defs)

lemma cache_event_isolated:
  assumes "u \<noteq> ev_Trader e"
  shows "slice_of (tc_trades (snd (cache_event e c))) u = slice_of (tc_trades c) u \<and>
    slice_of (tc_limits (snd (cache_event e c))) u = slice_of (tc_limits c) u"
proof (cases "ev_Source e = SrcPM")
  case True
  show ?thesis
    by (cases rule: topic_cases [of "ev_Topic e"])
      (simp_all add: cache_event_eqs [OF True] with_key_simps handlers_isolated [OF assms])
qed (simp add: cache_event_def)

lemma cache_event_unchanged:
  assumes "\<not> fst (cache_event e c)"
  shows "snd (cache_event e c) = c"
proof (cases "ev_Source e = SrcPM")
  case True
  show ?thesis
    using assms
    by (cases rule: topic_cases [of "ev_Topic e"])
      (simp_all add: cache_event_eqs [OF True] with_key_unchanged)
qed (simp add: cache_event_def)

definition update_topics :: "string list" where
  "update_topics = [''updated_tp_sl'', ''updated_limit'']"

lemma step_moves:
  "ev_Topic e = ''opened'' \<Longrightarrow> opened_key e = Some k \<Longrightarrow> k \<notin> K \<Longrightarrow> open_step e K \<noteq> K"
  "ev_Topic e \<in> set closing_topics \<Longrightarrow> trade_key_of e = Some k \<Longrightarrow> k \<in> K \<Longrightarrow> open_step e K \<noteq> K"
  "ev_Topic e = ''placed'' \<Longrightarrow> placed_key e = Some lk \<Longrightarrow> lk \<notin> L \<Longrightarrow> limit_step e L \<noteq> L"
  "ev_Topic e \<in> set resolving_topics \<Longrightarrow> limit_key_of e = Some lk \<Longrightarrow> lk \<in> L \<Longrightarrow> limit_step e L \<noteq> L"
  by (auto simp: open_step_def limit_step_def closing_topics_def resolving_topics_def)

lemma cache_event_changed:
  assumes "cache_ok c" and "fst (cache_event e c)"
  shows "ev_Source e = SrcPM" and "ev_Topic e \<in> set update_topics \<or>
    cache_open (snd (cache_event e c)) \<noteq> cache_open c \<or>
    cache_open_limits (snd (cache_event e c)) \<noteq> cache_open_limits c"
proof -
  show pm: "ev_Source e = SrcPM" using assms(2) by (cases "ev_Source e = SrcPM") (auto simp: cache_event_def)
  note eqs = cache_event_eqs [OF pm, of c]
  show "ev_Topic e \<in> set update_topics \<or> cache_open (snd (cache_event e c)) \<noteq> cache_open c \<or>
      cache_open_limits (snd (cache_event e c)) \<noteq> cache_open_limits c"
    unfolding cache_open_event [OF assms(1) pm] cache_limits_event [OF assms(1) pm]
    using assms(2)
    by (cases rule: topic_cases [of "ev_Topic e"])
      (auto simp: eqs with_key_simps update_topics_def dest: step_moves)
qed

text \<open>Subscribers are notified exactly of their changes. If a message notifies nobody, the cache is
  as before; if it notifies a trader, it is the trader of a position manager event, and this event changed
  the set of open positions or orders or is an update of an entry that is held; and in either case the
  entries of every other trader are untouched.\<close>

theorem applyEvent_notifies:
  assumes "cache_ok c" and "applyEvent unmarshal m c = (n, c')"
  shows "case n of
      None \<Rightarrow> c' = c
    | Some u \<Rightarrow>
        (\<exists>e. unmarshal m = Inr e \<and> ev_Source e = SrcPM \<and> ev_Trader e = u \<and>
           (cache_open c' \<noteq> cache_open c \<or> cache_open_limits c' \<noteq> cache_open_limits c \<or>
            ev_Topic e \<in> set update_topics)) \<and>
        (\<forall>v. v \<noteq> u \<longrightarrow> slice_of (tc_trades c') v = slice_of (tc_trades c) v \<and>
                        slice_of (tc_limits c') v = slice_of (tc_limits c) v)"
proof (cases "unmarshal m")
  case (Inl err)
  then show ?thesis using assms(2) by (simp add: applyEvent_def)
next
  case (Inr e)
  have c': "c' = snd (cache_event e c)" and n: "n = (if fst (cache_event e c) then Some (ev_Trader e) else None)"
    using assms(2) Inr by (simp_all add: applyEvent_def case_prod_beta Let_def)
  show ?thesis
  proof (cases "fst (cache_event e c)")
    case True
    then show ?thesis
      using cache_event_changed [OF assms(1) True] cache_event_isolated [of _ e c] Inr by (auto simp: n c')
  next
    case False
    then show ?thesis using cache_event_unchanged [OF False] by (simp add: n c')
  qed
qed

definition demo_cache_opened :: event where
  "demo_cache_opened = zero_event\<lparr>ev_Source := SrcPM, ev_Topic := ''opened'', ev_Trader := ''alice'',
     ev_PairIndex := Some 1, ev_TradeIndex := Some 2, ev_Trade := Some zero_trade\<rparr>"

lemma demo_cache_event:
  "fst (cache_event demo_cache_opened NewTradeCache)"
  by (simp add: cache_event_def demo_cache_opened_def zero_event_def NewTradeCache_def hasTrade_def
      slice_of_def)

theorem applyEvent_notifies_witness:
  "\<exists>c'. applyEvent (\<lambda>_. Inr demo_cache_opened) [] NewTradeCache = (Some ''alice'', c') \<and>
     slice_of (tc_trades c') ''bob'' = []"
proof -
  let ?c = "snd (cache_event demo_cache_opened NewTradeCache)"
  have a: "applyEvent (\<lambda>_. Inr demo_cache_opened) [] NewTradeCache = (Some ''alice'', ?c)"
    using demo_cache_event
    by (simp add: applyEvent_def case_prod_beta Let_def) (simp add: demo_cache_opened_def)
  from applyEvent_notifies [OF cache_ok_New a] have "slice_of (tc_trades ?c) ''bob'' = []"
    by (simp add: NewTradeCache_def slice_of_def)
  with a show ?thesis by blast
qed

lemma gm_put_put: "gm_put k v (gm_put k v m) = gm_put k v m"
  by (rule gm_put_same) simp

lemma updates_twice:
  "tp_sl_cache e (tp_sl_cache e c) = tp_sl_cache e c" "limit_cache e (limit_cache e c) = limit_cache e c"
proof -
  have "trades.present (gm_put u (update_first (is_trade p i) (\<lambda>t. t\<lparr>ct_TpPrice := tp, ct_SlPrice := sl\<rparr>)
      (slice_of m u)) m) v p' i' = trades.present m v p' i'" for u p i tp sl m v p' i'
    by (rule trades.present_update) simp
  then show "tp_sl_cache e (tp_sl_cache e c) = tp_sl_cache e c"
    by (simp add: tp_sl_cache_def updateTradeTpSl_def Let_def trades.update_first_twice gm_put_put)
  have "limits.present (gm_put u (update_first (is_limit p i)
      (\<lambda>l. l\<lparr>cl_LimitPrice := lp, cl_TpPrice := tp, cl_SlPrice := sl\<rparr>) (slice_of m u)) m) v p' i' =
      limits.present m v p' i'" for u p i lp tp sl m v p' i'
    by (rule limits.present_update) simp
  then show "limit_cache e (limit_cache e c) = limit_cache e c"
    by (simp add: limit_cache_def updateLimit_def Let_def limits.update_first_twice gm_put_put)
qed

lemma step_idem: "open_step e (open_step e K) = open_step e K" "limit_step e (limit_step e L) = limit_step e L"
  by (auto simp: open_step_def limit_step_def split: option.splits)

lemma cache_event_twice_topic:
  assumes "cache_ok c" and "fst (cache_event e (snd (cache_event e c)))"
  shows "ev_Source e = SrcPM" and "ev_Topic e \<in> set update_topics"
proof -
  let ?c = "snd (cache_event e c)"
  have ok: "cache_ok ?c" by (rule cache_ok_event [OF assms(1)])
  note ch = cache_event_changed [OF ok assms(2)]
  show "ev_Source e = SrcPM" by (rule ch(1))
  have "cache_open (snd (cache_event e ?c)) = cache_open ?c"
    "cache_open_limits (snd (cache_event e ?c)) = cache_open_limits ?c"
    by (simp_all add: cache_open_event [OF ok ch(1)] cache_limits_event [OF ok ch(1)]
        cache_open_event [OF assms(1) ch(1)] cache_limits_event [OF assms(1) ch(1)] step_idem)
  with ch(2) show "ev_Topic e \<in> set update_topics" by simp
qed

lemma cache_event_twice:
  assumes "cache_ok c"
  shows "snd (cache_event e (snd (cache_event e c))) = snd (cache_event e c)"
proof (cases "fst (cache_event e (snd (cache_event e c)))")
  case True
  note t = cache_event_twice_topic [OF assms True]
  from t(2) have "ev_Topic e = ''updated_tp_sl'' \<or> ev_Topic e = ''updated_limit''"
    by (simp add: update_topics_def)
  then show ?thesis
    by (elim disjE) (auto simp: cache_event_eqs [OF t(1)] with_key_simps updates_twice)
next
  case False
  then show ?thesis by (rule cache_event_unchanged)
qed

text \<open>Delivering an event a second time leaves the cache exactly as it is, and notifies again only
  if the event is an update of an entry.\<close>

theorem applyEvent_redelivery:
  assumes "cache_ok c" and "unmarshal m = Inr e"
    and "applyEvent unmarshal m c = (n1, c1)" and "applyEvent unmarshal m c1 = (n2, c2)"
  shows "c2 = c1 \<and> (n2 = None \<or> ev_Topic e \<in> set update_topics)"
proof -
  have c1: "c1 = snd (cache_event e c)" using assms(2,3) by (simp add: applyEvent_def case_prod_beta Let_def)
  have c2: "c2 = snd (cache_event e c1)" "n2 = (if fst (cache_event e c1) then Some (ev_Trader e) else None)"
    using assms(2,4) by (simp_all add: applyEvent_def case_prod_beta Let_def)
  show ?thesis
    using cache_event_twice [OF assms(1), of e] cache_event_twice_topic(2) [OF assms(1), of e]
    by (auto simp: c1 c2)
qed

theorem applyEvent_redelivery_witness:
  "\<exists>c1. applyEvent (\<lambda>_. Inr demo_cache_opened) [] NewTradeCache = (Some ''alice'', c1) \<and>
     applyEvent (\<lambda>_. Inr demo_cache_opened) [] c1 = (None, c1)"
proof -
  obtain c1 where a: "applyEvent (\<lambda>_. Inr demo_cache_opened) [] NewTradeCache = (Some ''alice'', c1)"
    using demo_cache_event
    by (simp add: applyEvent_def case_prod_beta Let_def) (simp add: demo_cache_opened_def)
  obtain n2 c2 where b: "applyEvent (\<lambda>_. Inr demo_cache_opened) [] c1 = (n2, c2)"
    by (cases "applyEvent (\<lambda>_. Inr demo_cache_opened) [] c1")
  from applyEvent_redelivery [OF cache_ok_New _ a b] have "c2 = c1" "n2 = None"
    by (auto simp: update_topics_def demo_cache_opened_def zero_event_def)
  with a b show ?thesis by blast
qed

end
