(* ===== verification/Restart.thy ===== *)
theory Restart
  imports Detector Store Trade_Cache
begin

text \<open>
  A keeper that restarts against a keeper that kept listening, and the liquidation price that
  the gateway shows against the one the keeper acts on.

  \<open>LoadFromDB\<close> of \<^verbatim>\<open>internal/keeper/state.go\<close> reads the tables that
  \<^verbatim>\<open>internal/store/store.go\<close> writes. The three SELECT statements are modelled here on the
  tables of \<open>Store\<close>; a NUMERIC column reads as its decimal text. Both the streamed state and
  the database are shown to implement one abstract step on \<open>trade_key \<rightharpoonup> trade_entry\<close>.
\<close>

section \<open>The queries of LoadFromDB\<close>

text \<open>\<open>COALESCE(p.liq_threshold_p, t.liq_threshold_p)\<close>: \<open>thr\<close> is the table \<open>pairs\<close>.\<close>

definition select_trade :: "(int \<Rightarrow> u32 option) \<Rightarrow> trade_key \<Rightarrow> trade_rec \<Rightarrow> trade_row" where
  "select_trade thr k r =
     \<lparr> rw_trader = tk_Trader k, rw_pair_index = tk_PairIndex k, rw_trade_index = tk_TradeIndex k,
       rw_is_long = tx_is_long r, rw_leverage = word_of_int (tx_leverage r),
       rw_collateral = int_dec (tx_collateral r), rw_open_price = int_dec (tx_open_price r),
       rw_acc_rollover_open = int_dec (tx_acc_rollover_open r),
       rw_acc_funding_open = int_dec (tx_acc_funding_open r),
       rw_tp_price = int_dec (tx_tp_price r), rw_sl_price = int_dec (tx_sl_price r),
       rw_liq_price = int_dec (tx_liq_price r),
       rw_liq_threshold_p = (case thr (tk_PairIndex k) of
                               None \<Rightarrow> word_of_int (tx_liq_threshold_p r) | Some p \<Rightarrow> p) \<rparr>"

definition select_trades :: "(int \<Rightarrow> u32 option) \<Rightarrow> db \<Rightarrow> trade_row option list" where
  "select_trades thr d = map (\<lambda>(k, r). Some (select_trade thr k r)) (db_trades d)"

definition select_limit :: "limit_key \<Rightarrow> limit_rec \<Rightarrow> limit_row" where
  "select_limit k r =
     \<lparr> rl_trader = lk_Trader k, rl_pair_index = lk_PairIndex k, rl_limit_index = lk_LimitIndex k,
       rl_is_long = lx_is_long r, rl_limit_price = int_dec (lx_limit_price r) \<rparr>"

definition select_limits :: "db \<Rightarrow> limit_row option list" where
  "select_limits d = map (\<lambda>(k, r). Some (select_limit k r)) (db_limit_orders d)"

definition select_fees :: "db \<Rightarrow> fee_row option list" where
  "select_fees d =
     map (\<lambda>(p, r). Some \<lparr> rf_pair_index = p, rf_acc_rollover = int_dec (fa_acc_rollover r),
        rf_acc_funding_long = int_dec (fa_acc_funding_long r),
        rf_acc_funding_short = int_dec (fa_acc_funding_short r),
        rf_projected_at_ledger = word_of_int (fa_projected_at_ledger r) \<rparr>)
       (db_pair_fee_accumulators d)"

definition restart :: "(int \<Rightarrow> u32 option) \<Rightarrow> db \<Rightarrow> string option \<times> trade_state" where
  "restart thr d =
     LoadFromDB (Inr (select_trades thr d, None)) (Inr (select_limits d, None))
       (Inr (select_fees d, None)) NewTradeState"

section \<open>What a keeper sees of a position\<close>

text \<open>
  The store writes 0 for a missing number, so the numbers are compared with nil read as 0; the
  threshold is compared apart, since the listening keeper assumes 90 and the restarted one
  reads the pair's.
\<close>

definition zeroed :: "bigp \<Rightarrow> bigp" where
  "zeroed x = Some (or_zero x)"

definition trade_view :: "trade_entry \<Rightarrow> trade_entry" where
  "trade_view t =
     t\<lparr> te_Collateral := zeroed (te_Collateral t), te_OpenPrice := zeroed (te_OpenPrice t),
        te_AccRolloverOpen := zeroed (te_AccRolloverOpen t), te_AccFundingOpen := zeroed (te_AccFundingOpen t),
        te_LiqThresholdP := 90, te_LiqPrice := zeroed (te_LiqPrice t),
        te_TpPrice := zeroed (te_TpPrice t), te_SlPrice := zeroed (te_SlPrice t) \<rparr>"

definition limit_view :: "limit_entry \<Rightarrow> limit_entry" where
  "limit_view l = l\<lparr>le_LimitPrice := zeroed (le_LimitPrice l)\<rparr>"

definition ts_trade_view :: "trade_state \<Rightarrow> trade_key \<Rightarrow> trade_entry option" where
  "ts_trade_view s k = map_option trade_view (gm_get (ts_trades s) k)"

definition ts_limit_view :: "trade_state \<Rightarrow> limit_key \<Rightarrow> limit_entry option" where
  "ts_limit_view s k = map_option limit_view (gm_get (ts_limits s) k)"

text \<open>
  What the columns of a row of \<open>trades\<close>, of \<open>limit_orders\<close> and of \<open>pair_fee_accumulators\<close> mean for a
  keeper: a specification column by column, independent of the SELECT statements and of the
  conversion of the rows.
\<close>

definition position_of :: "u32 \<Rightarrow> trade_key \<Rightarrow> trade_rec \<Rightarrow> trade_entry" where
  "position_of threshold k r =
     \<lparr> te_Key = k, te_IsLong = tx_is_long r, te_Leverage = word_of_int (tx_leverage r),
       te_Collateral = Some (tx_collateral r), te_OpenPrice = Some (tx_open_price r),
       te_AccRolloverOpen = Some (tx_acc_rollover_open r), te_AccFundingOpen = Some (tx_acc_funding_open r),
       te_LiqThresholdP = threshold, te_LiqPrice = Some (tx_liq_price r),
       te_TpPrice = Some (tx_tp_price r), te_SlPrice = Some (tx_sl_price r) \<rparr>"

definition order_of :: "limit_key \<Rightarrow> limit_rec \<Rightarrow> limit_entry" where
  "order_of k r = \<lparr> le_Key = k, le_IsLong = lx_is_long r, le_LimitPrice = Some (lx_limit_price r) \<rparr>"

definition fees_of :: "int \<Rightarrow> fee_rec \<Rightarrow> pair_fee_state" where
  "fees_of p r =
     \<lparr> pf_PairIndex = p, pf_AccRollover = Some (fa_acc_rollover r),
       pf_AccFundingLong = Some (fa_acc_funding_long r), pf_AccFundingShort = Some (fa_acc_funding_short r),
       pf_ProjectedAtLedger = word_of_int (fa_projected_at_ledger r) \<rparr>"

text \<open>The threshold of a position: the pair's, or the row's own for a pair that is not in the table.\<close>

definition threshold_of :: "(int \<Rightarrow> u32 option) \<Rightarrow> trade_key \<Rightarrow> trade_rec \<Rightarrow> u32" where
  "threshold_of thr k r =
     (if thr (tk_PairIndex k) = None then word_of_int (tx_liq_threshold_p r) else the (thr (tk_PairIndex k)))"

definition db_trade_view :: "db \<Rightarrow> trade_key \<Rightarrow> trade_entry option" where
  "db_trade_view d k = map_option (position_of 90 k) (gm_get (db_trades d) k)"

definition db_limit_view :: "db \<Rightarrow> limit_key \<Rightarrow> limit_entry option" where
  "db_limit_view d k = map_option (order_of k) (gm_get (db_limit_orders d) k)"

text \<open>The abstract step that both implement.\<close>

definition view_step :: "event \<Rightarrow> (trade_key \<Rightarrow> trade_entry option) \<Rightarrow> trade_key \<Rightarrow> trade_entry option" where
  "view_step e m =
     (if ev_Topic e = ''opened'' then
        (case (ev_Trade e, opened_key e) of
           (Some t, Some k) \<Rightarrow> m(k \<mapsto> trade_view (entry_of_trade k t))
         | _ \<Rightarrow> m)
      else if ev_Topic e \<in> set closing_topics then
        (case trade_key_of e of None \<Rightarrow> m | Some k \<Rightarrow> m(k := None))
      else if ev_Topic e = ''updated_tp_sl'' then
        (case (trade_key_of e, ev_TpPrice e, ev_SlPrice e) of
           (Some k, Some tp, Some sl) \<Rightarrow>
             m(k := map_option (\<lambda>t. t\<lparr>te_TpPrice := Some tp, te_SlPrice := Some sl\<rparr>) (m k))
         | _ \<Rightarrow> m)
      else m)"

definition limit_view_step :: "event \<Rightarrow> (limit_key \<Rightarrow> limit_entry option) \<Rightarrow> limit_key \<Rightarrow> limit_entry option" where
  "limit_view_step e m =
     (if ev_Topic e = ''placed'' then
        (case (ev_Limit e, placed_key e) of
           (Some l, Some k) \<Rightarrow> m(k \<mapsto> \<lparr>le_Key = k, le_IsLong = lo_IsLong l, le_LimitPrice = zeroed (lo_LimitPrice l)\<rparr>)
         | _ \<Rightarrow> m)
      else if ev_Topic e \<in> set resolving_topics then
        (case limit_key_of e of None \<Rightarrow> m | Some k \<Rightarrow> m(k := None))
      else if ev_Topic e = ''updated_limit'' then
        (case (limit_key_of e, ev_LimitPrice e) of
           (Some k, Some p) \<Rightarrow> m(k := map_option (\<lambda>l. l\<lparr>le_LimitPrice := Some p\<rparr>) (m k))
         | _ \<Rightarrow> m)
      else m)"

text \<open>An update of take-profit and stop-loss carries both prices or none.\<close>

definition both_prices :: "event \<Rightarrow> bool" where
  "both_prices e \<longleftrightarrow> (ev_Topic e = ''updated_tp_sl'' \<longrightarrow> (ev_TpPrice e = None \<longleftrightarrow> ev_SlPrice e = None))"

lemma zeroed_simps [simp]: "zeroed (Some x) = Some x" "zeroed (zeroed y) = zeroed y"
  by (simp_all add: zeroed_def or_zero_def)

lemma trade_view_update:
  "ev_TpPrice e = None \<Longrightarrow> ev_SlPrice e = None \<Longrightarrow> trade_view (update_tp_sl e t) = trade_view t"
  "ev_TpPrice e = Some tp \<Longrightarrow> ev_SlPrice e = Some sl \<Longrightarrow>
     trade_view (update_tp_sl e t) = (trade_view t)\<lparr>te_TpPrice := Some tp, te_SlPrice := Some sl\<rparr>"
  by (simp_all add: update_tp_sl_def trade_view_def)

text \<open>The events of one kind leave the other map alone.\<close>

lemma Apply_frames:
  "ev_Topic e \<in> {''placed'', ''updated_limit'', ''executed'', ''canceled''} \<Longrightarrow>
     ts_trades (TradeState_Apply e s) = ts_trades s"
  "ev_Topic e \<in> {''opened'', ''updated_tp_sl'', ''closed'', ''liq'', ''tp_sl_executed''} \<Longrightarrow>
     ts_limits (TradeState_Apply e s) = ts_limits s"
  by (auto simp: TradeState_Apply_def Let_def Remove_def RemoveLimit_def split: option.splits)

lemma Apply_other: "ev_Topic e \<notin> set pmTopics \<Longrightarrow> TradeState_Apply e s = s"
  by (simp add: TradeState_Apply_def pmTopics_def)

lemma ts_trade_view_Apply:
  assumes "both_prices e"
  shows "ts_trade_view (TradeState_Apply e s) = view_step e (ts_trade_view s)"
proof (cases "ev_Topic e" rule: topic_cases)
  case opened
  then show ?thesis
    by (auto simp: fun_eq_iff ts_trade_view_def view_step_def TradeState_Apply_def opened_key_def Let_def
        split: option.splits)
next
  case closing
  then show ?thesis
    by (auto simp: fun_eq_iff ts_trade_view_def view_step_def TradeState_Apply_def trade_key_of_def
        closing_topics_def Remove_def split: option.splits)
next
  case tp_sl
  then show ?thesis
    using assms
    by (auto simp: fun_eq_iff ts_trade_view_def view_step_def TradeState_Apply_def trade_key_of_def
        closing_topics_def both_prices_def option.map_comp comp_def trade_view_update Let_def
        split: option.splits)
next
  case placed
  then show ?thesis by (simp add: fun_eq_iff ts_trade_view_def view_step_def Apply_frames closing_topics_def)
next
  case resolving
  then show ?thesis
    by (auto simp add: fun_eq_iff ts_trade_view_def view_step_def Apply_frames closing_topics_def resolving_topics_def)
next
  case limit
  then show ?thesis by (simp add: fun_eq_iff ts_trade_view_def view_step_def Apply_frames closing_topics_def)
next
  case other
  then show ?thesis by (simp add: view_step_def Apply_other closing_topics_def pmTopics_def)
qed


lemma ts_limit_view_Apply: "ts_limit_view (TradeState_Apply e s) = limit_view_step e (ts_limit_view s)"
proof (cases "ev_Topic e" rule: topic_cases)
  case placed
  then show ?thesis
    by (auto simp: fun_eq_iff ts_limit_view_def limit_view_step_def TradeState_Apply_def placed_key_def
        limit_view_def Let_def split: option.splits)
next
  case resolving
  then show ?thesis
    by (auto simp: fun_eq_iff ts_limit_view_def limit_view_step_def TradeState_Apply_def limit_key_of_def
        resolving_topics_def RemoveLimit_def split: option.splits)
next
  case limit
  then show ?thesis
    by (auto simp: fun_eq_iff ts_limit_view_def limit_view_step_def TradeState_Apply_def limit_key_of_def
        resolving_topics_def limit_view_def option.map_comp comp_def Let_def split: option.splits)
next
  case opened
  then show ?thesis
    by (simp add: fun_eq_iff ts_limit_view_def limit_view_step_def Apply_frames resolving_topics_def)
next
  case closing
  then show ?thesis
    by (auto simp add: fun_eq_iff ts_limit_view_def limit_view_step_def Apply_frames resolving_topics_def
        closing_topics_def)
next
  case tp_sl
  then show ?thesis
    by (simp add: fun_eq_iff ts_limit_view_def limit_view_step_def Apply_frames resolving_topics_def)
next
  case other
  then show ?thesis by (simp add: limit_view_step_def Apply_other resolving_topics_def pmTopics_def)
qed

section \<open>The database implements the step\<close>

lemma view_opened: "position_of 90 k (opened_rec e t tm) = trade_view (entry_of_trade k t)"
  by (simp add: trade_view_def position_of_def opened_rec_def entry_of_trade_def Let_def zeroed_def)

lemma view_kept:
  "position_of thr k (r\<lparr>tx_liq_threshold_p := a, tx_opened_at := b, tx_opened_tx := c\<rparr>) = position_of thr k r"
  by (simp add: position_of_def)

lemma view_tp_sl:
  "position_of thr k (r\<lparr>tx_tp_price := tp, tx_sl_price := sl\<rparr>) =
     (position_of thr k r)\<lparr>te_TpPrice := Some tp, te_SlPrice := Some sl\<rparr>"
  by (simp add: position_of_def)

lemma closeTrade_get:
  "gm_get (db_trades (closeTrade e reason tm d)) =
     (case trade_key_of e of None \<Rightarrow> gm_get (db_trades d) | Some k \<Rightarrow> (gm_get (db_trades d))(k := None))"
  by (auto simp: fun_eq_iff closeTrade_def trade_key_of_def Let_def split: option.splits)

lemma closeTradeUnknownReason_get:
  "gm_get (db_trades (closeTradeUnknownReason sf e tm d)) =
     (case trade_key_of e of None \<Rightarrow> gm_get (db_trades d) | Some k \<Rightarrow> (gm_get (db_trades d))(k := None))"
  by (auto simp: closeTradeUnknownReason_def Let_def closeTrade_get trade_key_of_def split: option.splits)

lemma upsert_trade_get:
  "db_trade_view (upsert_trade k r d) =
     (db_trade_view d)(k \<mapsto> position_of 90 k r)"
  by (auto simp: fun_eq_iff db_trade_view_def upsert_trade_def view_kept split: option.splits)

lemma trades_frames:
  "db_trades (resolveLimit e res tm d) = db_trades d" "db_trades (upsert_limit lk lr d) = db_trades d"
  "db_limit_orders (upsert_trade k r d) = db_limit_orders d"
  "db_limit_orders (closeTrade e reason tm d) = db_limit_orders d"
  "db_limit_orders (closeTradeUnknownReason sf e tm d) = db_limit_orders d"
  by (simp_all add: resolveLimit_def upsert_limit_def upsert_trade_def closeTrade_def
      closeTradeUnknownReason_def Let_def split: option.splits)

lemma db_trade_view_applyPM:
  assumes "applyPM sf e tm d = Inr d'"
  shows "db_trade_view d' = view_step e (db_trade_view d)"
proof (cases "ev_Topic e" rule: topic_cases)
  case opened
  then show ?thesis
    using assms
    by (auto simp: applyPM_def view_step_def opened_key_def upsert_trade_get view_opened
        split: option.splits if_splits)
next
  case closing
  then have "gm_get (db_trades d') =
      (case trade_key_of e of None \<Rightarrow> gm_get (db_trades d) | Some k \<Rightarrow> (gm_get (db_trades d))(k := None))"
    using assms by (auto simp: applyPM_def closing_topics_def closeTrade_get closeTradeUnknownReason_get)
  with closing show ?thesis
    by (auto simp: fun_eq_iff db_trade_view_def view_step_def closing_topics_def split: option.splits)
next
  case tp_sl
  then show ?thesis
    using assms
    by (auto simp: fun_eq_iff applyPM_def db_trade_view_def view_step_def closing_topics_def
        trade_key_of_def option.map_comp comp_def view_tp_sl split: option.splits)
next
  case placed
  then show ?thesis using assms
    by (auto simp: applyPM_def db_trade_view_def view_step_def closing_topics_def trades_frames
        split: option.splits if_splits)
next
  case resolving
  then show ?thesis using assms
    by (auto simp: fun_eq_iff applyPM_def db_trade_view_def view_step_def closing_topics_def
        resolving_topics_def trades_frames)
next
  case limit
  then show ?thesis using assms
    by (auto simp: applyPM_def db_trade_view_def view_step_def closing_topics_def split: option.splits)
next
  case other
  then show ?thesis using assms
    by (auto simp: applyPM_def pmTopics_def view_step_def closing_topics_def)
qed

lemma view_placed:
  "order_of k (placed_rec e l tm) =
     \<lparr>le_Key = k, le_IsLong = lo_IsLong l, le_LimitPrice = zeroed (lo_LimitPrice l)\<rparr>"
  "order_of k (r\<lparr>lx_placed_at := a, lx_placed_tx := b\<rparr>) = order_of k r"
  "order_of k (r\<lparr>lx_limit_price := p, lx_tp_price := tp, lx_sl_price := sl\<rparr>) =
     (order_of k r)\<lparr>le_LimitPrice := Some p\<rparr>"
  by (simp_all add: order_of_def placed_rec_def zeroed_def)

lemma upsert_limit_get:
  "db_limit_view (upsert_limit k r d) =
     (db_limit_view d)(k \<mapsto> order_of k r)"
  by (auto simp: fun_eq_iff db_limit_view_def upsert_limit_def view_placed(2) split: option.splits)

lemma resolveLimit_get:
  "gm_get (db_limit_orders (resolveLimit e res tm d)) =
     (case limit_key_of e of None \<Rightarrow> gm_get (db_limit_orders d)
      | Some k \<Rightarrow> (gm_get (db_limit_orders d))(k := None))"
  by (auto simp: fun_eq_iff resolveLimit_def limit_key_of_def Let_def split: option.splits)

lemma db_limit_view_applyPM:
  assumes "applyPM sf e tm d = Inr d'"
  shows "db_limit_view d' = limit_view_step e (db_limit_view d)"
proof (cases "ev_Topic e" rule: topic_cases)
  case placed
  then show ?thesis
    using assms
    by (auto simp: applyPM_def limit_view_step_def placed_key_def upsert_limit_get view_placed(1)
        split: option.splits if_splits)
next
  case resolving
  then have "gm_get (db_limit_orders d') =
      (case limit_key_of e of None \<Rightarrow> gm_get (db_limit_orders d)
       | Some k \<Rightarrow> (gm_get (db_limit_orders d))(k := None))"
    using assms by (auto simp: applyPM_def resolving_topics_def resolveLimit_get)
  with resolving show ?thesis
    by (auto simp: fun_eq_iff db_limit_view_def limit_view_step_def resolving_topics_def split: option.splits)
next
  case limit
  then show ?thesis
    using assms
    by (auto simp: fun_eq_iff applyPM_def db_limit_view_def limit_view_step_def resolving_topics_def
        limit_key_of_def option.map_comp comp_def view_placed(3) split: option.splits)
next
  case opened
  then show ?thesis using assms
    by (auto simp: applyPM_def db_limit_view_def limit_view_step_def resolving_topics_def trades_frames
        split: option.splits if_splits)
next
  case closing
  then show ?thesis using assms
    by (auto simp: fun_eq_iff applyPM_def db_limit_view_def limit_view_step_def closing_topics_def
        resolving_topics_def trades_frames)
next
  case tp_sl
  then show ?thesis using assms
    by (auto simp: applyPM_def db_limit_view_def limit_view_step_def resolving_topics_def split: option.splits)
next
  case other
  then show ?thesis using assms
    by (auto simp: applyPM_def pmTopics_def limit_view_step_def resolving_topics_def)
qed

section \<open>Runs\<close>

text \<open>The interface of a component that implements the abstract step.\<close>

locale view_projection =
  fixes project :: "event \<Rightarrow> 's \<Rightarrow> 's"
    and trades_of :: "'s \<Rightarrow> trade_key \<Rightarrow> trade_entry option"
    and limits_of :: "'s \<Rightarrow> limit_key \<Rightarrow> limit_entry option"
    and accepts :: "event \<Rightarrow> bool"
  assumes trades_step: "accepts e \<Longrightarrow> trades_of (project e s) = view_step e (trades_of s)"
    and limits_step: "accepts e \<Longrightarrow> limits_of (project e s) = limit_view_step e (limits_of s)"
begin

lemma views_run:
  assumes "\<forall>e \<in> set es. accepts e"
  shows "trades_of (fold project es s) = fold view_step es (trades_of s) \<and>
    limits_of (fold project es s) = fold limit_view_step es (limits_of s)"
  using assms by (induction es arbitrary: s) (simp_all add: trades_step limits_step)

end

interpretation keeper_view: view_projection TradeState_Apply ts_trade_view ts_limit_view both_prices
  by unfold_locales (simp_all add: ts_trade_view_Apply ts_limit_view_Apply)

lemma audit_views:
  "db_trade_view (insert_audit e i tm d) = db_trade_view d"
  "db_limit_view (insert_audit e i tm d) = db_limit_view d"
  by (auto simp: fun_eq_iff db_trade_view_def db_limit_view_def insert_audit_def split: option.splits)

interpretation store_view: view_projection "store_step pg" db_trade_view db_limit_view
  "\<lambda>e. store_accepts pg e \<and> ev_Source e = SrcPM" for pg
proof
  fix e d
  assume "store_accepts pg e \<and> ev_Source e = SrcPM"
  then obtain tm d' where "store_step pg e d = d'"
    "applyPM (pg_select_fails pg) e tm (insert_audit e (ev_EventIndex e) tm d) = Inr d'"
    unfolding store_step_def using Store_Apply_healthy by (metis snd_conv)
  then show "db_trade_view (store_step pg e d) = view_step e (db_trade_view d)"
    and "db_limit_view (store_step pg e d) = limit_view_step e (db_limit_view d)"
    by (simp_all add: db_trade_view_applyPM db_limit_view_applyPM audit_views)
qed

section \<open>A restart\<close>

lemma map_of_rev_distinct:
  assumes "distinct (map fst xs)"
  shows "map_of (rev xs) = map_of xs"
proof -
  have "distinct (map fst (rev xs))" using assms unfolding rev_map [symmetric] by simp
  with assms show ?thesis by (simp add: map_of_inject_set)
qed

lemma get_put_all_keyed:
  assumes "gm_wf m"
  shows "gm_get (gm.put_all (map (\<lambda>(k, r). (k, f k r)) m) gm_empty) k = map_option (f k) (gm_get m k)"
proof -
  have "map fst (map (\<lambda>(k, r). (k, f k r)) m) = map fst m" by (simp add: case_prod_beta)
  with assms have "map_of (rev (map (\<lambda>(k, r). (k, f k r)) m)) = map_of (map (\<lambda>(k, r). (k, f k r)) m)"
    by (intro map_of_rev_distinct) (simp only: gm_wf_def)
  moreover have "map_of (map (\<lambda>(k, r). (k, f k r)) m) k = map_option (f k) (map_of m k)"
    by (induction m) auto
  ultimately show ?thesis by (simp add: gm.get_put_all gm_get_def map_add_def gm_empty_def split: option.splits)
qed

text \<open>The SELECT statements and the conversion of their rows give what the columns mean.\<close>

lemma selected_entries:
  "entry_of_row (select_trade thr k r) = position_of (threshold_of thr k r) k r"
  "limit_of_row (select_limit k' r') = order_of k' r'"
  by (auto simp: entry_of_row_def select_trade_def position_of_def threshold_of_def limit_of_row_def select_limit_def
      order_of_def split: option.splits)

lemma select_keys [simp]: "te_Key (position_of t k r) = k" "le_Key (order_of k' r') = k'"
  by (simp_all add: position_of_def order_of_def)

lemma view_position [simp]: "trade_view (position_of t k r) = position_of 90 k r" "limit_view (order_of k' r') = order_of k' r'"
  by (simp_all add: trade_view_def position_of_def limit_view_def order_of_def)

lemma scanned_Some: "scanned (map (\<lambda>(k, r). Some (f k r)) xs) = map (\<lambda>(k, r). f k r) xs"
  by (induction xs) auto

lemma scanned_select:
  "map (\<lambda>r. (te_Key (entry_of_row r), entry_of_row r)) (scanned (select_trades thr d)) =
     map (\<lambda>(k, r). (k, position_of (threshold_of thr k r) k r)) (db_trades d)"
  "map (\<lambda>r. (le_Key (limit_of_row r), limit_of_row r)) (scanned (select_limits d)) =
     map (\<lambda>(k, r). (k, order_of k r)) (db_limit_orders d)"
  by (auto simp add: select_trades_def select_limits_def scanned_Some selected_entries)

lemma scanned_fees:
  "fold load_fee_row (select_fees d) m = gm.put_all (map (\<lambda>(p, r). (p, fees_of p r)) (db_pair_fee_accumulators d)) m"
proof -
  have "fold load_fee_row (map (\<lambda>(p, r). Some \<lparr> rf_pair_index = p, rf_acc_rollover = int_dec (fa_acc_rollover r),
        rf_acc_funding_long = int_dec (fa_acc_funding_long r),
        rf_acc_funding_short = int_dec (fa_acc_funding_short r),
        rf_projected_at_ledger = word_of_int (fa_projected_at_ledger r) \<rparr>) xs) m =
      gm.put_all (map (\<lambda>(p, r). (p, fees_of p r)) xs) m" for xs
    by (induction xs arbitrary: m) (auto simp: gm.put_all_def load_fee_row_def fee_of_row_def fees_of_def)
  then show ?thesis by (simp add: select_fees_def)
qed

text \<open>What a keeper holds after a start: for every key what the columns mean, and nothing else.\<close>

lemma restart_holds:
  assumes "db_ok d" "restart thr d = (r, s)"
  shows "r = None"
    and "gm_get (ts_trades s) k = map_option (\<lambda>r. position_of (threshold_of thr k r) k r) (gm_get (db_trades d) k)"
    and "gm_get (ts_limits s) lk = map_option (order_of lk) (gm_get (db_limit_orders d) lk)"
    and "FeeState s p = map_option (fees_of p) (gm_get (db_pair_fee_accumulators d) p)"
proof -
  show r: "r = None"
    using assms(2)
    by (auto simp: restart_def LoadFromDB_def loadLimitsFromDB_def LoadFeeAccumulatorsFromDB_def Let_def)
  have wf: "gm_wf (db_trades d)" "gm_wf (db_limit_orders d)" "gm_wf (db_pair_fee_accumulators d)"
    using assms(1) by (simp_all add: db_ok_def)
  have q: "LoadFromDB (Inr (select_trades thr d, None)) (Inr (select_limits d, None))
      (Inr (select_fees d, None)) NewTradeState = (None, s)"
    using assms(2) r by (simp add: restart_def)
  note l = LoadFromDB_result [OF q, unfolded scanned_select]
  have e: "ts_trades NewTradeState = gm_empty" "ts_limits NewTradeState = gm_empty"
    by (simp_all add: NewTradeState_def)
  show "gm_get (ts_trades s) k = map_option (\<lambda>r. position_of (threshold_of thr k r) k r) (gm_get (db_trades d) k)"
    by (simp add: l(1) e get_put_all_keyed [OF wf(1)])
  show "gm_get (ts_limits s) lk = map_option (order_of lk) (gm_get (db_limit_orders d) lk)"
    by (simp add: l(2) e get_put_all_keyed [OF wf(2)])
  have "ts_fees s = fold load_fee_row (select_fees d) gm_empty"
    using q by (auto simp: LoadFromDB_def loadLimitsFromDB_def LoadFeeAccumulatorsFromDB_def Let_def)
  then have "gm_get (ts_fees s) p = map_option (fees_of p) (gm_get (db_pair_fee_accumulators d) p)"
    by (simp add: scanned_fees get_put_all_keyed [OF wf(3)])
  then show "FeeState s p = map_option (fees_of p) (gm_get (db_pair_fee_accumulators d) p)"
    by (cases "gm_get (db_pair_fee_accumulators d) p") (simp_all add: FeeState_def fees_of_def cloneBig_def)
qed

lemma restart_result:
  assumes "db_ok d" "restart thr d = (r, s)"
  shows "r = None" and "ts_trade_view s = db_trade_view d" and "ts_limit_view s = db_limit_view d"
  using restart_holds [OF assms]
  by (simp_all add: fun_eq_iff ts_trade_view_def db_trade_view_def ts_limit_view_def db_limit_view_def
      option.map_comp comp_def)

text \<open>C2: a restart loses nothing. A keeper that starts from the tables sees, for every key, the same
  position and the same limit order as a keeper that received the position manager's events from Redis:
  direction, leverage, collateral, opening price, accumulators, liquidation price, take-profit and
  stop-loss (numbers with nil read as 0), provided the indexer stored these events and every update of
  take-profit and stop-loss carried both prices or none.\<close>

theorem restart_loses_nothing:
  assumes "parsed_events unmarshal msgs = es"
    and "\<forall>e \<in> set es. store_accepts pg e \<and> ev_Source e = SrcPM" "\<forall>e \<in> set es. both_prices e"
  shows "\<exists>s. restart thr (fold (store_step pg) es empty_db) = (None, s) \<and>
    ts_trade_view s = ts_trade_view (SubscribeRedis unmarshal msgs NewTradeState) \<and>
    ts_limit_view s = ts_limit_view (SubscribeRedis unmarshal msgs NewTradeState)"
proof -
  let ?d = "fold (store_step pg) es empty_db"
  have d: "db_ok ?d" using store.inv_run [OF db_ok_empty assms(2)] .
  obtain r s where s: "restart thr ?d = (r, s)" by (cases "restart thr ?d")
  note q = restart_result [OF d s]
  have e: "db_trade_view empty_db = ts_trade_view NewTradeState" "db_limit_view empty_db = ts_limit_view NewTradeState"
    by (simp_all add: fun_eq_iff db_trade_view_def ts_trade_view_def db_limit_view_def ts_limit_view_def
        empty_db_def NewTradeState_def)
  show ?thesis
    using q s store_view.views_run [OF assms(2), of empty_db] keeper_view.views_run [OF assms(3), of NewTradeState]
    by (simp add: SubscribeRedis_fold assms(1) e)
qed

theorem restart_loses_nothing_witness:
  "\<exists>s. restart (\<lambda>_. Some 85) (fold (store_step demo_pg) [demo_db_opened] empty_db) = (None, s) \<and>
     ts_trade_view s (TradeKey ''alice'' 1 2) =
       ts_trade_view (SubscribeRedis (\<lambda>p. if p = ''m'' then Inr demo_db_opened else Inl ''json'')
         [''x'', ''m''] NewTradeState) (TradeKey ''alice'' 1 2)"
proof -
  have "parsed_events (\<lambda>p. if p = ''m'' then Inr demo_db_opened else Inl ''json'') [''x'', ''m''] = [demo_db_opened]"
    by (simp add: parsed_events_def)
  moreover have "both_prices demo_db_opened" by (simp add: both_prices_def demo_db_defs)
  ultimately show ?thesis
    using restart_loses_nothing [of _ "[''x'', ''m'']" "[demo_db_opened]" demo_pg "\<lambda>_. Some 85"] demo_accepted
    by fastforce
qed

section \<open>The price shown and the price acted on\<close>

lemma bigStr_nonempty [simp]: "bigStr x \<noteq> []"
  using SetString_bigStr [of x] by (auto simp: big_SetString10_def parse_nat_def simp del: SetString_bigStr)

text \<open>The two computations of the price with fees agree, for the same threshold.\<close>

lemma fees_and_liq_agree:
  assumes "te_OpenPrice ent = Some op" "te_Collateral ent = Some c"
    and "te_AccRolloverOpen ent = Some ro" "te_AccFundingOpen ent = Some fo"
    and "pf_AccRollover fee = Some rn" "pf_AccFundingLong fee = Some fl" "pf_AccFundingShort fee = Some fs"
  shows "snd (snd (calculateTradeTimeFeesAndLiq (int_dec op) (int_dec c) (int_dec ro) (int_dec fo) (int_dec rn)
      (if te_IsLong ent then int_dec fl else int_dec fs) (te_IsLong ent) (te_Leverage ent) (te_LiqThresholdP ent))) =
    ignore_err (currentLiquidationPrice ent fee)"
  using assms
  by (cases "te_IsLong ent"; cases "te_LiqThresholdP ent = 0")
    (simp_all add: calculateTradeTimeFeesAndLiq_def parseBig_def currentLiquidationPrice_def Let_def
      ignore_err_def split: sum.split)

text \<open>
  A position that both learn from an opened event: the keeper assumes the threshold 90, the gateway
  takes the pair's. For a pair with the threshold 90 (or 0, which stands for 90) the price shown
  is the price that \<open>Detect\<close> tests; for other pairs it is not, until the keeper restarts.
\<close>

lemma shown_for_event:
  assumes "tr_OpenPrice t = Some op" "tr_Collateral t = Some c"
    and "tr_AccRolloverOpen t = Some ro" "tr_AccFundingOpen t = Some fo"
    and "FeeState s p = Some fee" "pf_AccRollover fee = Some rn"
    and "pf_AccFundingLong fee = Some fl" "pf_AccFundingShort fee = Some fs" "thr \<in> {0, 90}"
  shows "ct_CurrentLiqPrice (setDynamicTradeFees thr (Some (int_dec rn)) (Some (int_dec fl))
      (Some (int_dec fs)) (buildTrade e t i)) = bigStr (effective_liq s p (entry_of_trade k t))"
proof -
  let ?b = "buildTrade e t i" and ?k = "entry_of_trade k t"
  have b: "ensureDynamicDefaults ?b = ?b" "ct_IsLong ?b = te_IsLong ?k" "ct_CurrentLiqPrice ?b = bigStr (te_LiqPrice ?k)"
    "ct_OpenPrice ?b = int_dec op" "ct_Collateral ?b = int_dec c" "ct_AccRolloverOpen ?b = int_dec ro"
    "ct_AccFundingOpen ?b = int_dec fo" "word_of_int (ct_Leverage ?b) = te_Leverage ?k" "te_LiqThresholdP ?k = 90"
    using assms(1-4)
    by (simp_all add: ensureDynamicDefaults_def buildTrade_def entry_of_trade_def Let_def bigStr_def)
  have te: "te_OpenPrice ?k = Some op" "te_Collateral ?k = Some c" "te_AccRolloverOpen ?k = Some ro"
    "te_AccFundingOpen ?k = Some fo"
    using assms(1-4) by (simp_all add: entry_of_trade_def)
  have z: "calculateTradeTimeFeesAndLiq x1 x2 x3 x4 x5 x6 x7 x8 thr = calculateTradeTimeFeesAndLiq x1 x2 x3 x4 x5 x6 x7 x8 90"
    for x1 x2 x3 x4 x5 x6 x7 x8
    using assms(9) by (auto simp: calculateTradeTimeFeesAndLiq_def)
  have "snd (snd (calculateTradeTimeFeesAndLiq (int_dec op) (int_dec c) (int_dec ro) (int_dec fo) (int_dec rn)
      (if te_IsLong ?k then int_dec fl else int_dec fs) (te_IsLong ?k) (te_Leverage ?k) thr)) =
    ignore_err (currentLiquidationPrice ?k fee)"
    using fees_and_liq_agree [OF te assms(6-8)] unfolding z b(9) .
  then show ?thesis
    using assms(5)
    by (cases "currentLiquidationPrice ?k fee")
      (auto simp: setDynamicTradeFees_def b effective_liq_def set_if_def case_prod_beta Let_def bigStr_def ignore_err_def
        split: option.splits)
qed

definition demo_fee :: pair_fee_state where
  "demo_fee = \<lparr> pf_PairIndex = 1, pf_AccRollover = Some 5, pf_AccFundingLong = Some 3,
     pf_AccFundingShort = Some 4, pf_ProjectedAtLedger = 7 \<rparr>"

lemma shown_other_threshold:
  "let t = zero_trade\<lparr>tr_PairIndex := 1, tr_IsLong := True, tr_Leverage := 10, tr_OpenPrice := Some 1000,
         tr_Collateral := Some 500, tr_AccRolloverOpen := Some 2, tr_AccFundingOpen := Some 1\<rparr>;
       s = NewTradeState\<lparr>ts_fees := gm_put 1 demo_fee gm_empty\<rparr>
   in ct_CurrentLiqPrice (setDynamicTradeFees 50 (Some (int_dec 5)) (Some (int_dec 3)) (Some (int_dec 4))
        (buildTrade demo_db_opened t 2)) \<noteq>
      bigStr (effective_liq s 1 (entry_of_trade (TradeKey ''alice'' 1 2) t))"
  by (simp add: buildTrade_def setDynamicTradeFees_def ensureDynamicDefaults_def calculateTradeTimeFeesAndLiq_def
      parseBig_def set_if_def effective_liq_def FeeState_def cloneBig_def demo_fee_def entry_of_trade_def
      currentLiquidationPrice_def RolloverFeeForTrade_def FundingFeeForTrade_def LiquidationPrice_def hundred_def
      zero_trade_def ignore_err_def bigStr_def usdcScale_def demo_db_defs Let_def)

end
