(* ===== verification/Hub.thy ===== *)
theory Hub
  imports Trade_Cache
begin

text \<open>
  \<^verbatim>\<open>internal/wsgateway/hub.go\<close> and \<^verbatim>\<open>client.go\<close>: the websocket hub as a state machine.

  A client is a number, the identity of its \<open>*Client\<close>. The state has the hub's two maps, its
  queue \<open>broadcast\<close>, and of every client the channel \<open>send\<close>, what \<open>WritePump\<close> has written and
  how far the handler of its connection is. A send on a closed channel and a second close
  panic: \<open>None\<close>. The goroutines (the hub's loop, one reader and one writer per client, the
  cache and the price feed) interleave between the steps of \<open>hub_op\<close>; \<open>Subscribe\<close> is two
  steps, since it releases the lock before it sends the snapshot.

  Proved here: no channel is closed twice; without a client that is too slow, only a snapshot sent
  after the shutdown panics; a broadcast reaches exactly the subscribers, once each; a changed position reaches its
  trader. A slow client, on the other hand, crashes the hub at the next message.
\<close>

type_synonym client = nat

datatype message = Message (msg_Channel: string) (msg_Payload: string)

record chan =
  ch_buf :: "string list"
  ch_closed :: bool

text \<open>The handler of a connection: not there yet, between \<open>Register\<close> and the end of
  \<open>ReadPump\<close>, or returned.\<close>

datatype phase = Fresh | Reading | Left

record hub =
  hb_clients :: "(client, bool) gmap"
  hb_subscriptions :: "(string, (client, bool) gmap) gmap"
  hb_broadcast :: "message list"
  hb_send :: "client \<Rightarrow> chan"
  hb_written :: "client \<Rightarrow> string list"
  hb_phase :: "client \<Rightarrow> phase"
  hb_running :: bool

definition NewHub :: hub where
  "NewHub =
     \<lparr> hb_clients = gm_empty, hb_subscriptions = gm_empty, hb_broadcast = [],
       hb_send = (\<lambda>_. \<lparr> ch_buf = [], ch_closed = False \<rparr>), hb_written = (\<lambda>_. []),
       hb_phase = (\<lambda>_. Fresh), hb_running = True \<rparr>"

text \<open>The callback of \<open>NewHub\<close>: the messages queued when the cache changed for a trader.
  \<open>marshal\<close> is the JSON encoding at the end of \<open>GetSnapshot\<close> and \<open>GetAllSnapshot\<close>.\<close>

definition on_change ::
  "(snapshot \<Rightarrow> string + string) \<Rightarrow> (string + fee_query_row option list) option \<Rightarrow> string
   \<Rightarrow> trade_cache \<Rightarrow> message list" where
  "on_change marshal q trader c =
     (case marshal (GetSnapshot q trader c) of
        Inl err \<Rightarrow> []
      | Inr snapshot \<Rightarrow> [Message (''trader:'' @ trader) snapshot]) @
     (case marshal (GetAllSnapshot q c) of
        Inl err \<Rightarrow> []
      | Inr allSnap \<Rightarrow> [Message ''trades:all'' allSnap])"

section \<open>Channels\<close>

definition send_cap :: nat where "send_cap = 256"
definition broadcast_cap :: nat where "broadcast_cap = 256"

text \<open>\<open>select { case ch <- x: default: }\<close>: was it sent?\<close>

definition chan_send :: "string \<Rightarrow> chan \<Rightarrow> (bool \<times> chan) option" where
  "chan_send x ch =
     (if ch_closed ch then None
      else if length (ch_buf ch) < send_cap then Some (True, ch\<lparr>ch_buf := ch_buf ch @ [x]\<rparr>)
      else Some (False, ch))"

definition chan_close :: "chan \<Rightarrow> chan option" where
  "chan_close ch = (if ch_closed ch then None else Some (ch\<lparr>ch_closed := True\<rparr>))"

definition set_chan :: "client \<Rightarrow> chan \<Rightarrow> hub \<Rightarrow> hub" where
  "set_chan c ch h = h\<lparr>hb_send := (hb_send h)(c := ch)\<rparr>"

definition subs_of :: "hub \<Rightarrow> string \<Rightarrow> (client, bool) gmap" where
  "subs_of h channel = (case gm_get (hb_subscriptions h) channel of None \<Rightarrow> gm_empty | Some m \<Rightarrow> m)"

section \<open>The loop of Run\<close>

definition run_register :: "client \<Rightarrow> hub \<Rightarrow> hub" where
  "run_register c h = h\<lparr>hb_clients := gm_put c True (hb_clients h)\<rparr>"

definition run_unregister :: "client \<Rightarrow> hub \<Rightarrow> hub option" where
  "run_unregister c h =
     (case gm_get (hb_clients h) c of
        None \<Rightarrow> Some h
      | Some _ \<Rightarrow>
          let h = h\<lparr>hb_clients := gm_del c (hb_clients h)\<rparr>
          in (case chan_close (hb_send h c) of
                None \<Rightarrow> None
              | Some ch \<Rightarrow>
                  Some ((set_chan c ch h)\<lparr>hb_subscriptions :=
                    map (\<lambda>(channel, subs). (channel, gm_del c subs)) (hb_subscriptions h)\<rparr>)))"

definition deliver :: "string \<Rightarrow> client \<Rightarrow> hub \<Rightarrow> hub option" where
  "deliver payload c h =
     (case chan_send payload (hb_send h c) of
        None \<Rightarrow> None
      | Some (True, ch) \<Rightarrow> Some (set_chan c ch h)
      | Some (False, ch) \<Rightarrow>
          (case chan_close ch of
             None \<Rightarrow> None
           | Some ch \<Rightarrow> Some ((set_chan c ch h)\<lparr>hb_clients := gm_del c (hb_clients h)\<rparr>)))"

fun deliver_all :: "string \<Rightarrow> client list \<Rightarrow> hub \<Rightarrow> hub option" where
  "deliver_all payload [] h = Some h"
| "deliver_all payload (c # cs) h =
     (case deliver payload c h of None \<Rightarrow> None | Some h \<Rightarrow> deliver_all payload cs h)"

definition run_broadcast :: "hub \<Rightarrow> hub option" where
  "run_broadcast h =
     (case hb_broadcast h of
        [] \<Rightarrow> Some h
      | msg # queue \<Rightarrow>
          deliver_all (msg_Payload msg) (map fst (subs_of h (msg_Channel msg)))
            (h\<lparr>hb_broadcast := queue\<rparr>))"

fun close_each :: "client list \<Rightarrow> hub \<Rightarrow> hub option" where
  "close_each [] h = Some h"
| "close_each (c # cs) h =
     (case chan_close (hb_send h c) of
        None \<Rightarrow> None
      | Some ch \<Rightarrow> close_each cs (set_chan c ch h))"

definition closeAll :: "hub \<Rightarrow> hub option" where
  "closeAll h =
     map_option (\<lambda>h. h\<lparr>hb_clients := gm_empty, hb_subscriptions := gm_empty\<rparr>)
       (close_each (map fst (hb_clients h)) h)"

section \<open>Subscriptions\<close>

definition sub_add :: "client \<Rightarrow> string \<Rightarrow> hub \<Rightarrow> hub" where
  "sub_add c channel h =
     h\<lparr>hb_subscriptions :=
        gm_put channel (gm_put c True (subs_of h channel)) (hb_subscriptions h)\<rparr>"

text \<open>A send that is skipped when the buffer is full.\<close>

definition push :: "client \<Rightarrow> string \<Rightarrow> hub \<Rightarrow> hub option" where
  "push c x h = map_option (\<lambda>(sent, ch). set_chan c ch h) (chan_send x (hb_send h c))"

definition push_snapshot :: "client \<Rightarrow> string + string \<Rightarrow> hub \<Rightarrow> hub option" where
  "push_snapshot c r h = (case r of Inl err \<Rightarrow> Some h | Inr snapshot \<Rightarrow> push c snapshot h)"

definition Subscribe ::
  "(string \<Rightarrow> string + string) \<Rightarrow> string + string \<Rightarrow> client \<Rightarrow> string \<Rightarrow> hub \<Rightarrow> hub option" where
  "Subscribe snapshot all_snapshot c channel h =
     (let h = sub_add c channel h;
          h1 = (if length channel > 7 \<and> take 7 channel = ''trader:''
                then push_snapshot c (snapshot (drop 7 channel)) h else Some h)
      in case h1 of
           None \<Rightarrow> None
         | Some h \<Rightarrow> if channel = ''trades:all'' then push_snapshot c all_snapshot h else Some h)"

definition Unsubscribe :: "client \<Rightarrow> string \<Rightarrow> hub \<Rightarrow> hub" where
  "Unsubscribe c channel h =
     (case gm_get (hb_subscriptions h) channel of
        None \<Rightarrow> h
      | Some subs \<Rightarrow> h\<lparr>hb_subscriptions := gm_put channel (gm_del c subs) (hb_subscriptions h)\<rparr>)"

section \<open>Pumps\<close>

text \<open>A message of a client, as \<open>ReadPump\<close> handles it: \<open>unmarshal\<close> gives type and channel.\<close>

definition read_message ::
  "(string \<Rightarrow> string + (string \<times> string)) \<Rightarrow> (string \<Rightarrow> string + string) \<Rightarrow> string + string
   \<Rightarrow> client \<Rightarrow> string \<Rightarrow> hub \<Rightarrow> hub option" where
  "read_message unmarshal snapshot all_snapshot c data h =
     (case unmarshal data of
        Inl err \<Rightarrow> Some h
      | Inr (typ, channel) \<Rightarrow>
          if typ = ''subscribe'' then
            if channel = [] then Some h else Subscribe snapshot all_snapshot c channel h
          else if typ = ''unsubscribe'' then
            if channel = [] then Some h else Some (Unsubscribe c channel h)
          else Some h)"

text \<open>\<open>WritePump\<close> takes the next message, also from a closed channel that is not empty.\<close>

definition write_next :: "client \<Rightarrow> hub \<Rightarrow> hub" where
  "write_next c h =
     (case ch_buf (hb_send h c) of
        [] \<Rightarrow> h
      | x # xs \<Rightarrow>
          (set_chan c ((hb_send h c)\<lparr>ch_buf := xs\<rparr>) h)\<lparr>hb_written :=
             (hb_written h)(c := hb_written h c @ [x])\<rparr>)"

text \<open>A write that fails has taken its message from the channel.\<close>

definition drop_next :: "client \<Rightarrow> hub \<Rightarrow> hub" where
  "drop_next c h = set_chan c ((hb_send h c)\<lparr>ch_buf := tl (ch_buf (hb_send h c))\<rparr>) h"

section \<open>Interleaving\<close>

datatype hub_op =
    OpRegister client
  | OpLeave client
  | OpSubAdd client string
  | OpPush client string
  | OpUnsubscribe client string
  | OpPublish message
  | OpBroadcast
  | OpWrite client
  | OpDrop client
  | OpCloseAll

definition set_phase :: "client \<Rightarrow> phase \<Rightarrow> hub \<Rightarrow> hub" where
  "set_phase c p h = h\<lparr>hb_phase := (hb_phase h)(c := p)\<rparr>"

fun exec :: "hub_op \<Rightarrow> hub \<Rightarrow> hub option" where
  "exec (OpRegister c) h = Some (set_phase c Reading (run_register c h))"
| "exec (OpLeave c) h = map_option (set_phase c Left) (run_unregister c h)"
| "exec (OpSubAdd c channel) h = Some (sub_add c channel h)"
| "exec (OpPush c x) h = push c x h"
| "exec (OpUnsubscribe c channel) h = Some (Unsubscribe c channel h)"
| "exec (OpPublish msg) h = Some (h\<lparr>hb_broadcast := hb_broadcast h @ [msg]\<rparr>)"
| "exec OpBroadcast h = run_broadcast h"
| "exec (OpWrite c) h = Some (write_next c h)"
| "exec (OpDrop c) h = Some (drop_next c h)"
| "exec OpCloseAll h = map_option (\<lambda>h. h\<lparr>hb_running := False\<rparr>) (closeAll h)"

text \<open>
  When a step can happen: the channels \<open>register\<close> and \<open>unregister\<close> are unbuffered, so their
  steps need the hub's loop; \<open>broadcast\<close> holds 256 messages; a client's reader acts between
  its registration and its end.
\<close>

fun enabled :: "hub_op \<Rightarrow> hub \<Rightarrow> bool" where
  "enabled (OpRegister c) h \<longleftrightarrow> hb_running h \<and> hb_phase h c = Fresh"
| "enabled (OpLeave c) h \<longleftrightarrow> hb_running h \<and> hb_phase h c = Reading"
| "enabled (OpSubAdd c channel) h \<longleftrightarrow> hb_phase h c = Reading"
| "enabled (OpPush c x) h \<longleftrightarrow> hb_phase h c = Reading"
| "enabled (OpUnsubscribe c channel) h \<longleftrightarrow> hb_phase h c = Reading"
| "enabled (OpPublish msg) h \<longleftrightarrow> length (hb_broadcast h) < broadcast_cap"
| "enabled OpBroadcast h \<longleftrightarrow> hb_running h \<and> hb_broadcast h \<noteq> []"
| "enabled (OpWrite c) h \<longleftrightarrow> ch_buf (hb_send h c) \<noteq> []"
| "enabled (OpDrop c) h \<longleftrightarrow> ch_buf (hb_send h c) \<noteq> []"
| "enabled OpCloseAll h \<longleftrightarrow> hb_running h"

text \<open>The states reached by steps that satisfy a condition.\<close>

inductive hub_reachable :: "(hub_op \<Rightarrow> hub \<Rightarrow> bool) \<Rightarrow> hub \<Rightarrow> bool" for P where
  start: "hub_reachable P NewHub"
| step: "hub_reachable P h \<Longrightarrow> enabled op h \<Longrightarrow> P op h \<Longrightarrow> exec op h = Some h' \<Longrightarrow> hub_reachable P h'"

text \<open>A step that meets no full buffer.\<close>

fun calm :: "hub_op \<Rightarrow> hub \<Rightarrow> bool" where
  "calm OpBroadcast h \<longleftrightarrow>
     (case hb_broadcast h of
        [] \<Rightarrow> True
      | msg # _ \<Rightarrow> \<forall>c \<in> set (map fst (subs_of h (msg_Channel msg))). length (ch_buf (hb_send h c)) < send_cap)"
| "calm _ h \<longleftrightarrow> True"

section \<open>The invariant\<close>

abbreviation registered :: "hub \<Rightarrow> client \<Rightarrow> bool" where
  "registered h c \<equiv> gm_get (hb_clients h) c \<noteq> None"

abbreviation subscribed :: "hub \<Rightarrow> string \<Rightarrow> client \<Rightarrow> bool" where
  "subscribed h channel c \<equiv> gm_get (subs_of h channel) c \<noteq> None"

abbreviation closed :: "hub \<Rightarrow> client \<Rightarrow> bool" where
  "closed h c \<equiv> ch_closed (hb_send h c)"

definition hub_ok :: "hub \<Rightarrow> bool" where
  "hub_ok h \<longleftrightarrow> gm_wf (hb_clients h) \<and> (\<forall>channel. gm_wf (subs_of h channel)) \<and>
     (\<forall>c. registered h c \<longrightarrow> \<not> closed h c \<and> hb_phase h c = Reading) \<and>
     (\<forall>channel c. subscribed h channel c \<longrightarrow> hb_phase h c \<noteq> Fresh) \<and>
     (\<forall>c. hb_phase h c = Fresh \<longrightarrow> \<not> closed h c)"

text \<open>What holds in addition as long as every step is calm: a client is registered while the hub runs and its
  reader is active, and after the shutdown the channels of all readers are closed.\<close>

definition calm_ok :: "hub \<Rightarrow> bool" where
  "calm_ok h \<longleftrightarrow> hub_ok h \<and>
     (\<forall>c. hb_phase h c = Reading \<longrightarrow> (if hb_running h then registered h c else closed h c)) \<and>
     (\<forall>channel c. subscribed h channel c \<longrightarrow> hb_phase h c = Reading)"

lemma gm_keys: "c \<in> set (map fst m) \<longleftrightarrow> gm_get m c \<noteq> None"
  by (simp add: gm_get_def map_of_eq_None_iff)

lemma gm_wf_keys: "gm_wf m \<Longrightarrow> distinct (map fst m)"
  by (simp add: gm_wf_def)

lemma subs_of_frame:
  "hb_subscriptions h' = hb_subscriptions h \<Longrightarrow> subs_of h' = subs_of h"
  by (simp add: subs_of_def fun_eq_iff)

lemma set_chan_frame [simp]:
  "hb_clients (set_chan c ch h) = hb_clients h" "hb_subscriptions (set_chan c ch h) = hb_subscriptions h"
  "hb_broadcast (set_chan c ch h) = hb_broadcast h" "hb_phase (set_chan c ch h) = hb_phase h"
  "hb_running (set_chan c ch h) = hb_running h" "hb_written (set_chan c ch h) = hb_written h"
  "subs_of (set_chan c ch h) = subs_of h"
  "hb_send (set_chan c ch h) = (hb_send h)(c := ch)"
  by (simp_all add: set_chan_def subs_of_def fun_eq_iff)

lemma chan_send_closed: "chan_send x ch = Some (b, ch') \<Longrightarrow> \<not> ch_closed ch \<and> \<not> ch_closed ch'"
  by (auto simp: chan_send_def split: if_splits)

lemma chan_close_closed: "chan_close ch = Some ch' \<longleftrightarrow> \<not> ch_closed ch \<and> ch' = ch\<lparr>ch_closed := True\<rparr>"
  by (auto simp: chan_close_def split: if_splits)

text \<open>A delivery appends to one channel or, when it is full, closes it.\<close>

definition delivered :: "string \<Rightarrow> chan \<Rightarrow> chan" where
  "delivered x ch =
     (if length (ch_buf ch) < send_cap then ch\<lparr>ch_buf := ch_buf ch @ [x]\<rparr> else ch\<lparr>ch_closed := True\<rparr>)"

lemma deliver_eq:
  "deliver x c h =
     (if closed h c then None
      else Some ((set_chan c (delivered x (hb_send h c)) h)\<lparr>hb_clients :=
        (if length (ch_buf (hb_send h c)) < send_cap then hb_clients h else gm_del c (hb_clients h))\<rparr>))"
  by (simp add: deliver_def chan_send_def chan_close_def delivered_def set_chan_def)

lemma deliver_all_result:
  assumes "distinct cs" "\<forall>c \<in> set cs. \<not> closed h c"
  obtains h' where "deliver_all x cs h = Some h'"
    "hb_send h' = (\<lambda>c. if c \<in> set cs then delivered x (hb_send h c) else hb_send h c)"
    "gm_get (hb_clients h') =
       (\<lambda>c. if c \<in> set cs \<and> \<not> length (ch_buf (hb_send h c)) < send_cap then None else gm_get (hb_clients h) c)"
    "hb_subscriptions h' = hb_subscriptions h" "hb_broadcast h' = hb_broadcast h"
    "hb_phase h' = hb_phase h" "hb_running h' = hb_running h"
  using assms
proof (induction cs arbitrary: h thesis)
  case Nil
  show ?case by (rule Nil(1) [of h]) simp_all
next
  case (Cons c cs)
  let ?h = "(set_chan c (delivered x (hb_send h c)) h)\<lparr>hb_clients :=
    (if length (ch_buf (hb_send h c)) < send_cap then hb_clients h else gm_del c (hb_clients h))\<rparr>"
  have d: "deliver x c h = Some ?h" using Cons.prems(3) by (simp add: deliver_eq)
  have c: "c \<notin> set cs" "distinct cs" "\<forall>c \<in> set cs. \<not> closed ?h c"
    using Cons.prems(2,3) by auto
  show ?case
  proof (rule Cons.IH [OF _ c(2,3)])
    fix h'
    assume h': "deliver_all x cs ?h = Some h'"
      "hb_send h' = (\<lambda>c. if c \<in> set cs then delivered x (hb_send ?h c) else hb_send ?h c)"
      "gm_get (hb_clients h') =
         (\<lambda>c. if c \<in> set cs \<and> \<not> length (ch_buf (hb_send ?h c)) < send_cap then None else gm_get (hb_clients ?h) c)"
      "hb_subscriptions h' = hb_subscriptions ?h" "hb_broadcast h' = hb_broadcast ?h"
      "hb_phase h' = hb_phase ?h" "hb_running h' = hb_running ?h"
    show thesis
    proof (rule Cons.prems(1))
      show "deliver_all x (c # cs) h = Some h'" using d h'(1) by simp
      show "hb_send h' = (\<lambda>c'. if c' \<in> set (c # cs) then delivered x (hb_send h c') else hb_send h c')"
        using c(1) h'(2) by (auto simp: fun_eq_iff)
      show "gm_get (hb_clients h') = (\<lambda>c'. if c' \<in> set (c # cs) \<and> \<not> length (ch_buf (hb_send h c')) < send_cap
          then None else gm_get (hb_clients h) c')"
        using c(1) h'(3) by (auto simp: fun_eq_iff)
    qed (use h'(4-) in simp_all)
  qed
qed

lemma deliver_all_open:
  assumes "deliver_all x cs h = Some h'" "distinct cs"
  shows "\<forall>c \<in> set cs. \<not> closed h c"
  using assms
proof (induction cs arbitrary: h)
  case (Cons c cs)
  then obtain h1 where h1: "deliver x c h = Some h1" "deliver_all x cs h1 = Some h'"
    by (auto split: option.splits)
  then have "\<forall>c' \<in> set cs. \<not> closed h1 c'" using Cons by simp
  moreover have "hb_send h1 = (hb_send h)(c := delivered x (hb_send h c))" "\<not> closed h c"
    using h1(1) by (auto simp: deliver_eq split: if_splits)
  ultimately show ?case using Cons.prems(2) by (auto split: if_splits)
qed simp

lemma deliver_all_wf: "deliver_all x cs h = Some h' \<Longrightarrow> gm_wf (hb_clients h) \<Longrightarrow> gm_wf (hb_clients h')"
proof (induction cs arbitrary: h)
  case (Cons c cs)
  from Cons.prems(1) obtain h1 where h1: "deliver x c h = Some h1" "deliver_all x cs h1 = Some h'"
    by (auto split: option.splits)
  have "gm_wf (hb_clients h1)" using h1(1) Cons.prems(2) by (auto simp: deliver_eq split: if_splits)
  then show ?case by (rule Cons.IH [OF h1(2)])
qed simp

lemma closed_delivered: "ch_closed (delivered x ch) \<longleftrightarrow> ch_closed ch \<or> \<not> length (ch_buf ch) < send_cap"
  by (simp add: delivered_def)

lemma close_each_result:
  assumes "distinct cs" "\<forall>c \<in> set cs. \<not> closed h c"
  shows "close_each cs h =
    Some (h\<lparr>hb_send := \<lambda>c. if c \<in> set cs then (hb_send h c)\<lparr>ch_closed := True\<rparr> else hb_send h c\<rparr>)"
  using assms
proof (induction cs arbitrary: h)
  case (Cons c cs)
  let ?h = "set_chan c ((hb_send h c)\<lparr>ch_closed := True\<rparr>) h"
  have "close_each cs ?h = Some (?h\<lparr>hb_send := \<lambda>c'. if c' \<in> set cs then (hb_send ?h c')\<lparr>ch_closed := True\<rparr> else hb_send ?h c'\<rparr>)"
    using Cons.prems by (intro Cons.IH) auto
  moreover have "?h\<lparr>hb_send := \<lambda>c'. if c' \<in> set cs then (hb_send ?h c')\<lparr>ch_closed := True\<rparr> else hb_send ?h c'\<rparr> =
      h\<lparr>hb_send := \<lambda>c'. if c' \<in> set (c # cs) then (hb_send h c')\<lparr>ch_closed := True\<rparr> else hb_send h c'\<rparr>"
    using Cons.prems(1) by (auto simp: set_chan_def fun_eq_iff)
  ultimately show ?case using Cons.prems(2) by (simp add: chan_close_def)
qed simp

lemma closeAll_result:
  assumes "hub_ok h"
  shows "closeAll h = Some (h\<lparr>hb_send := \<lambda>c. if registered h c then (hb_send h c)\<lparr>ch_closed := True\<rparr> else hb_send h c,
    hb_clients := gm_empty, hb_subscriptions := gm_empty\<rparr>)"
proof -
  have "distinct (map fst (hb_clients h))" "\<forall>c \<in> set (map fst (hb_clients h)). \<not> closed h c"
    using assms unfolding gm_keys hub_ok_def by (simp_all only: gm_wf_keys) (metis gm_keys)
  from close_each_result [OF this] show ?thesis by (simp add: closeAll_def gm_keys del: set_map)
qed

lemma map_of_map_vals: "map_of (map (\<lambda>(k, v). (k, f v)) m) k = map_option f (map_of m k)"
  by (induction m) auto

lemma subs_of_del:
  assumes "hb_subscriptions h' = map (\<lambda>(channel, subs). (channel, gm_del c subs)) (hb_subscriptions h)"
  shows "subs_of h' channel = gm_del c (subs_of h channel)"
proof (cases "map_of (hb_subscriptions h) channel")
  case None
  moreover have "gm_del c gm_empty = (gm_empty :: (client, bool) gmap)" by (rule gm_del_absent) simp
  ultimately show ?thesis by (simp add: subs_of_def gm_get_def assms map_of_map_vals)
next
  case (Some m)
  then show ?thesis by (simp add: subs_of_def gm_get_def assms map_of_map_vals)
qed

lemma run_unregister_result:
  assumes "hub_ok h"
  obtains h' where "run_unregister c h = Some h'" "hb_phase h' = hb_phase h" "hb_running h' = hb_running h"
    "gm_wf (hb_clients h')" "\<And>c'. registered h' c' \<longleftrightarrow> registered h c' \<and> c' \<noteq> c"
    "\<And>c'. closed h' c' \<longleftrightarrow> closed h c' \<or> registered h c \<and> c' = c"
    "\<And>channel. subs_of h' channel = (if registered h c then gm_del c (subs_of h channel) else subs_of h channel)"
proof (cases "registered h c")
  case True
  let ?h = "(set_chan c ((hb_send h c)\<lparr>ch_closed := True\<rparr>) (h\<lparr>hb_clients := gm_del c (hb_clients h)\<rparr>))
    \<lparr>hb_subscriptions := map (\<lambda>(channel, subs). (channel, gm_del c subs)) (hb_subscriptions h)\<rparr>"
  have "run_unregister c h = Some ?h"
    using True assms by (auto simp: run_unregister_def chan_close_def hub_ok_def)
  then show ?thesis
    by (rule that) (use True assms subs_of_del [of ?h c h] in \<open>auto simp: hub_ok_def\<close>)
next
  case False
  then have "run_unregister c h = Some h" by (simp add: run_unregister_def)
  then show ?thesis by (rule that) (use False assms in \<open>auto simp: hub_ok_def\<close>)
qed

lemma subs_of_put:
  "hb_subscriptions h' = gm_put channel m (hb_subscriptions h) \<Longrightarrow>
   subs_of h' channel' = (if channel' = channel then m else subs_of h channel')"
  by (simp add: subs_of_def)

lemma Unsubscribe_subs:
  "subs_of (Unsubscribe c channel h) channel' =
     (if channel' = channel then gm_del c (subs_of h channel) else subs_of h channel')"
  by (auto simp: Unsubscribe_def subs_of_def gm_del_absent split: option.splits)

lemma Unsubscribe_frame [simp]:
  "hb_clients (Unsubscribe c channel h) = hb_clients h" "hb_send (Unsubscribe c channel h) = hb_send h"
  "hb_phase (Unsubscribe c channel h) = hb_phase h" "hb_running (Unsubscribe c channel h) = hb_running h"
  by (simp_all add: Unsubscribe_def split: option.splits)

text \<open>The effect of a step on what the invariants mention.\<close>

lemma run_broadcast_result:
  assumes "run_broadcast h = Some h'" "hub_ok h"
  obtains cs where "\<forall>c \<in> set cs. hb_phase h c \<noteq> Fresh \<and> \<not> closed h c"
    "gm_wf (hb_clients h')" "subs_of h' = subs_of h" "hb_phase h' = hb_phase h" "hb_running h' = hb_running h"
    "\<And>c. closed h' c \<longleftrightarrow> closed h c \<or> c \<in> set cs \<and> \<not> length (ch_buf (hb_send h c)) < send_cap"
    "\<And>c. registered h' c \<longleftrightarrow> registered h c \<and> \<not> (c \<in> set cs \<and> \<not> length (ch_buf (hb_send h c)) < send_cap)"
    "calm OpBroadcast h \<Longrightarrow> \<forall>c \<in> set cs. length (ch_buf (hb_send h c)) < send_cap"
proof (cases "hb_broadcast h")
  case Nil
  then show ?thesis
    using assms by (intro that [of "[]"]) (auto simp: run_broadcast_def hub_ok_def)
next
  case (Cons msg queue)
  let ?cs = "map fst (subs_of h (msg_Channel msg))" and ?h = "h\<lparr>hb_broadcast := queue\<rparr>"
  have d: "deliver_all (msg_Payload msg) ?cs ?h = Some h'"
    using assms(1) Cons by (simp add: run_broadcast_def)
  have wf: "distinct ?cs" using assms(2) by (simp only: hub_ok_def gm_wf_keys)
  note op = deliver_all_open [OF d wf]
  obtain h'' where h'': "deliver_all (msg_Payload msg) ?cs ?h = Some h''"
    "hb_send h'' = (\<lambda>c. if c \<in> set ?cs then delivered (msg_Payload msg) (hb_send ?h c) else hb_send ?h c)"
    "gm_get (hb_clients h'') =
       (\<lambda>c. if c \<in> set ?cs \<and> \<not> length (ch_buf (hb_send ?h c)) < send_cap then None else gm_get (hb_clients ?h) c)"
    "hb_subscriptions h'' = hb_subscriptions ?h" "hb_broadcast h'' = hb_broadcast ?h"
    "hb_phase h'' = hb_phase ?h" "hb_running h'' = hb_running ?h"
    by (rule deliver_all_result [OF wf op]) blast
  then have e: "h'' = h'" using d by simp
  have "\<forall>c \<in> set ?cs. hb_phase h c \<noteq> Fresh"
    using assms(2) by (metis gm_keys hub_ok_def)
  moreover have "gm_wf (hb_clients h')" using deliver_all_wf [OF d] assms(2) by (simp add: hub_ok_def)
  ultimately show ?thesis
  proof (intro that [of ?cs])
    show "closed h' c \<longleftrightarrow> closed h c \<or> c \<in> set ?cs \<and> \<not> length (ch_buf (hb_send h c)) < send_cap" for c
      using h''(2) unfolding e by (simp add: closed_delivered)
    show "registered h' c \<longleftrightarrow> registered h c \<and> \<not> (c \<in> set ?cs \<and> \<not> length (ch_buf (hb_send h c)) < send_cap)" for c
      using h''(3) unfolding e by simp
    show "calm OpBroadcast h \<Longrightarrow> \<forall>c \<in> set ?cs. length (ch_buf (hb_send h c)) < send_cap"
      using Cons by simp
    show "subs_of h' = subs_of h" using h''(4) unfolding e by (intro subs_of_frame) simp
    show "\<forall>c \<in> set ?cs. hb_phase h c \<noteq> Fresh \<and> \<not> closed h c"
      using op \<open>\<forall>c \<in> set ?cs. hb_phase h c \<noteq> Fresh\<close> by simp
  qed (use h''(6,7) e in simp_all)
qed

lemma hub_ok_cong:
  assumes "hb_clients h' = hb_clients h" "subs_of h' = subs_of h" "hb_phase h' = hb_phase h"
    and "\<And>c. closed h' c = closed h c"
  shows "hub_ok h' = hub_ok h"
  using assms by (simp add: hub_ok_def)

lemma hub_ok_exec:
  assumes "hub_ok h" "enabled op h" "exec op h = Some h'"
  shows "hub_ok h'"
proof (cases op)
  case (OpRegister c)
  with assms have "h' = set_phase c Reading (run_register c h)" "hb_phase h c = Fresh" by simp_all
  then show ?thesis
    using assms(1) by (auto simp: hub_ok_def set_phase_def run_register_def subs_of_def)
next
  case (OpLeave c)
  obtain h1 where h1: "run_unregister c h = Some h1" "hb_phase h1 = hb_phase h" "hb_running h1 = hb_running h"
    "gm_wf (hb_clients h1)" "\<And>c'. registered h1 c' \<longleftrightarrow> registered h c' \<and> c' \<noteq> c"
    "\<And>c'. closed h1 c' \<longleftrightarrow> closed h c' \<or> registered h c \<and> c' = c"
    "\<And>channel. subs_of h1 channel = (if registered h c then gm_del c (subs_of h channel) else subs_of h channel)"
    by (rule run_unregister_result [OF assms(1), of c]) (rule that)
  have h': "h' = set_phase c Left h1" "hb_phase h c = Reading" using OpLeave assms h1(1) by simp_all
  have s: "subs_of h' = subs_of h1" by (simp add: h' set_phase_def subs_of_def fun_eq_iff)
  have f: "hb_clients h' = hb_clients h1" "hb_send h' = hb_send h1" "hb_phase h' = (hb_phase h)(c := Left)"
    by (simp_all add: h' h1(2) set_phase_def)
  show ?thesis
    using assms(1) unfolding hub_ok_def s f h1(5,6,7) by (auto simp: h1(4))
next
  case (OpSubAdd c channel)
  then have h': "h' = sub_add c channel h" "hb_phase h c = Reading" using assms by simp_all
  have s: "subs_of h' channel' = (if channel' = channel then gm_put c True (subs_of h channel) else subs_of h channel')"
    for channel' by (rule subs_of_put) (simp add: h' sub_add_def)
  have f: "hb_clients h' = hb_clients h" "hb_send h' = hb_send h" "hb_phase h' = hb_phase h"
    by (simp_all add: h' sub_add_def)
  show ?thesis using assms(1) h'(2) unfolding hub_ok_def s f by auto
next
  case (OpPush c x)
  then obtain b ch where h': "chan_send x (hb_send h c) = Some (b, ch)" "h' = set_chan c ch h"
    using assms by (auto simp: push_def)
  with chan_send_closed [OF h'(1)] show ?thesis using assms(1) by (auto simp: hub_ok_def)
next
  case (OpUnsubscribe c channel)
  then have h': "h' = Unsubscribe c channel h" using assms by simp
  show ?thesis using assms(1) unfolding hub_ok_def h' Unsubscribe_subs Unsubscribe_frame by auto
next
  case (OpPublish msg)
  then have "hub_ok h' = hub_ok h" using assms by (intro hub_ok_cong subs_of_frame) auto
  then show ?thesis using assms(1) by simp
next
  case OpBroadcast
  then have "run_broadcast h = Some h'" using assms by simp
  then show ?thesis
  proof (rule run_broadcast_result [OF _ assms(1)])
    fix cs
    assume cs: "\<forall>c \<in> set cs. hb_phase h c \<noteq> Fresh \<and> \<not> closed h c"
      "gm_wf (hb_clients h')" "subs_of h' = subs_of h" "hb_phase h' = hb_phase h"
      "\<And>c. closed h' c \<longleftrightarrow> closed h c \<or> c \<in> set cs \<and> \<not> length (ch_buf (hb_send h c)) < send_cap"
      "\<And>c. registered h' c \<longleftrightarrow> registered h c \<and> \<not> (c \<in> set cs \<and> \<not> length (ch_buf (hb_send h c)) < send_cap)"
    show ?thesis using assms(1) cs(1,2) unfolding hub_ok_def cs(3-6) by blast
  qed
next
  case (OpWrite c)
  then have h': "h' = write_next c h" using assms by simp
  have "hb_clients h' = hb_clients h" "hb_phase h' = hb_phase h" "subs_of h' = subs_of h" "\<And>c'. closed h' c' = closed h c'"
    by (auto simp: h' write_next_def subs_of_def fun_eq_iff split: list.splits)
  then show ?thesis using assms(1) hub_ok_cong [of h' h] by simp
next
  case (OpDrop c)
  then have h': "h' = drop_next c h" using assms by simp
  have "hb_clients h' = hb_clients h" "hb_phase h' = hb_phase h" "subs_of h' = subs_of h" "\<And>c'. closed h' c' = closed h c'"
    by (simp_all add: h' drop_next_def)
  then show ?thesis using assms(1) hub_ok_cong [of h' h] by simp
next
  case OpCloseAll
  then have h': "h' = h\<lparr>hb_send := \<lambda>c. if registered h c then (hb_send h c)\<lparr>ch_closed := True\<rparr> else hb_send h c,
    hb_clients := gm_empty, hb_subscriptions := gm_empty, hb_running := False\<rparr>"
    using assms closeAll_result [OF assms(1)] by simp
  show ?thesis using assms(1) by (auto simp: h' hub_ok_def subs_of_def)
qed

lemma calm_ok_cong:
  assumes "hb_clients h' = hb_clients h" "subs_of h' = subs_of h" "hb_phase h' = hb_phase h"
    and "hb_running h' = hb_running h" "\<And>c. closed h' c = closed h c"
  shows "calm_ok h' = calm_ok h"
  using assms hub_ok_cong [of h' h] by (simp add: calm_ok_def)

lemma calm_ok_exec:
  assumes "calm_ok h" "enabled op h" "calm op h" "exec op h = Some h'"
  shows "calm_ok h'"
proof -
  have ok: "hub_ok h" and ok': "hub_ok h'" using assms hub_ok_exec by (auto simp: calm_ok_def)
  show ?thesis
  proof (cases op)
    case (OpRegister c)
    with assms have h': "h' = set_phase c Reading (run_register c h)" "hb_phase h c = Fresh" "hb_running h" by simp_all
    then have "subs_of h' = subs_of h" by (intro subs_of_frame) (simp add: set_phase_def run_register_def)
    then show ?thesis
      using assms(1) ok' h' by (auto simp: calm_ok_def set_phase_def run_register_def)
  next
    case (OpLeave c)
    obtain h1 where h1: "run_unregister c h = Some h1" "hb_phase h1 = hb_phase h" "hb_running h1 = hb_running h"
      "gm_wf (hb_clients h1)" "\<And>c'. registered h1 c' \<longleftrightarrow> registered h c' \<and> c' \<noteq> c"
      "\<And>c'. closed h1 c' \<longleftrightarrow> closed h c' \<or> registered h c \<and> c' = c"
      "\<And>channel. subs_of h1 channel = (if registered h c then gm_del c (subs_of h channel) else subs_of h channel)"
      by (rule run_unregister_result [OF ok, of c]) (rule that)
    have h': "h' = set_phase c Left h1" "registered h c" using OpLeave assms h1(1) by (auto simp: calm_ok_def)
    have s: "subs_of h' = subs_of h1" by (rule subs_of_frame) (simp add: h' set_phase_def)
    have f: "hb_clients h' = hb_clients h1" "hb_phase h' = (hb_phase h)(c := Left)" "hb_running h' = hb_running h"
      by (simp_all add: h' h1(2,3) set_phase_def)
    show ?thesis
      using assms(1,2) ok' h'(2) OpLeave unfolding calm_ok_def s f h1(5,7) by auto
  next
    case (OpSubAdd c channel)
    then have h': "h' = sub_add c channel h" "hb_phase h c = Reading" using assms by simp_all
    have s: "subs_of h' channel' = (if channel' = channel then gm_put c True (subs_of h channel) else subs_of h channel')"
      for channel' by (rule subs_of_put) (simp add: h' sub_add_def)
    have f: "hb_clients h' = hb_clients h" "hb_running h' = hb_running h" "hb_phase h' = hb_phase h" "hb_send h' = hb_send h"
      by (simp_all add: h' sub_add_def)
    show ?thesis using assms(1) ok' h'(2) unfolding calm_ok_def s f by auto
  next
    case (OpPush c x)
    then obtain b ch where h': "chan_send x (hb_send h c) = Some (b, ch)" "h' = set_chan c ch h"
      using assms by (auto simp: push_def)
    moreover from h'(1) have "ch_closed ch = closed h c" by (auto simp: chan_send_def split: if_splits)
    ultimately show ?thesis using assms(1) ok' by (auto simp: calm_ok_def)
  next
    case (OpUnsubscribe c channel)
    then have h': "h' = Unsubscribe c channel h" using assms by simp
    show ?thesis using assms(1) ok' unfolding calm_ok_def h' Unsubscribe_subs Unsubscribe_frame by auto
  next
    case (OpPublish msg)
    then have "calm_ok h' = calm_ok h" using assms by (intro calm_ok_cong subs_of_frame) auto
    then show ?thesis using assms(1) by simp
  next
    case OpBroadcast
    then have "run_broadcast h = Some h'" using assms by simp
    then show ?thesis
    proof (rule run_broadcast_result [OF _ ok])
      fix cs
      assume cs: "subs_of h' = subs_of h" "hb_phase h' = hb_phase h" "hb_running h' = hb_running h"
        "\<And>c. registered h' c \<longleftrightarrow> registered h c \<and> \<not> (c \<in> set cs \<and> \<not> length (ch_buf (hb_send h c)) < send_cap)"
        "calm OpBroadcast h \<Longrightarrow> \<forall>c \<in> set cs. length (ch_buf (hb_send h c)) < send_cap"
      then show ?thesis using assms(1-3) ok' OpBroadcast by (auto simp: calm_ok_def)
    qed
  next
    case (OpWrite c)
    then have h': "h' = write_next c h" using assms by simp
    have "calm_ok h' = calm_ok h"
      by (intro calm_ok_cong subs_of_frame) (auto simp: h' write_next_def split: list.splits)
    then show ?thesis using assms(1) by simp
  next
    case (OpDrop c)
    then have h': "h' = drop_next c h" using assms by simp
    have "calm_ok h' = calm_ok h" by (intro calm_ok_cong subs_of_frame) (simp_all add: h' drop_next_def)
    then show ?thesis using assms(1) by simp
  next
    case OpCloseAll
    then have "hb_running h' = False" "hb_subscriptions h' = gm_empty" "hb_phase h' = hb_phase h" "hb_running h"
      "\<And>c. registered h c \<Longrightarrow> closed h' c"
      using assms closeAll_result [OF ok] by auto
    then show ?thesis using ok' assms(1) by (auto simp: calm_ok_def subs_of_def)
  qed
qed

lemma NewHub_ok: "hub_ok NewHub" "calm_ok NewHub"
  by (simp_all add: hub_ok_def calm_ok_def NewHub_def subs_of_def)

lemma reachable_ok: "hub_reachable P h \<Longrightarrow> hub_ok h"
  by (induction rule: hub_reachable.induct) (auto intro: NewHub_ok hub_ok_exec)

lemma reachable_calm: "hub_reachable calm h \<Longrightarrow> calm_ok h"
  by (induction rule: hub_reachable.induct) (auto intro: NewHub_ok calm_ok_exec)

section \<open>Properties\<close>

text \<open>A send channel is closed at most once. In every state that the hub, its clients, the cache and
  the price feed can reach together, under every interleaving and with clients as slow as they like, a
  client that is registered has an open channel; so neither a client that leaves nor the shutdown panics
  with a second close.\<close>

lemma hub_closes_once:
  assumes "hub_reachable (\<lambda>_ _. True) h"
  shows "(\<forall>c. registered h c \<longrightarrow> \<not> closed h c) \<and> exec (OpLeave c) h \<noteq> None \<and> exec OpCloseAll h \<noteq> None"
proof -
  have ok: "hub_ok h" by (rule reachable_ok [OF assms])
  obtain h1 where "run_unregister c h = Some h1"
    by (rule run_unregister_result [OF ok, of c])
  with ok closeAll_result [OF ok] show ?thesis by (simp add: hub_ok_def)
qed

text \<open>C9: as long as no client's buffer of 256 messages runs full, the gateway panics in one situation only. In
  every state reached without a full buffer, of all steps that can happen (a client that joins, leaves,
  subscribes or unsubscribes, a snapshot that is sent, a message that is queued, delivered or written, the
  shutdown) exactly one kind panics: a snapshot that Subscribe sends to a client after the shutdown has closed
  the channels, since a reader goes on until its connection ends.\<close>

theorem hub_panics_only_after_shutdown:
  assumes "hub_reachable calm h" "enabled op h" "calm op h"
  shows "exec op h = None \<longleftrightarrow> \<not> hb_running h \<and> (\<exists>c x. op = OpPush c x)"
proof -
  have c: "calm_ok h" by (rule reachable_calm [OF assms(1)])
  then have ok: "hub_ok h" by (simp add: calm_ok_def)
  show ?thesis
  proof (cases op)
    case (OpLeave c)
    then show ?thesis using run_unregister_result [OF ok, of c]
      by (metis exec.simps(2) hub_op.distinct option.distinct(1) option.simps(9))
  next
    case (OpPush c x)
    then have "closed h c \<longleftrightarrow> \<not> hb_running h" using c ok assms(2) by (auto simp: calm_ok_def hub_ok_def split: if_splits)
    then show ?thesis using OpPush by (auto simp: push_def chan_send_def)
  next
    case OpBroadcast
    obtain msg queue where q: "hb_broadcast h = msg # queue" using OpBroadcast assms(2) by (cases "hb_broadcast h") auto
    let ?cs = "map fst (subs_of h (msg_Channel msg))"
    let ?h = "h\<lparr>hb_broadcast := queue\<rparr>"
    have wf: "distinct ?cs" using ok by (simp only: hub_ok_def gm_wf_keys)
    have "\<not> closed h c" if "c \<in> set ?cs" for c
    proof -
      have "subscribed h (msg_Channel msg) c" using that gm_keys by metis
      then show ?thesis using c ok assms(2) OpBroadcast by (auto simp: calm_ok_def hub_ok_def)
    qed
    then have op: "\<forall>c \<in> set ?cs. \<not> closed ?h c" by simp
    obtain h' where "deliver_all (msg_Payload msg) ?cs ?h = Some h'"
      by (rule deliver_all_result [OF wf op]) blast
    then show ?thesis using OpBroadcast q by (simp add: run_broadcast_def)
  next
    case OpCloseAll
    then show ?thesis using closeAll_result [OF ok] by simp
  qed simp_all
qed

text \<open>C26: a broadcast reaches exactly the subscribers of its channel, each once. In a reachable state whose
  subscribers' channels are open, the step takes the oldest message, appends its payload to the buffer of
  every subscriber that has room, closes and deregisters the subscribers that have none, and changes
  nothing for anybody else.\<close>

theorem broadcast_delivers:
  assumes "hub_reachable P h" "hb_broadcast h = msg # queue"
    and "\<forall>c. subscribed h (msg_Channel msg) c \<longrightarrow> \<not> closed h c"
  shows "\<exists>h'. exec OpBroadcast h = Some h' \<and> hb_broadcast h' = queue \<and>
    (\<forall>c. hb_send h' c = (if subscribed h (msg_Channel msg) c
           then if length (ch_buf (hb_send h c)) < send_cap
                then (hb_send h c)\<lparr>ch_buf := ch_buf (hb_send h c) @ [msg_Payload msg]\<rparr>
                else (hb_send h c)\<lparr>ch_closed := True\<rparr>
           else hb_send h c)) \<and>
    (\<forall>c. registered h' c \<longleftrightarrow> registered h c \<and>
           \<not> (subscribed h (msg_Channel msg) c \<and> \<not> length (ch_buf (hb_send h c)) < send_cap))"
proof -
  let ?cs = "map fst (subs_of h (msg_Channel msg))" and ?h = "h\<lparr>hb_broadcast := queue\<rparr>"
  have "distinct ?cs" using reachable_ok [OF assms(1)] by (simp only: hub_ok_def gm_wf_keys)
  moreover have "\<forall>c \<in> set ?cs. \<not> closed ?h c" using assms(3) gm_keys [of _ "subs_of h (msg_Channel msg)"] by auto
  ultimately obtain h' where "deliver_all (msg_Payload msg) ?cs ?h = Some h'"
    "hb_send h' = (\<lambda>c. if c \<in> set ?cs then delivered (msg_Payload msg) (hb_send ?h c) else hb_send ?h c)"
    "gm_get (hb_clients h') =
       (\<lambda>c. if c \<in> set ?cs \<and> \<not> length (ch_buf (hb_send ?h c)) < send_cap then None else gm_get (hb_clients ?h) c)"
    "hb_broadcast h' = hb_broadcast ?h"
    by (rule deliver_all_result) blast
  then show ?thesis
    using assms(2) by (intro exI [of _ h']) (simp add: run_broadcast_def gm_keys delivered_def del: set_map)
qed

section \<open>Runs\<close>

fun execs :: "hub_op list \<Rightarrow> hub \<Rightarrow> hub option" where
  "execs [] h = Some h"
| "execs (op # ops) h =
     (if enabled op h then case exec op h of None \<Rightarrow> None | Some h' \<Rightarrow> execs ops h' else None)"

lemma execs_reachable: "execs ops h = Some h' \<Longrightarrow> hub_reachable (\<lambda>_ _. True) h \<Longrightarrow> hub_reachable (\<lambda>_ _. True) h'"
  by (induction ops arbitrary: h) (auto split: if_splits option.splits intro: hub_reachable.step)

text \<open>One client, subscribed to one channel and registered, with a given buffer.\<close>

definition one_client :: "string \<Rightarrow> chan \<Rightarrow> bool \<Rightarrow> message list \<Rightarrow> hub" where
  "one_client channel ch reg queue =
     NewHub\<lparr> hb_clients := (if reg then [(1, True)] else []), hb_subscriptions := [(channel, [(1, True)])],
       hb_broadcast := queue, hb_send := (hb_send NewHub)(1 := ch), hb_phase := (hb_phase NewHub)(1 := Reading) \<rparr>"

lemma one_client_start:
  "execs [OpRegister 1, OpSubAdd 1 channel] NewHub = Some (one_client channel \<lparr>ch_buf = [], ch_closed = False\<rparr> True [])"
  by (simp add: one_client_def NewHub_def set_phase_def run_register_def sub_add_def subs_of_def
      gm_put_def gm_get_def gm_empty_def fun_eq_iff)

lemma one_client_calm: "hub_reachable calm (one_client channel \<lparr>ch_buf = [], ch_closed = False\<rparr> True [])"
proof -
  let ?h = "set_phase 1 Reading (run_register 1 NewHub)"
  have "hub_reachable calm ?h"
    by (rule hub_reachable.step [OF hub_reachable.start, of "OpRegister 1"]) (simp_all add: NewHub_def)
  then have "hub_reachable calm (sub_add 1 channel ?h)"
    by (rule hub_reachable.step [of _ _ "OpSubAdd 1 channel"]) (simp_all add: set_phase_def)
  then show ?thesis using one_client_start [of channel] by (simp add: NewHub_def set_phase_def)
qed

text \<open>C29: a client that does not keep up crashes the hub. There is a reachable state in which the hub's own
  loop panics at the next broadcast with a send on a closed channel: after 256 unread messages one more
  closes the client's channel and deregisters it but leaves it subscribed, and the message after that is
  sent to it.\<close>

theorem slow_client_panics:
  "\<exists>h. hub_reachable (\<lambda>_ _. True) h \<and> enabled OpBroadcast h \<and> exec OpBroadcast h = None"
proof -
  let ?m = "Message ''prices'' ''0|1''"
  let ?h = "\<lambda>n. one_client ''prices'' \<lparr>ch_buf = replicate n ''0|1'', ch_closed = False\<rparr> True []"
  let ?c = "\<lambda>q. one_client ''prices'' \<lparr>ch_buf = replicate 256 ''0|1'', ch_closed = True\<rparr> False q"
  have fill: "execs [OpPublish ?m, OpBroadcast] (?h n) = Some (?h (Suc n))" if "n < 256" for n
    using that
    by (simp add: one_client_def NewHub_def run_broadcast_def subs_of_def gm_get_def deliver_eq delivered_def
        set_chan_def send_cap_def broadcast_cap_def replicate_append_same fun_eq_iff)
  have "hub_reachable (\<lambda>_ _. True) (?h n)" if "n \<le> 256" for n
    using that
  proof (induction n)
    case 0
    then show ?case using execs_reachable [OF one_client_start hub_reachable.start] by simp
  next
    case (Suc n)
    then show ?case using execs_reachable [OF fill] by simp
  qed
  then have "hub_reachable (\<lambda>_ _. True) (?h 256)" by simp
  moreover have "execs [OpPublish ?m, OpBroadcast, OpPublish ?m] (?h 256) = Some (?c [?m])"
    by (simp add: one_client_def NewHub_def run_broadcast_def subs_of_def gm_get_def deliver_eq delivered_def
        set_chan_def send_cap_def broadcast_cap_def gm_del_def fun_eq_iff)
  ultimately have "hub_reachable (\<lambda>_ _. True) (?c [?m])" using execs_reachable by blast
  moreover have "enabled OpBroadcast (?c [?m])" by (simp add: one_client_def NewHub_def)
  moreover have "exec OpBroadcast (?c [?m]) = None"
    by (simp add: one_client_def NewHub_def run_broadcast_def subs_of_def gm_get_def deliver_eq)
  ultimately show ?thesis by blast
qed

section \<open>From the event to the trader\<close>

text \<open>One Redis message in the gateway: the cache applies it and calls the hub back when it changed.\<close>

definition gateway_event ::
  "(string \<Rightarrow> string + event) \<Rightarrow> (snapshot \<Rightarrow> string + string) \<Rightarrow> (string + fee_query_row option list) option
   \<Rightarrow> string \<Rightarrow> trade_cache \<times> hub \<Rightarrow> trade_cache \<times> hub" where
  "gateway_event unmarshal marshal q payload = (\<lambda>(c, h).
     case applyEvent unmarshal payload c of
       (None, c') \<Rightarrow> (c', h)
     | (Some trader, c') \<Rightarrow>
         (c', h\<lparr>hb_broadcast := hb_broadcast h @ on_change marshal q trader c'\<rparr>))"

text \<open>C21: a change of a trader's positions reaches the trader. In a hub that runs and has met no full buffer,
  with no message waiting, an event that changes the cache for a trader queues the snapshot of the new cache
  on the trader's channel, and the next broadcast appends it to the buffer of every client that is subscribed
  to this channel and has room.\<close>

theorem change_reaches_trader:
  assumes "hub_reachable calm h" "hb_running h" "hb_broadcast h = []"
    and "applyEvent unmarshal payload c = (Some trader, c')"
    and "marshal (GetSnapshot q trader c') = Inr snap"
    and "subscribed h (''trader:'' @ trader) cl" "length (ch_buf (hb_send h cl)) < send_cap"
  shows "\<exists>h1 h2. gateway_event unmarshal marshal q payload (c, h) = (c', h1) \<and>
    exec OpBroadcast h1 = Some h2 \<and> ch_buf (hb_send h2 cl) = ch_buf (hb_send h cl) @ [snap]"
proof -
  let ?msg = "Message (''trader:'' @ trader) snap"
  obtain queue where q: "on_change marshal q trader c' = ?msg # queue"
    using assms(5) by (simp add: on_change_def)
  let ?h1 = "h\<lparr>hb_broadcast := ?msg # queue\<rparr>" and ?h = "h\<lparr>hb_broadcast := queue\<rparr>"
  let ?cs = "map fst (subs_of h (''trader:'' @ trader))"
  have g: "gateway_event unmarshal marshal q payload (c, h) = (c', ?h1)"
    using assms(3,4) q by (simp add: gateway_event_def)
  have ok: "calm_ok h" by (rule reachable_calm [OF assms(1)])
  then have wf: "distinct ?cs" by (simp only: calm_ok_def hub_ok_def gm_wf_keys)
  have "\<not> closed h x" if "x \<in> set ?cs" for x
  proof -
    have "subscribed h (''trader:'' @ trader) x" using that gm_keys by metis
    then show ?thesis using ok assms(2) by (auto simp: calm_ok_def hub_ok_def)
  qed
  then have op: "\<forall>x \<in> set ?cs. \<not> closed ?h x" by simp
  obtain h2 where h2: "deliver_all snap ?cs ?h = Some h2"
    "hb_send h2 = (\<lambda>c. if c \<in> set ?cs then delivered snap (hb_send ?h c) else hb_send ?h c)"
    by (rule deliver_all_result [OF wf op]) blast
  have "subs_of ?h1 = subs_of h" by (rule subs_of_frame) simp
  then have "exec OpBroadcast ?h1 = Some h2" using h2(1) by (simp add: run_broadcast_def)
  moreover have "cl \<in> set ?cs" using assms(6) gm_keys by metis
  ultimately show ?thesis
    using g h2(2) assms(7) by (intro exI [of _ ?h1] exI [of _ h2]) (simp add: delivered_def)
qed

section \<open>Witnesses\<close>

definition demo_hub :: hub where
  "demo_hub = one_client ''trader:alice'' \<lparr>ch_buf = [], ch_closed = False\<rparr> True []"

lemmas demo_hub_defs = demo_hub_def one_client_def NewHub_def subs_of_def gm_get_def

lemma demo_hub_reachable: "hub_reachable calm demo_hub" "hub_reachable (\<lambda>_ _. True) demo_hub"
  using one_client_calm execs_reachable [OF one_client_start hub_reachable.start] by (simp_all add: demo_hub_def)

theorem hub_closes_once_witness:
  "registered demo_hub 1 \<and> \<not> closed demo_hub 1 \<and> exec (OpLeave 1) demo_hub \<noteq> None \<and> exec OpCloseAll demo_hub \<noteq> None"
  using hub_closes_once [OF demo_hub_reachable(2), of 1] by (simp add: demo_hub_defs)

text \<open>The same step before and after the shutdown.\<close>

lemma demo_hub_stopped:
  "\<exists>h. exec OpCloseAll demo_hub = Some h \<and> hub_reachable calm h \<and> \<not> hb_running h \<and> hb_phase h 1 = Reading \<and>
     (\<forall>c. ch_buf (hb_send h c) = [])"
proof -
  have r: "hb_running demo_hub" "hb_phase demo_hub 1 = Reading" "\<forall>c. ch_buf (hb_send demo_hub c) = []"
    by (simp_all add: demo_hub_defs)
  obtain h where h: "exec OpCloseAll demo_hub = Some h" "\<not> hb_running h" "hb_phase h 1 = Reading" "\<forall>c. ch_buf (hb_send h c) = []"
    using closeAll_result [OF reachable_ok [OF demo_hub_reachable(1)]] r by auto
  moreover have "hub_reachable calm h"
    by (rule hub_reachable.step [OF demo_hub_reachable(1) _ _ h(1)]) (simp_all add: r)
  ultimately show ?thesis by blast
qed

theorem hub_panics_only_after_shutdown_witness:
  "enabled (OpPush 1 ''s'') demo_hub \<and> exec (OpPush 1 ''s'') demo_hub \<noteq> None \<and>
   (\<exists>h. hub_reachable calm h \<and> enabled (OpPush 1 ''s'') h \<and> (\<forall>c. ch_buf (hb_send h c) = []) \<and> exec (OpPush 1 ''s'') h = None)"
  using hub_panics_only_after_shutdown [OF demo_hub_reachable(1), of "OpPush 1 ''s''"]
    hub_panics_only_after_shutdown [of _ "OpPush 1 ''s''"] demo_hub_stopped
  by (auto simp: demo_hub_defs)

theorem broadcast_delivers_witness:
  "\<exists>h h'. hub_reachable (\<lambda>_ _. True) h \<and> exec OpBroadcast h = Some h' \<and> ch_buf (hb_send h' 1) = [''x''] \<and>
     ch_buf (hb_send h' 2) = []"
proof -
  let ?m = "Message ''trader:alice'' ''x''" and ?h = "demo_hub\<lparr>hb_broadcast := [Message ''trader:alice'' ''x'']\<rparr>"
  have h: "hub_reachable (\<lambda>_ _. True) ?h"
    by (rule hub_reachable.step [OF demo_hub_reachable(2), of "OpPublish ?m"])
      (simp_all add: demo_hub_defs broadcast_cap_def)
  have "\<exists>h'. exec OpBroadcast ?h = Some h' \<and> ch_buf (hb_send h' 1) = [''x''] \<and> ch_buf (hb_send h' 2) = []"
    using broadcast_delivers [OF h, of ?m "[]"] by (auto simp: demo_hub_defs send_cap_def)
  with h show ?thesis by blast
qed

theorem change_reaches_trader_witness:
  "\<exists>c' h1 h2. gateway_event (\<lambda>_. Inr demo_cache_opened) (\<lambda>s. Inr ''snap'') None [] (NewTradeCache, demo_hub) = (c', h1) \<and>
     exec OpBroadcast h1 = Some h2 \<and> ch_buf (hb_send h2 1) = [''snap'']"
proof -
  let ?c = "snd (cache_event demo_cache_opened NewTradeCache)"
  have a: "applyEvent (\<lambda>_. Inr demo_cache_opened) [] NewTradeCache = (Some ''alice'', ?c)"
    using demo_cache_event
    by (simp add: applyEvent_def case_prod_beta Let_def) (simp add: demo_cache_opened_def)
  from change_reaches_trader [OF demo_hub_reachable(1) _ _ a, of "\<lambda>s. Inr ''snap''" None "''snap''" 1]
  show ?thesis by (auto simp: demo_hub_defs send_cap_def)
qed

end
