(* ===== verification/Price_Feed.thy ===== *)
theory Price_Feed
  imports Detector Hub
begin

text \<open>
  \<^verbatim>\<open>internal/keeper/binance.go\<close> and \<^verbatim>\<open>internal/wsgateway/pricefeed.go\<close>: the two consumers of the
  exchange's trade stream, the keeper's and the gateway's.

  JSON is a parameter: \<open>jp_wrapper\<close> reads the envelope of the combined endpoint (stream and
  data), \<open>jp_trade\<close> the trade itself. A connection is what it delivers before it ends
  (\<open>conn_env\<close>). A duration is an \<open>int64\<close> of nanoseconds.

  Proved here: the price is the decimal one times \<open>10 ^ 14\<close>, rounded down, without a detour over
  floating point; every tick has a positive price and a configured pair, so that the detector
  does not panic on it; the waits between two connections.
\<close>

section \<open>Prices\<close>

definition parsePriceToScale :: "string \<Rightarrow> bigp" where
  "parsePriceToScale s0 =
     (let s = strings_TrimSpace s0 in
      if s = [] then None
      else
        let intPart = before_byte (CHR ''.'') s;
            fracPart = after_byte (CHR ''.'') s;
            fracPart = (if length fracPart > 14 then take 14 fracPart else fracPart);
            digits = intPart @ fracPart @ replicate (14 - length fracPart) (CHR ''0'')
        in (case big_SetString10 digits of
              None \<Rightarrow> None
            | Some v \<Rightarrow> if v \<le> 0 then None else Some v))"

section \<open>The map of symbols\<close>

text \<open>\<open>strings.SplitN(s, ":", 2)\<close>\<close>

definition split_colon :: "string \<Rightarrow> string list" where
  "split_colon s =
     (if CHR '':'' \<in> set s then [before_byte (CHR '':'') s, after_byte (CHR '':'') s] else [s])"

record price_tick =
  pt_PairIndex :: int
  pt_Price :: bigp
  pt_Symbol :: string

text \<open>\<open>bc_out\<close> is the channel of ticks, \<open>bc_taken\<close> what the keeper's loop took from it so far.\<close>

record binance_client =
  bc_url :: string
  bc_symbols :: "string list"
  bc_symbolToPair :: "(string, int) gmap"
  bc_out :: "price_tick list"
  bc_taken :: "price_tick list"

definition map_entry ::
  "(string \<Rightarrow> string) \<Rightarrow> (string \<Rightarrow> string) \<Rightarrow> string \<Rightarrow> string list \<times> (string, int) gmap
   \<Rightarrow> string list \<times> (string, int) gmap" where
  "map_entry up lo entry = (\<lambda>(symbols, symbolToPair).
     (case split_colon (strings_TrimSpace entry) of
        [a, b] \<Rightarrow>
          let symbol = strings_ToUpper up (strings_TrimSpace a)
          in (case strconv_Atoi (strings_TrimSpace b) of
                None \<Rightarrow> (symbols, symbolToPair)
              | Some idx \<Rightarrow>
                  (symbols @ [strings_ToLower lo symbol @ ''@aggTrade''], gm_put symbol idx symbolToPair))
      | _ \<Rightarrow> (symbols, symbolToPair)))"

definition NewBinanceClient ::
  "(string \<Rightarrow> string) \<Rightarrow> (string \<Rightarrow> string) \<Rightarrow> string \<Rightarrow> string \<Rightarrow> binance_client" where
  "NewBinanceClient up lo wsURL pairSymbolMap =
     (let (symbols, symbolToPair) = fold (map_entry up lo) (split_byte (CHR '','') pairSymbolMap) ([], gm_empty)
      in \<lparr> bc_url = wsURL, bc_symbols = symbols, bc_symbolToPair = symbolToPair, bc_out = [], bc_taken = [] \<rparr>)"

section \<open>Messages\<close>

record agg_trade =
  at_Event :: string
  at_EventTime :: i64
  at_Symbol :: string
  at_Price :: string

record json_parsers =
  jp_wrapper :: "string \<Rightarrow> string + (string \<times> string)"
  jp_trade :: "string \<Rightarrow> string + agg_trade"

definition out_cap :: nat where "out_cap = 1024"

definition unwrap :: "json_parsers \<Rightarrow> string \<Rightarrow> string" where
  "unwrap jp data =
     (case jp_wrapper jp data of
        Inl _ \<Rightarrow> data
      | Inr (stream, d) \<Rightarrow> if stream \<noteq> [] then d else data)"

definition handleMessage :: "json_parsers \<Rightarrow> string \<Rightarrow> binance_client \<Rightarrow> binance_client" where
  "handleMessage jp data b =
     (case jp_trade jp (unwrap jp data) of
        Inl err \<Rightarrow> b
      | Inr msg \<Rightarrow>
          if at_Event msg \<noteq> ''aggTrade'' then b
          else
     (case gm_get (bc_symbolToPair b) (at_Symbol msg) of
        None \<Rightarrow> b
      | Some pairIdx \<Rightarrow>
     (case parsePriceToScale (at_Price msg) of
        None \<Rightarrow> b
      | Some price \<Rightarrow>
          if length (bc_out b) < out_cap
          then b\<lparr>bc_out := bc_out b @
                 [\<lparr> pt_PairIndex = pairIdx, pt_Price = Some price, pt_Symbol = at_Symbol msg \<rparr>]\<rparr>
          else b)))"

text \<open>While a connection delivers, the consumer takes ticks from the channel.\<close>

datatype feed_step = Received string | Consumed

definition take_tick :: "binance_client \<Rightarrow> binance_client" where
  "take_tick b =
     (case bc_out b of
        [] \<Rightarrow> b
      | t # ts \<Rightarrow> b\<lparr>bc_out := ts, bc_taken := bc_taken b @ [t]\<rparr>)"

fun feed_event :: "json_parsers \<Rightarrow> feed_step \<Rightarrow> binance_client \<Rightarrow> binance_client" where
  "feed_event jp (Received data) b = handleMessage jp data b"
| "feed_event jp Consumed b = take_tick b"

text \<open>The gateway's feed: the hub's queue instead of a channel of ticks; the price stays text.\<close>

definition PriceFeed_handleMessage ::
  "json_parsers \<Rightarrow> (string, int) gmap \<Rightarrow> string \<Rightarrow> message list \<Rightarrow> message list" where
  "PriceFeed_handleMessage jp symbolToPair data queue =
     (case jp_trade jp (unwrap jp data) of
        Inl err \<Rightarrow> queue
      | Inr msg \<Rightarrow>
          if at_Event msg \<noteq> ''aggTrade'' then queue
          else
     (case gm_get symbolToPair (at_Symbol msg) of
        None \<Rightarrow> queue
      | Some pairIdx \<Rightarrow>
          if length queue < broadcast_cap
          then queue @ [Message ''prices'' (int_dec pairIdx @ ''|'' @ at_Price msg)]
          else queue))"

record price_feed =
  wp_url :: string
  wp_symbols :: "string list"
  wp_symbolToPair :: "(string, int) gmap"

definition NewPriceFeed ::
  "(string \<Rightarrow> string) \<Rightarrow> (string \<Rightarrow> string) \<Rightarrow> string \<Rightarrow> string \<Rightarrow> price_feed" where
  "NewPriceFeed up lo wsURL pairSymbolMap =
     (let (symbols, symbolToPair) = fold (map_entry up lo) (split_byte (CHR '','') pairSymbolMap) ([], gm_empty)
      in \<lparr> wp_url = wsURL, wp_symbols = symbols, wp_symbolToPair = symbolToPair \<rparr>)"

section \<open>Connections\<close>

definition nextBackoff :: "i64 \<Rightarrow> i64" where
  "nextBackoff current =
     (if current = 0 then 1000000000
      else
        let nxt = current * 2
        in if sint nxt > 30000000000 then 30000000000 else nxt)"

definition PriceFeed_nextBackoff :: "i64 \<Rightarrow> i64" where
  "PriceFeed_nextBackoff current =
     (if current = 0 then 1000000000
      else
        let nxt = current * 2
        in if sint nxt > 30000000000 then 30000000000 else nxt)"

text \<open>
  A connection: the errors of dialling and of the subscription, the messages read and the
  error that ends the reading; then whether the context is done, before and while waiting.
\<close>

record conn_env =
  cv_dial :: "string option"
  cv_write :: "string option"
  cv_data :: "feed_step list"
  cv_end :: string
  cv_done :: bool
  cv_done_waiting :: bool

definition connect :: "json_parsers \<Rightarrow> conn_env \<Rightarrow> binance_client \<Rightarrow> string option \<times> binance_client" where
  "connect jp env b =
     (case cv_dial env of
        Some err \<Rightarrow> (Some err, b)
      | None \<Rightarrow>
     (case cv_write env of
        Some err \<Rightarrow> (Some err, b)
      | None \<Rightarrow> (Some (cv_end env), fold (feed_event jp) (cv_data env) b)))"

text \<open>\<open>Run\<close>: the waits, whether the channel of ticks was closed at the end, and the client.\<close>

fun Run ::
  "json_parsers \<Rightarrow> conn_env list \<Rightarrow> i64 \<Rightarrow> binance_client \<Rightarrow> i64 list \<times> bool \<times> binance_client" where
  "Run jp [] backoff b = ([], False, b)"
| "Run jp (env # envs) backoff b =
     (case connect jp env b of
        (Some err, b') \<Rightarrow>
          if cv_done env then ([], True, b')
          else
            let backoff = nextBackoff backoff
            in if cv_done_waiting env then ([backoff], True, b')
               else (let (waits, r) = Run jp envs backoff b' in (backoff # waits, r))
      | (None, b') \<Rightarrow> Run jp envs 0 b')"

text \<open>The loops of the gateway's feed; the hub takes messages from its queue in between.\<close>

fun PriceFeed_event :: "json_parsers \<Rightarrow> (string, int) gmap \<Rightarrow> feed_step \<Rightarrow> message list \<Rightarrow> message list" where
  "PriceFeed_event jp symbolToPair (Received data) queue = PriceFeed_handleMessage jp symbolToPair data queue"
| "PriceFeed_event jp symbolToPair Consumed queue = drop 1 queue"

definition PriceFeed_connect ::
  "json_parsers \<Rightarrow> (string, int) gmap \<Rightarrow> conn_env \<Rightarrow> message list \<Rightarrow> string option \<times> message list" where
  "PriceFeed_connect jp symbolToPair env queue =
     (case cv_dial env of
        Some err \<Rightarrow> (Some err, queue)
      | None \<Rightarrow>
     (case cv_write env of
        Some err \<Rightarrow> (Some err, queue)
      | None \<Rightarrow> (Some (cv_end env), fold (PriceFeed_event jp symbolToPair) (cv_data env) queue)))"

fun PriceFeed_Run ::
  "json_parsers \<Rightarrow> (string, int) gmap \<Rightarrow> conn_env list \<Rightarrow> i64 \<Rightarrow> message list \<Rightarrow> i64 list \<times> message list" where
  "PriceFeed_Run jp symbolToPair [] backoff queue = ([], queue)"
| "PriceFeed_Run jp symbolToPair (env # envs) backoff queue =
     (case PriceFeed_connect jp symbolToPair env queue of
        (Some err, queue') \<Rightarrow>
          if cv_done env then ([], queue')
          else
            let backoff = PriceFeed_nextBackoff backoff
            in if cv_done_waiting env then ([backoff], queue')
               else (let (waits, q) = PriceFeed_Run jp symbolToPair envs backoff queue' in (backoff # waits, q))
      | (None, queue') \<Rightarrow> PriceFeed_Run jp symbolToPair envs 0 queue')"

section \<open>Reading a price\<close>

lemma SetString_digits:
  assumes "\<forall>c \<in> set s. is_digit c" "s \<noteq> []"
  shows "big_SetString10 s = map_option int (digits_val 0 s)"
proof (cases s)
  case (Cons c cs)
  then have "c \<noteq> CHR ''-''" "c \<noteq> CHR ''+''" using assms(1) by auto
  with Cons show ?thesis by (simp add: big_SetString10_def parse_nat_def)
qed (use assms in simp)

lemma dot_not_digit: "\<forall>c \<in> set s. is_digit c \<Longrightarrow> CHR ''.'' \<notin> set s"
  using is_digit_special by auto

lemma digits_val_pad:
  "digits_val 0 s = Some n \<Longrightarrow> digits_val 0 (s @ replicate k CHR ''0'') = Some (n * 10 ^ k)"
  using digits_val_acc [of n "replicate k CHR ''0''"] by (simp add: digits_val_append digits_val_zeros)

text \<open>Cutting off digits is division.\<close>

lemma digits_val_cut:
  assumes "digits_val 0 (xs @ ys) = Some n"
  shows "digits_val 0 xs = Some (n div 10 ^ length ys)"
proof -
  obtain m where m: "digits_val 0 xs = Some m" "digits_val m ys = Some n"
    using assms by (cases "digits_val 0 xs") (auto simp: digits_val_append)
  then obtain v where v: "digits_val 0 ys = Some v" "n = m * 10 ^ length ys + v"
    using digits_val_acc [of m ys] by (cases "digits_val 0 ys") auto
  then show ?thesis using m(1) digits_val_bound [OF v(1)] by simp
qed

lemma parsePriceToScale_decimal:
  assumes "\<forall>c \<in> set ip. is_digit c" "\<forall>c \<in> set fp. is_digit c" "digits_val 0 (ip @ fp) = Some n"
  shows "parsePriceToScale (ip @ ''.'' @ fp) =
    (let v = n * 10 ^ 14 div 10 ^ length fp in if v = 0 then None else Some (int v))"
proof -
  let ?s = "ip @ ''.'' @ fp" and ?f = "take 14 fp"
  let ?d = "ip @ ?f @ replicate (14 - length ?f) CHR ''0''"
  have t: "strings_TrimSpace ?s = ?s" by (rule TrimSpace_id) (use assms(1,2) in auto)
  have c: "before_byte CHR ''.'' ?s = ip" "after_byte CHR ''.'' ?s = fp"
    using take_before_byte after_byte_append dot_not_digit [OF assms(1)] by simp_all
  have z: "is_digit CHR ''0''" by (simp add: is_digit_def digit_val_def)
  have "\<forall>c \<in> set ?d. is_digit c" using assms(1,2) z by (auto dest: in_set_takeD)
  moreover have "?d \<noteq> []" by (cases fp) auto
  ultimately have d: "big_SetString10 ?d = map_option int (digits_val 0 ?d)" by (rule SetString_digits)
  have "digits_val 0 (ip @ ?f) = Some (n div 10 ^ length (drop 14 fp))"
    by (rule digits_val_cut) (use assms(3) in simp)
  from digits_val_pad [OF this, of "14 - length ?f"]
  have "digits_val 0 ?d = Some (n div 10 ^ (length fp - 14) * 10 ^ (14 - length ?f))" by simp
  moreover have "n div 10 ^ (length fp - 14) * 10 ^ (14 - length ?f) = n * 10 ^ 14 div 10 ^ length fp"
  proof (cases "length fp \<le> 14")
    case True
    then have "(10::nat) ^ 14 = 10 ^ (14 - length fp) * 10 ^ length fp" by (simp flip: power_add)
    then have "n * 10 ^ 14 div 10 ^ length fp = n * 10 ^ (14 - length fp) * 10 ^ length fp div 10 ^ length fp"
      by (simp only: mult.assoc)
    then show ?thesis using True by (simp add: min_def)
  next
    case False
    then have "(10::nat) ^ length fp = 10 ^ (length fp - 14) * 10 ^ 14" by (simp only: power_add [symmetric]) simp
    then have "n * 10 ^ 14 div 10 ^ length fp = n div 10 ^ (length fp - 14)" by (simp only: div_mult_mult2 [where c = "10 ^ 14"]) simp
    then show ?thesis using False by (simp add: min_def)
  qed
  ultimately have v: "big_SetString10 ?d = Some (int (n * 10 ^ 14 div 10 ^ length fp))" using d by simp
  have f: "(if 14 < length fp then take 14 fp else fp) = ?f" by simp
  show ?thesis
    unfolding parsePriceToScale_def t Let_def c f v by simp
qed

text \<open>C24: the price is exact. A decimal price, digits with a point among them, is read as the price times
  \<open>10 ^ 14\<close>, rounded down to an integer, however many digits it has; a price of less than one unit of this
  scale is dropped. \<open>10 ^ 14\<close> is the scale that the comment on this function names, that of the Reflector
  oracle; the comments in \<^verbatim>\<open>math.go\<close>, in \<^verbatim>\<open>docs/implement_plan.md\<close> and in the tests of the keeper give \<open>10 ^ 10\<close> for the
  prices of the positions that these ticks are compared with.\<close>

theorem parsePriceToScale_floor:
  assumes "\<forall>c \<in> set ip. is_digit c" "\<forall>c \<in> set fp. is_digit c" "digits_val 0 (ip @ fp) = Some n"
  shows "parsePriceToScale (ip @ ''.'' @ fp) =
    (let v = n * 10 ^ 14 div 10 ^ length fp in if v = 0 then None else Some (int v))"
  using assms by (rule parsePriceToScale_decimal)

theorem parsePriceToScale_floor_witness: "parsePriceToScale ''62738.10'' = Some 6273810000000000000"
proof -
  have "parsePriceToScale (''62738'' @ ''.'' @ ''10'') =
      (let v = 6273810 * 10 ^ 14 div 10 ^ length ''10'' in if v = 0 then None else Some (int v))"
    by (rule parsePriceToScale_floor) (simp_all add: is_digit_def digit_val_def)
  then show ?thesis by simp
qed

section \<open>Ticks\<close>

definition feed_ok :: "binance_client \<Rightarrow> bool" where
  "feed_ok b \<longleftrightarrow> length (bc_out b) \<le> out_cap \<and>
     (\<forall>t \<in> set (bc_taken b @ bc_out b). (\<exists>p > 0. pt_Price t = Some p) \<and>
        gm_get (bc_symbolToPair b) (pt_Symbol t) = Some (pt_PairIndex t))"

lemma parsePriceToScale_pos: "parsePriceToScale s = Some p \<Longrightarrow> 0 < p"
  by (auto simp: parsePriceToScale_def Let_def split: if_splits option.splits)

lemma feed_ok_handle: "feed_ok b \<Longrightarrow> feed_ok (handleMessage jp data b)"
  by (auto simp: handleMessage_def feed_ok_def parsePriceToScale_pos split: sum.splits option.splits)

lemma feed_ok_event: "feed_ok b \<Longrightarrow> feed_ok (feed_event jp e b)"
  by (cases e) (auto simp: feed_ok_handle, auto simp: feed_ok_def take_tick_def split: list.splits)

lemma feed_event_map [simp]: "bc_symbolToPair (feed_event jp e b) = bc_symbolToPair b"
  by (cases e) (simp_all add: handleMessage_def take_tick_def split: sum.splits option.splits list.splits)

lemma feed_ok_connect:
  "connect jp env b = (r, b') \<Longrightarrow> feed_ok b \<Longrightarrow> feed_ok b' \<and> bc_symbolToPair b' = bc_symbolToPair b"
proof -
  have "feed_ok b \<Longrightarrow> feed_ok (fold (feed_event jp) ds b)"
    "bc_symbolToPair (fold (feed_event jp) ds b) = bc_symbolToPair b" for ds
    by (induction ds arbitrary: b) (simp_all add: feed_ok_event)
  then show "connect jp env b = (r, b') \<Longrightarrow> feed_ok b \<Longrightarrow> feed_ok b' \<and> bc_symbolToPair b' = bc_symbolToPair b"
    by (auto simp: connect_def split: option.splits)
qed

lemma connect_fails: "\<exists>err b'. connect jp env b = (Some err, b')"
  by (simp add: connect_def split: option.splits)

lemma feed_ok_Run:
  "Run jp envs backoff b = (waits, fin, b') \<Longrightarrow> feed_ok b \<Longrightarrow> feed_ok b' \<and> bc_symbolToPair b' = bc_symbolToPair b"
proof (induction envs arbitrary: backoff b waits fin b')
  case (Cons env envs)
  obtain err b1 where c: "connect jp env b = (Some err, b1)" using connect_fails by blast
  note b1 = feed_ok_connect [OF c Cons.prems(2)]
  show ?case
  proof (cases "cv_done env \<or> cv_done_waiting env")
    case True
    then show ?thesis using Cons.prems(1) c b1 by (auto simp: Let_def split: if_splits)
  next
    case False
    obtain w f b2 where r: "Run jp envs (nextBackoff backoff) b1 = (w, f, b2)" by (metis prod.exhaust)
    with Cons.prems(1) c False have "b' = b2" by (simp add: Let_def)
    with Cons.IH [OF r] b1 show ?thesis by auto
  qed
qed simp

text \<open>C23: no tick can make the detector panic. Whatever the exchange sends and however often the connection
  breaks, a tick in the channel or taken from it carries the pair that is configured for its symbol and a positive price, the
  channel never holds more than its 1024 ticks, and the detector returns a list of actions for it.\<close>

theorem ticks_are_safe:
  assumes "Run jp envs 0 (NewBinanceClient up lo wsURL pairSymbolMap) = (waits, fin, b)"
    and "t \<in> set (bc_taken b @ bc_out b)"
  shows "length (bc_out b) \<le> 1024 \<and>
    gm_get (bc_symbolToPair (NewBinanceClient up lo wsURL pairSymbolMap)) (pt_Symbol t) = Some (pt_PairIndex t) \<and>
    (\<exists>p > 0. pt_Price t = Some p) \<and> Detect (pt_PairIndex t) (pt_Price t) s \<noteq> None"
proof -
  have "feed_ok (NewBinanceClient up lo wsURL pairSymbolMap)"
    by (simp add: feed_ok_def NewBinanceClient_def case_prod_beta)
  from feed_ok_Run [OF assms(1) this] have "feed_ok b"
    "bc_symbolToPair b = bc_symbolToPair (NewBinanceClient up lo wsURL pairSymbolMap)" by auto
  moreover have "Detect i (Some p) s \<noteq> None" for i p by (simp add: Detect_due)
  ultimately show ?thesis using assms(2) by (force simp: feed_ok_def out_cap_def)
qed

section \<open>Waits\<close>

text \<open>The schedule: 1, 2, 4, 8, 16 seconds, then 30 seconds.\<close>

definition backoff_seconds :: "nat \<Rightarrow> int" where
  "backoff_seconds n = (if n < 5 then 2 ^ n else 30)"

lemma nextBackoff_schedule:
  "nextBackoff 0 = word_of_int (backoff_seconds 0 * 1000000000)"
  "nextBackoff (word_of_int (backoff_seconds n * 1000000000)) = word_of_int (backoff_seconds (Suc n) * 1000000000)"
proof -
  show "nextBackoff 0 = word_of_int (backoff_seconds 0 * 1000000000)"
    by (simp add: nextBackoff_def backoff_seconds_def)
  consider "n = 0" | "n = 1" | "n = 2" | "n = 3" | "n = 4" | "5 \<le> n" by linarith
  then show "nextBackoff (word_of_int (backoff_seconds n * 1000000000)) =
      word_of_int (backoff_seconds (Suc n) * 1000000000)"
    by cases (simp_all add: nextBackoff_def backoff_seconds_def Let_def)
qed

text \<open>What the two feeds share: a connection always ends with an error, and then comes the next wait.\<close>

locale reconnect_loop =
  fixes conn :: "conn_env \<Rightarrow> 's \<Rightarrow> string option \<times> 's"
    and next_wait :: "i64 \<Rightarrow> i64"
    and waits_of :: "conn_env list \<Rightarrow> i64 \<Rightarrow> 's \<Rightarrow> i64 list"
  assumes conn_ends: "\<exists>err s'. conn env s = (Some err, s')"
    and first_wait: "next_wait 0 = word_of_int (backoff_seconds 0 * 1000000000)"
    and later_wait: "next_wait (word_of_int (backoff_seconds n * 1000000000)) =
      word_of_int (backoff_seconds (Suc n) * 1000000000)"
    and no_wait: "waits_of [] backoff s = []"
    and one_wait: "conn env s = (Some err, s') \<Longrightarrow> waits_of (env # envs) backoff s =
      (if cv_done env then [] else
       next_wait backoff # (if cv_done_waiting env then [] else waits_of envs (next_wait backoff) s'))"
begin

lemma waits:
  assumes "n < length (waits_of envs backoff s)"
    and "backoff = (if k = 0 then 0 else word_of_int (backoff_seconds (k - 1) * 1000000000))"
  shows "waits_of envs backoff s ! n = word_of_int (backoff_seconds (k + n) * 1000000000)"
  using assms
proof (induction envs arbitrary: backoff s k n)
  case (Cons env envs)
  obtain err s' where c: "conn env s = (Some err, s')" using conn_ends by blast
  have nb: "next_wait backoff = word_of_int (backoff_seconds k * 1000000000)"
    using Cons.prems(2) first_wait later_wait [of "k - 1"] by (auto split: if_splits)
  show ?case
  proof (cases n)
    case 0
    then show ?thesis using Cons.prems(1) nb by (simp add: one_wait [OF c] split: if_splits)
  next
    case (Suc m)
    have "waits_of envs (next_wait backoff) s' ! m = word_of_int (backoff_seconds (Suc k + m) * 1000000000)"
      using Cons.prems(1) Suc nb by (intro Cons.IH) (simp_all add: one_wait [OF c] split: if_splits)
    then show ?thesis using Cons.prems(1) Suc by (simp add: one_wait [OF c] split: if_splits)
  qed
qed (simp add: no_wait)

end

interpretation keeper_feed: reconnect_loop "connect jp" nextBackoff "\<lambda>envs backoff b. fst (Run jp envs backoff b)" for jp
proof
  show "\<exists>err b'. connect jp env b = (Some err, b')" for env b by (rule connect_fails)
  show "connect jp env s = (Some err, s') \<Longrightarrow> fst (Run jp (env # envs) backoff s) =
      (if cv_done env then [] else
       nextBackoff backoff # (if cv_done_waiting env then [] else fst (Run jp envs (nextBackoff backoff) s')))"
    for env s err s' envs backoff by (simp add: Let_def case_prod_beta)
qed (rule nextBackoff_schedule, rule nextBackoff_schedule, simp)

interpretation gateway_feed: reconnect_loop "PriceFeed_connect jp m" PriceFeed_nextBackoff
  "\<lambda>envs backoff queue. fst (PriceFeed_Run jp m envs backoff queue)" for jp m
proof
  have "PriceFeed_nextBackoff = nextBackoff" by (simp add: fun_eq_iff PriceFeed_nextBackoff_def nextBackoff_def)
  then show "PriceFeed_nextBackoff 0 = word_of_int (backoff_seconds 0 * 1000000000)"
    "PriceFeed_nextBackoff (word_of_int (backoff_seconds n * 1000000000)) =
      word_of_int (backoff_seconds (Suc n) * 1000000000)" for n
    by (simp_all only: nextBackoff_schedule)
  show "\<exists>err queue'. PriceFeed_connect jp m env queue = (Some err, queue')" for env queue
    by (simp add: PriceFeed_connect_def split: option.splits)
  show "PriceFeed_connect jp m env s = (Some err, s') \<Longrightarrow> fst (PriceFeed_Run jp m (env # envs) backoff s) =
      (if cv_done env then [] else PriceFeed_nextBackoff backoff #
        (if cv_done_waiting env then [] else fst (PriceFeed_Run jp m envs (PriceFeed_nextBackoff backoff) s')))"
    for env s err s' envs backoff by (simp add: Let_def case_prod_beta)
qed simp

text \<open>C38: the waits between connections. The n-th reconnection of the keeper's and of the gateway's feed waits
  1, 2, 4, 8 and 16 seconds, and 30 seconds from then on. This does not depend on how long the connections
  lasted or what they delivered: the wait is never reset, since a connection always ends with an error.\<close>

theorem reconnect_waits:
  assumes "n < length waits" "waits = fst (Run jp envs 0 b) \<or> waits = fst (PriceFeed_Run jp m envs 0 queue)"
  shows "waits ! n = word_of_int ((if n < 5 then 2 ^ n else 30) * 1000000000)"
  using assms keeper_feed.waits [of n jp envs 0 b 0] gateway_feed.waits [of n jp m envs 0 queue 0]
  by (auto simp: backoff_seconds_def)

definition demo_parsers :: json_parsers where
  "demo_parsers = \<lparr> jp_wrapper = (\<lambda>d. Inl ''json''),
     jp_trade = (\<lambda>d. Inr \<lparr> at_Event = ''aggTrade'', at_EventTime = 0, at_Symbol = ''BTCUSDT'', at_Price = ''62738.10'' \<rparr>) \<rparr>"

definition demo_conn :: conn_env where
  "demo_conn = \<lparr> cv_dial = None, cv_write = None, cv_data = [Received ''m'', Consumed, Received ''m''], cv_end = ''eof'', cv_done = False,
     cv_done_waiting = False \<rparr>"

lemma demo_price: "parsePriceToScale ''62738.10'' = Some 6273810000000000000"
proof -
  have "parsePriceToScale (''62738'' @ ''.'' @ ''10'') =
      (let v = 6273810 * 10 ^ 14 div 10 ^ length ''10'' in if v = 0 then None else Some (int v))"
    by (rule parsePriceToScale_decimal) (simp_all add: is_digit_def digit_val_def)
  then show ?thesis by simp
qed

lemma demo_map: "NewBinanceClient id id ''wss'' ''btcusdt:0'' =
  \<lparr> bc_url = ''wss'', bc_symbols = [''btcusdt@aggTrade''], bc_symbolToPair = [(''BTCUSDT'', 0)], bc_out = [], bc_taken = [] \<rparr>"
proof -
  have "strip_front ws s = s" if "\<forall>w \<in> set ws. \<forall>c \<in> set w. c \<notin> set s" for ws s
    using that by (rule strip_front_id)
  then have t: "strings_TrimSpace ''btcusdt:0'' = ''btcusdt:0''" "strings_TrimSpace ''btcusdt'' = ''btcusdt''"
    "strings_TrimSpace ''0'' = ''0''"
    by (simp_all add: strings_TrimSpace_def unicode_spaces_def)
  show ?thesis
    by (simp add: NewBinanceClient_def map_entry_def t split_colon_def before_byte_def after_byte_def
        strings_ToUpper_def strings_ToLower_def is_ascii_def ascii_ToUpper_def ascii_ToLower_def
        upper_char_def lower_char_def strconv_Atoi_def big_SetString10_def parse_nat_def digit_val_def
        gm_put_def gm_empty_def Let_def char_of_def bit_Suc_0_iff)
qed

theorem ticks_are_safe_witness:
  "\<exists>waits fin b t. Run demo_parsers [demo_conn] 0 (NewBinanceClient id id ''wss'' ''btcusdt:0'') = (waits, fin, b) \<and>
     t \<in> set (bc_taken b @ bc_out b) \<and> pt_PairIndex t = 0 \<and> Detect (pt_PairIndex t) (pt_Price t) demo_state \<noteq> None"
proof -
  let ?t = "\<lparr> pt_PairIndex = 0, pt_Price = Some 6273810000000000000, pt_Symbol = ''BTCUSDT'' \<rparr>"
  have r: "Run demo_parsers [demo_conn] 0 (NewBinanceClient id id ''wss'' ''btcusdt:0'') =
      ([nextBackoff 0], False, \<lparr> bc_url = ''wss'', bc_symbols = [''btcusdt@aggTrade''], bc_symbolToPair = [(''BTCUSDT'', 0)], bc_out = [?t],
         bc_taken = [?t] \<rparr>)"
    by (simp add: demo_map connect_def demo_conn_def handleMessage_def unwrap_def demo_parsers_def demo_price
        gm_get_def out_cap_def take_tick_def Let_def)
  show ?thesis
    using r ticks_are_safe [OF r, of ?t demo_state] by auto
qed

theorem reconnect_waits_witness:
  "\<exists>r. Run demo_parsers [demo_conn, demo_conn] 0 (NewBinanceClient id id [] []) = ([1000000000, 2000000000], r)"
proof -
  let ?R = "Run demo_parsers [demo_conn, demo_conn] 0 (NewBinanceClient id id [] [])"
  have "length (fst ?R) = 2"
    by (simp add: demo_conn_def connect_def Let_def case_prod_beta)
  then obtain a b where w: "fst ?R = [a, b]" by (auto simp: numeral_eq_Suc length_Suc_conv)
  have "fst ?R ! n = word_of_int ((if n < 5 then 2 ^ n else 30) * 1000000000)" if "n < 2" for n
    by (rule reconnect_waits [OF _ disjI1 [OF refl]]) (simp only: w, use that in simp)
  from this [of 0] this [of 1] have "a = 1000000000" "b = 2000000000" using w by simp_all
  with w show ?thesis by (metis prod.collapse)
qed

end
