(* ===== verification/Processes.thy ===== *)
theory Processes
  imports Executor Indexer Restart Price_Feed
begin

text \<open>
  The processes as a whole: \<^verbatim>\<open>internal/db\<close> and \<^verbatim>\<open>internal/pubsub\<close>, which wait for the servers, and
  the functions \<open>main\<close> of \<^verbatim>\<open>cmd/indexer\<close> and \<^verbatim>\<open>cmd/keeper\<close> over the components modelled
  elsewhere. A fatal log entry ends the process: it is the left summand of a result.

  The outcome of the i-th ping is a parameter, and whether the context is done after it; so is
  what the indexer meets in each of its polls.

  Proved here: opening a connection succeeds exactly if a ping succeeds in time; stopping the
  indexer and starting it again is not noticed; a keeper that starts has the database's
  positions and its account's sequence number.
\<close>

section \<open>Connections\<close>

record ping_env =
  pv_parse :: "string option"
  pv_connect :: "string option"
  pv_ping :: "nat \<Rightarrow> string option"
  pv_done :: "nat \<Rightarrow> bool"

text \<open>The loop, by the number of attempts left; the last error, or none, and the number of pings.\<close>

fun ping_loop :: "ping_env \<Rightarrow> nat \<Rightarrow> nat \<Rightarrow> string option \<Rightarrow> string option \<times> nat" where
  "ping_loop env 0 attempt lastErr = (lastErr, attempt - 1)"
| "ping_loop env (Suc left) attempt lastErr =
     (case pv_ping env attempt of
        None \<Rightarrow> (None, attempt)
      | Some err \<Rightarrow>
          if pv_done env attempt then (Some err, attempt)
          else ping_loop env left (attempt + 1) (Some err))"

definition db_Open :: "ping_env \<Rightarrow> string + unit" where
  "db_Open env =
     (case pv_parse env of
        Some err \<Rightarrow> Inl (''parse db url: '' @ err)
      | None \<Rightarrow>
     (case pv_connect env of
        Some err \<Rightarrow> Inl (''connect db: '' @ err)
      | None \<Rightarrow>
     (case fst (ping_loop env 30 1 None) of
        None \<Rightarrow> Inr ()
      | Some lastErr \<Rightarrow> Inl (''ping db after 30 attempts: '' @ lastErr))))"

definition OpenRedis :: "ping_env \<Rightarrow> string + unit" where
  "OpenRedis env =
     (case pv_parse env of
        Some err \<Rightarrow> Inl (''parse redis url: '' @ err)
      | None \<Rightarrow>
     (case fst (ping_loop env 30 1 None) of
        None \<Rightarrow> Inr ()
      | Some lastErr \<Rightarrow> Inl (''ping redis after 30 attempts: '' @ lastErr)))"

definition Publish ::
  "('a \<Rightarrow> string + string) \<Rightarrow> (string \<Rightarrow> string \<Rightarrow> string option) \<Rightarrow> string \<Rightarrow> 'a \<Rightarrow> string option" where
  "Publish marshal send channel payload =
     (case marshal payload of Inl err \<Rightarrow> Some err | Inr b \<Rightarrow> send channel b)"

section \<open>The indexer\<close>

text \<open>A turn of the loop: the poll, whether its error is \<open>context.Canceled\<close>, and whether the context is
  done when the loop waits for the next tick.\<close>

record turn =
  tn_poll :: poll_env
  tn_canceled :: bool
  tn_done :: bool

fun poll_loop :: "codec \<Rightarrow> index_config \<Rightarrow> string list \<Rightarrow> turn list \<Rightarrow> index_state \<Rightarrow> index_state" where
  "poll_loop cd cfg contracts [] s = s"
| "poll_loop cd cfg contracts (t # ts) s =
     (let (err, s) = pollOnce cd cfg (tn_poll t) contracts s
      in if err \<noteq> None \<and> tn_canceled t then s
         else if tn_done t then s
         else poll_loop cd cfg contracts ts s)"

definition indexer_main ::
  "codec \<Rightarrow> index_config \<Rightarrow> ping_env \<Rightarrow> ping_env \<Rightarrow> string option \<Rightarrow> string + u32 \<Rightarrow> turn list \<Rightarrow> db
   \<Rightarrow> string + index_state" where
  "indexer_main cd cfg dbe rde read_fault latest turns d =
     (case db_Open dbe of
        Inl err \<Rightarrow> Inl (''db open: '' @ err)
      | Inr _ \<Rightarrow>
     (case OpenRedis rde of
        Inl err \<Rightarrow> Inl (''redis open: '' @ err)
      | Inr _ \<Rightarrow>
          let contracts = collectContractIDs cfg
          in if contracts = [] then Inl ''at least one of PM/Vault/Registry contract id must be set''
             else
     (case decideStartCursor read_fault latest cfg d of
        Inl err \<Rightarrow> Inl (''decide start cursor: '' @ err)
      | Inr (startLedger, cursor) \<Rightarrow>
          Inr (poll_loop cd cfg contracts turns
            \<lparr> ix_startLedger = startLedger, ix_cursor = cursor, ix_db = d, ix_published = [] \<rparr>))))"

section \<open>The keeper\<close>

record keeper_config =
  kc_KeeperSecret :: string
  kc_NetworkPassphrase :: string
  kc_PMContractID :: string
  kc_BinanceWSURL :: string
  kc_PairSymbolMap :: string
  kc_KeeperMaxRetries :: int

text \<open>\<open>parse_full\<close> is \<open>keypair.ParseFull\<close>: the address of the key pair.\<close>

definition NewTxBuilder ::
  "(string \<Rightarrow> string + string) \<Rightarrow> string \<Rightarrow> string \<Rightarrow> string \<Rightarrow> i64 \<Rightarrow> string + tx_builder" where
  "NewTxBuilder parse_full secret networkPassphrase pmContractID initialSeq =
     (case parse_full secret of
        Inl err \<Rightarrow> Inl (''parse keeper secret: '' @ err)
      | Inr addr \<Rightarrow>
          Inr \<lparr> tb_Address = addr, tb_networkPassphrase = networkPassphrase, tb_pmContractID = pmContractID,
                tb_seq = initialSeq \<rparr>)"

definition keeperAddress :: "(string \<Rightarrow> string + string) \<Rightarrow> string \<Rightarrow> string + string" where
  "keeperAddress parse_full secret = (case parse_full secret of Inl err \<Rightarrow> Inl err | Inr addr \<Rightarrow> Inr addr)"

definition keeper_fetchSequence :: "'tx stellar \<Rightarrow> rpc_env \<Rightarrow> string \<Rightarrow> string + i64" where
  "keeper_fetchSequence sk rpc address =
     (case sk_SetAddress sk address of
        Inl err \<Rightarrow> Inl err
      | Inr aid \<Rightarrow>
     (case sk_MarshalAccountKey sk aid of
        Inl err \<Rightarrow> Inl err
      | Inr keyBytes \<Rightarrow>
     (case rp_GetLedgerEntries rpc [sk_EncodeToString sk keyBytes] of
        Inl err \<Rightarrow> Inl err
      | Inr res \<Rightarrow>
     (case lr_Entries res of
        [] \<Rightarrow> Inl (''keeper account not found on-chain: '' @ address)
      | x # _ \<Rightarrow>
     (case sk_DecodeString sk (ld_XDR x) of
        Inl err \<Rightarrow> Inl err
      | Inr entryRaw \<Rightarrow>
     (case sk_UnmarshalLedgerEntry sk entryRaw of
        Inl err \<Rightarrow> Inl err
      | Inr None \<Rightarrow> Inl ''ledger entry is not an account''
      | Inr (Some seq) \<Rightarrow> Inr seq))))))"

text \<open>\<open>main\<close> up to the loop over the prices: the executor's configuration, the keeper and the feed.\<close>

definition keeper_main ::
  "'tx stellar \<Rightarrow> (string \<Rightarrow> string + string) \<Rightarrow> (string \<Rightarrow> string) \<Rightarrow> (string \<Rightarrow> string) \<Rightarrow> keeper_config
   \<Rightarrow> ping_env \<Rightarrow> ping_env \<Rightarrow> trade_row db_query \<Rightarrow> limit_row db_query \<Rightarrow> fee_row db_query \<Rightarrow> rpc_env
   \<Rightarrow> string + 'tx exec_conf \<times> keeper \<times> binance_client" where
  "keeper_main sk parse_full up lo cfg dbe rde tq lq fq rpc =
     (if kc_KeeperSecret cfg = [] then Inl ''KEEPER_SECRET must be set''
      else if kc_PMContractID cfg = [] then Inl ''PM_CONTRACT_ID must be set''
      else if kc_PairSymbolMap cfg = [] then Inl ''PAIR_SYMBOL_MAP must be set (e.g. BTCUSDT:0,ETHUSDT:1)''
      else
     (case db_Open dbe of
        Inl err \<Rightarrow> Inl (''db open: '' @ err)
      | Inr _ \<Rightarrow>
     (case OpenRedis rde of
        Inl err \<Rightarrow> Inl (''redis open: '' @ err)
      | Inr _ \<Rightarrow>
     (case LoadFromDB tq lq fq NewTradeState of
        (Some err, s) \<Rightarrow> Inl (''load trades: '' @ err)
      | (None, s) \<Rightarrow>
     (case keeperAddress parse_full (kc_KeeperSecret cfg) of
        Inl err \<Rightarrow> Inl (''parse keeper secret: '' @ err)
      | Inr keeperKP \<Rightarrow>
     (case keeper_fetchSequence sk rpc keeperKP of
        Inl err \<Rightarrow> Inl (''fetch keeper sequence: '' @ err)
      | Inr seq \<Rightarrow>
     (case NewTxBuilder parse_full (kc_KeeperSecret cfg) (kc_NetworkPassphrase cfg) (kc_PMContractID cfg) seq of
        Inl err \<Rightarrow> Inl (''init tx builder: '' @ err)
      | Inr txb \<Rightarrow>
          Inr (\<lparr> ec_sdk = sk, ec_txb = txb, ec_networkPassphrase = kc_NetworkPassphrase cfg,
                 ec_maxRetries = kc_KeeperMaxRetries cfg \<rparr>,
               \<lparr> kp_exec = NewExecutor s, kp_tick = [] \<rparr>,
               NewBinanceClient up lo (kc_BinanceWSURL cfg) (kc_PairSymbolMap cfg)))))))))"

section \<open>Waiting for a server\<close>

lemma ping_loop_success:
  "fst (ping_loop env left attempt e) = None \<longleftrightarrow>
     left = 0 \<and> e = None \<or>
     (\<exists>k. attempt \<le> k \<and> k < attempt + left \<and> pv_ping env k = None \<and> (\<forall>j. attempt \<le> j \<and> j < k \<longrightarrow> \<not> pv_done env j))"
proof (induction left arbitrary: attempt e)
  case (Suc left)
  show ?case
  proof (cases "pv_ping env attempt")
    case None
    then show ?thesis by (auto intro!: exI [of _ attempt])
  next
    case (Some err)
    have "(\<exists>k. attempt \<le> k \<and> k < attempt + Suc left \<and> pv_ping env k = None \<and> (\<forall>j. attempt \<le> j \<and> j < k \<longrightarrow> \<not> pv_done env j)) \<longleftrightarrow>
        \<not> pv_done env attempt \<and> (\<exists>k. attempt + 1 \<le> k \<and> k < attempt + 1 + left \<and> pv_ping env k = None \<and>
          (\<forall>j. attempt + 1 \<le> j \<and> j < k \<longrightarrow> \<not> pv_done env j))" (is "?A \<longleftrightarrow> ?B")
    proof
      assume ?A
      then obtain k where k: "attempt \<le> k" "k < attempt + Suc left" "pv_ping env k = None"
        "\<forall>j. attempt \<le> j \<and> j < k \<longrightarrow> \<not> pv_done env j" by blast
      with Some have "attempt < k" by (cases "k = attempt") auto
      with k show ?B by (auto intro!: exI [of _ k])
    next
      assume ?B
      then obtain k where k: "\<not> pv_done env attempt" "attempt + 1 \<le> k" "k < attempt + 1 + left" "pv_ping env k = None"
        "\<forall>j. attempt + 1 \<le> j \<and> j < k \<longrightarrow> \<not> pv_done env j" by blast
      then have "\<forall>j. attempt \<le> j \<and> j < k \<longrightarrow> \<not> pv_done env j"
        by (metis Suc_eq_plus1 Suc_leI le_neq_implies_less)
      with k show ?A by (auto intro!: exI [of _ k])
    qed
    with Some Suc.IH [of "attempt + 1" "Some err"] show ?thesis by auto
  qed
qed auto

text \<open>Both servers are waited for: with a valid address, opening succeeds exactly if one of the first 30
  pings succeeds before the context is done.\<close>

lemma open_waits:
  assumes "pv_parse env = None" "pv_connect env = None"
  shows "db_Open env = Inr () \<longleftrightarrow>
      (\<exists>k. 1 \<le> k \<and> k \<le> 30 \<and> pv_ping env k = None \<and> (\<forall>j. 1 \<le> j \<and> j < k \<longrightarrow> \<not> pv_done env j))"
    and "OpenRedis env = Inr () \<longleftrightarrow>
      (\<exists>k. 1 \<le> k \<and> k \<le> 30 \<and> pv_ping env k = None \<and> (\<forall>j. 1 \<le> j \<and> j < k \<longrightarrow> \<not> pv_done env j))"
proof -
  have "fst (ping_loop env 30 1 None) = None \<longleftrightarrow>
      (\<exists>k. 1 \<le> k \<and> k \<le> 30 \<and> pv_ping env k = None \<and> (\<forall>j. 1 \<le> j \<and> j < k \<longrightarrow> \<not> pv_done env j))"
    unfolding ping_loop_success by (auto simp: less_Suc_eq_le [of _ 30, simplified])
  moreover have "db_Open env = Inr () \<longleftrightarrow> fst (ping_loop env 30 1 None) = None"
    "OpenRedis env = Inr () \<longleftrightarrow> fst (ping_loop env 30 1 None) = None"
    using assms by (simp_all add: db_Open_def OpenRedis_def split: option.split)
  ultimately show "db_Open env = Inr () \<longleftrightarrow>
      (\<exists>k. 1 \<le> k \<and> k \<le> 30 \<and> pv_ping env k = None \<and> (\<forall>j. 1 \<le> j \<and> j < k \<longrightarrow> \<not> pv_done env j))"
    "OpenRedis env = Inr () \<longleftrightarrow>
      (\<exists>k. 1 \<le> k \<and> k \<le> 30 \<and> pv_ping env k = None \<and> (\<forall>j. 1 \<le> j \<and> j < k \<longrightarrow> \<not> pv_done env j))"
    by simp_all
qed

section \<open>Stopping and starting the indexer\<close>

text \<open>A state whose process published something before.\<close>

definition after_publishing :: "(string \<times> event) list \<Rightarrow> index_state \<Rightarrow> index_state" where
  "after_publishing p s = s\<lparr>ix_published := p @ ix_published s\<rparr>"

lemma after_publishing_fields [simp]:
  "ix_startLedger (after_publishing p s) = ix_startLedger s" "ix_cursor (after_publishing p s) = ix_cursor s"
  "ix_db (after_publishing p s) = ix_db s"
  "(after_publishing p s)\<lparr>ix_db := d\<rparr> = after_publishing p (s\<lparr>ix_db := d\<rparr>)"
  "(after_publishing p s)\<lparr>ix_startLedger := l\<rparr> = after_publishing p (s\<lparr>ix_startLedger := l\<rparr>)"
  "(after_publishing p s)\<lparr>ix_cursor := c\<rparr> = after_publishing p (s\<lparr>ix_cursor := c\<rparr>)"
  "fanout e (after_publishing p s) = after_publishing p (fanout e s)"
  by (simp_all add: after_publishing_def fanout_def)

lemma index_event_after: "index_event cd cfg pg i ev (after_publishing p s) = after_publishing p (index_event cd cfg pg i ev s)"
  by (simp add: index_event_def Let_def split: sum.split prod.split option.split)

lemma index_events_after:
  "index_events cd cfg pg i evs (after_publishing p s) = after_publishing p (index_events cd cfg pg i evs s)"
  by (induction evs arbitrary: i s) (simp_all add: index_event_after)

lemma fetch_page_after:
  "fetch_page env contracts (after_publishing p s) = map_prod id (after_publishing p) (fetch_page env contracts s)"
  by (simp add: fetch_page_def Let_def split: sum.split prod.split option.split)

lemma advance_after: "advance c (after_publishing p s) = after_publishing p (advance c s)"
  by (simp add: advance_def Let_def split: option.split)

lemma pollOnce_after:
  "pollOnce cd cfg env contracts (after_publishing p s) = map_prod id (after_publishing p) (pollOnce cd cfg env contracts s)"
  by (cases "fetch_page env contracts s"; cases "fst (fetch_page env contracts s)")
    (simp_all add: pollOnce_def fetch_page_after index_events_after advance_after Let_def split: prod.split option.split)

lemma poll_loop_after:
  "poll_loop cd cfg contracts ts (after_publishing p s) = after_publishing p (poll_loop cd cfg contracts ts s)"
  by (induction ts arbitrary: s) (simp_all add: pollOnce_after case_prod_beta Let_def)

lemma poll_loop_append:
  assumes "\<forall>t \<in> set ts. \<not> tn_canceled t \<and> \<not> tn_done t"
  shows "poll_loop cd cfg contracts (ts @ us) s = poll_loop cd cfg contracts us (poll_loop cd cfg contracts ts s)"
  using assms by (induction ts arbitrary: s) (simp_all add: case_prod_beta Let_def)

text \<open>C6: stopping the indexer and starting it again is not noticed. If a process ran some polls, the last of
  them successful, and another process is started on the database it left, then the second one does what the
  first would have done in the same polls: the same database in the end, and together they published the
  same events in the same order.\<close>

theorem indexer_restart_transparent:
  assumes "indexer_main cd cfg dbe rde read_fault latest (ts @ [t]) d = Inr s1"
    and "indexer_main cd cfg dbe rde read_fault latest ts d = Inr s0"
    and "pollOnce cd cfg (tn_poll t) (collectContractIDs cfg) s0 = (None, s1)"
    and "\<forall>u \<in> set (ts @ [t]). \<not> tn_canceled u \<and> \<not> tn_done u"
    and "0 < ix_startLedger s1 \<or> ix_cursor s1 \<noteq> []"
    and "db_Open dbe' = Inr ()" "OpenRedis rde' = Inr ()"
  shows "\<exists>s2. indexer_main cd cfg dbe' rde' None latest' us (ix_db s1) = Inr s2 \<and>
    indexer_main cd cfg dbe rde read_fault latest ((ts @ [t]) @ us) d =
      Inr (s2\<lparr>ix_published := ix_published s1 @ ix_published s2\<rparr>)"
proof -
  let ?c = "collectContractIDs cfg"
  obtain l cur where start: "decideStartCursor read_fault latest cfg d = Inr (l, cur)" "?c \<noteq> []"
    "db_Open dbe = Inr ()" "OpenRedis rde = Inr ()"
    using assms(1) by (auto simp: indexer_main_def Let_def split: sum.splits if_splits)
  define s where "s = \<lparr> ix_startLedger = l, ix_cursor = cur, ix_db = d, ix_published = [] \<rparr>"
  define s' where "s' = s1\<lparr>ix_published := []\<rparr>"
  let ?s2 = "poll_loop cd cfg ?c us s'"
  have s': "\<lparr> ix_startLedger = ix_startLedger s1, ix_cursor = ix_cursor s1, ix_db = ix_db s1, ix_published = [] \<rparr> = s'"
    by (simp add: s'_def)
  have s1: "poll_loop cd cfg ?c (ts @ [t]) s = s1"
    using assms(1) start by (simp add: indexer_main_def Let_def s_def)
  have "indexer_main cd cfg dbe' rde' None latest' us (ix_db s1) = Inr ?s2"
    using pollOnce_durable [OF assms(3,5), of latest' cfg] start(2) assms(6,7)
    by (simp add: indexer_main_def s' Let_def)
  moreover have "indexer_main cd cfg dbe rde read_fault latest ((ts @ [t]) @ us) d =
      Inr (poll_loop cd cfg ?c us s1)"
    using start poll_loop_append [OF assms(4), of cd cfg ?c us s] s1
    by (simp add: indexer_main_def Let_def s_def)
  moreover have "poll_loop cd cfg ?c us s1 = after_publishing (ix_published s1) ?s2"
    using poll_loop_after [of cd cfg ?c us "ix_published s1" s'] by (simp add: s'_def after_publishing_def)
  ultimately show ?thesis by (auto simp: after_publishing_def)
qed

definition demo_ping :: ping_env where
  "demo_ping = \<lparr> pv_parse = None, pv_connect = None, pv_ping = (\<lambda>i. if i < 4 then Some ''refused'' else None),
     pv_done = (\<lambda>_. False) \<rparr>"

lemma demo_open: "db_Open demo_ping = Inr ()" "OpenRedis demo_ping = Inr ()"
proof -
  have "\<exists>k. 1 \<le> k \<and> k \<le> 30 \<and> pv_ping demo_ping k = None \<and> (\<forall>j. 1 \<le> j \<and> j < k \<longrightarrow> \<not> pv_done demo_ping j)"
    by (rule exI [of _ 4]) (simp add: demo_ping_def)
  moreover have "pv_parse demo_ping = None" "pv_connect demo_ping = None" by (simp_all add: demo_ping_def)
  ultimately show "db_Open demo_ping = Inr ()" "OpenRedis demo_ping = Inr ()" using open_waits by blast+
qed

definition demo_turn :: turn where
  "demo_turn = \<lparr> tn_poll = demo_poll, tn_canceled = False, tn_done = False \<rparr>"

definition demo_ids :: index_config where
  "demo_ids = \<lparr> ic_PMContractID = ''7'', ic_VaultContractID = ''7'', ic_RegistryContractID = ''7'',
     ic_IndexerStartLedger = 5 \<rparr>"

lemma demo_contracts: "collectContractIDs demo_ids = [''7'', ''7'', ''7'']"
proof -
  have "strings_TrimSpace ''7'' = ''7''" by (rule TrimSpace_id) (simp add: is_digit_def digit_val_def)
  then show ?thesis by (simp add: collectContractIDs_def demo_ids_def)
qed

lemma demo_poll_ok: "\<exists>s1. pollOnce cd cfg demo_poll contracts s = (None, s1) \<and> ix_cursor s1 \<noteq> []"
proof -
  let ?c = "nat_dec 8589934592 @ ''-1''"
  let ?s = "advance ?c s"
  obtain r d where w: "WriteCursor None (ucast (ix_startLedger ?s)) (ix_cursor ?s) (ix_db ?s) = (r, d)"
    by (cases "WriteCursor None (ucast (ix_startLedger ?s)) (ix_cursor ?s) (ix_db ?s)")
  have "fetch_page demo_poll contracts s = (Inr \<lparr> es_Events = [], es_LatestLedger = 9, es_Cursor = ?c \<rparr>, s)"
    by (simp add: fetch_page_def demo_poll_def Let_def)
  then have "pollOnce cd cfg demo_poll contracts s = (None, ?s\<lparr>ix_db := d\<rparr>)"
    using w WriteCursor_u32(1) [OF w] by (simp add: pollOnce_def demo_poll_def Let_def)
  moreover have "ix_cursor ?s = ?c" by (simp add: advance_def Let_def split: option.split)
  ultimately show ?thesis by simp
qed

theorem indexer_restart_transparent_witness:
  "\<exists>s1 s2. indexer_main demo_codec demo_ids demo_ping demo_ping None (Inl ''down'') [demo_turn] empty_db = Inr s1 \<and>
     indexer_main demo_codec demo_ids demo_ping demo_ping None (Inl ''down'') [demo_turn] (ix_db s1) = Inr s2 \<and>
     indexer_main demo_codec demo_ids demo_ping demo_ping None (Inl ''down'') [demo_turn, demo_turn] empty_db =
       Inr (s2\<lparr>ix_published := ix_published s1 @ ix_published s2\<rparr>)"
proof -
  let ?m = "\<lambda>ts. indexer_main demo_codec demo_ids demo_ping demo_ping None (Inl ''down'') ts"
  have m: "?m ts empty_db = Inr (poll_loop demo_codec demo_ids [''7'', ''7'', ''7''] ts
      \<lparr> ix_startLedger = 5, ix_cursor = [], ix_db = empty_db, ix_published = [] \<rparr>)" for ts
  proof -
    have "decideStartCursor None (Inl ''down'') demo_ids empty_db = Inr (5, [])"
      by (simp add: decideStartCursor_def ReadCursor_def empty_db_def demo_ids_def)
    then show ?thesis by (simp add: indexer_main_def demo_open demo_contracts)
  qed
  obtain s0 where s0: "?m [] empty_db = Inr s0" by (simp add: m)
  obtain s1 where s1: "pollOnce demo_codec demo_ids demo_poll [''7'', ''7'', ''7''] s0 = (None, s1)" "ix_cursor s1 \<noteq> []"
    using demo_poll_ok by blast
  have r: "?m [demo_turn] empty_db = Inr s1" using s0 s1 by (simp add: m demo_turn_def)
  have "\<exists>s2. ?m [demo_turn] (ix_db s1) = Inr s2 \<and>
      ?m (([] @ [demo_turn]) @ [demo_turn]) empty_db = Inr (s2\<lparr>ix_published := ix_published s1 @ ix_published s2\<rparr>)"
    using r s0 s1 by (intro indexer_restart_transparent)
      (simp_all add: demo_turn_def demo_contracts demo_open)
  with r show ?thesis by auto
qed

section \<open>Starting the keeper\<close>

text \<open>C7: the keeper starts, and is ready. Let the secret, the contract and the pair map be configured, both servers
  be reached, the tables satisfy the schema's constraints, the secret parse to an address, and the ledger
  entry that the RPC server returns for this address decode to an account. Then the start succeeds, in an
  initial state of the keeper's state machine with an empty queue. It holds, for every key, exactly the position,
  the limit order and the accumulators of the tables, column by column, with the pair's liquidation threshold
  where the pair is known. Its transactions are built for the configured contract and network, from the
  address of the secret, with the account's sequence number, and its feed subscribes to the pairs of the map.\<close>

theorem keeper_starts_ready:
  assumes "kc_KeeperSecret cfg \<noteq> []" "kc_PMContractID cfg \<noteq> []" "kc_PairSymbolMap cfg \<noteq> []"
    and "db_Open dbe = Inr ()" "OpenRedis rde = Inr ()" "db_ok d"
    and "parse_full (kc_KeeperSecret cfg) = Inr addr" "sk_SetAddress sk addr = Inr aid" "sk_MarshalAccountKey sk aid = Inr key"
    and "rp_GetLedgerEntries rpc [sk_EncodeToString sk key] = Inr res" "lr_Entries res = x # rest"
    and "sk_DecodeString sk (ld_XDR x) = Inr raw" "sk_UnmarshalLedgerEntry sk raw = Inr (Some seq)"
  shows "\<exists>c k s. keeper_main sk parse_full up lo cfg dbe rde (Inr (select_trades thr d, None)) (Inr (select_limits d, None))
      (Inr (select_fees d, None)) rpc = Inr (c, k, NewBinanceClient up lo (kc_BinanceWSURL cfg) (kc_PairSymbolMap cfg)) \<and>
    keeper_reachable c s k \<and> ex_pending (kp_exec k) = gm_empty \<and> ex_state (kp_exec k) = s \<and>
    (\<forall>key. gm_get (ts_trades s) key =
       map_option (\<lambda>r. position_of (threshold_of thr key r) key r) (gm_get (db_trades d) key)) \<and>
    (\<forall>key. gm_get (ts_limits s) key = map_option (order_of key) (gm_get (db_limit_orders d) key)) \<and>
    (\<forall>p. FeeState s p = map_option (fees_of p) (gm_get (db_pair_fee_accumulators d) p)) \<and>
    ec_txb c = \<lparr> tb_Address = addr, tb_networkPassphrase = kc_NetworkPassphrase cfg,
      tb_pmContractID = kc_PMContractID cfg, tb_seq = seq \<rparr> \<and>
    ec_maxRetries c = kc_KeeperMaxRetries cfg"
proof -
  obtain r s where "restart thr d = (r, s)" by (cases "restart thr d")
  note h = restart_holds [OF assms(6) this] and l = this
  have q: "keeper_fetchSequence sk rpc addr = Inr seq" using assms(8-13) by (simp add: keeper_fetchSequence_def)
  let ?txb = "\<lparr> tb_Address = addr, tb_networkPassphrase = kc_NetworkPassphrase cfg,
      tb_pmContractID = kc_PMContractID cfg, tb_seq = seq \<rparr>"
  let ?c = "\<lparr> ec_sdk = sk, ec_txb = ?txb, ec_networkPassphrase = kc_NetworkPassphrase cfg,
      ec_maxRetries = kc_KeeperMaxRetries cfg \<rparr>" and ?k = "\<lparr> kp_exec = NewExecutor s, kp_tick = [] \<rparr>"
  have "keeper_main sk parse_full up lo cfg dbe rde (Inr (select_trades thr d, None)) (Inr (select_limits d, None))
      (Inr (select_fees d, None)) rpc = Inr (?c, ?k, NewBinanceClient up lo (kc_BinanceWSURL cfg) (kc_PairSymbolMap cfg))"
    using assms(1-5,7) l h(1) q by (simp add: keeper_main_def restart_def keeperAddress_def NewTxBuilder_def)
  moreover have "keeper_reachable ?c s ?k" by (rule keeper_reachable.init)
  moreover have "ex_pending (NewExecutor s) = gm_empty" "ex_state (NewExecutor s) = s" by (simp_all add: NewExecutor_def)
  ultimately show ?thesis using h(2-4) by (intro exI [of _ ?c] exI [of _ ?k] exI [of _ s]) simp
qed

definition demo_keeper_config :: keeper_config where
  "demo_keeper_config = \<lparr> kc_KeeperSecret = ''S'', kc_NetworkPassphrase = ''net'', kc_PMContractID = ''pm'',
     kc_BinanceWSURL = ''wss'', kc_PairSymbolMap = ''btcusdt:0'', kc_KeeperMaxRetries = 20 \<rparr>"

text \<open>Tables with one open position, of a pair with the threshold 85.\<close>

definition demo_start_db :: db where
  "demo_start_db = empty_db\<lparr>db_trades :=
     gm_put (TradeKey ''alice'' 1 2) (opened_rec demo_db_opened (the (ev_Trade demo_db_opened)) 3) gm_empty\<rparr>"

lemma demo_start_db_ok: "db_ok demo_start_db"
  by (simp add: demo_start_db_def db_ok_def empty_db_def opened_rec_def Let_def demo_db_defs)
    (simp add: gm_wf_def gm_put_def gm_empty_def)

theorem keeper_starts_ready_witness:
  "\<exists>c k b t. keeper_main demo_sdk Inr id id demo_keeper_config demo_ping demo_ping
       (Inr (select_trades (\<lambda>_. Some 85) demo_start_db, None)) (Inr (select_limits demo_start_db, None))
       (Inr (select_fees demo_start_db, None)) (demo_rpc [] ''PENDING'') = Inr (c, k, b) \<and>
     tb_Address (ec_txb c) = ''S'' \<and> tb_seq (ec_txb c) = 41 \<and>
     gm_get (ts_trades (ex_state (kp_exec k))) (TradeKey ''alice'' 1 2) = Some t \<and>
     te_OpenPrice t = Some 1000 \<and> te_SlPrice t = Some 950 \<and> te_LiqThresholdP t = 85"
proof -
  let ?e = "\<lparr> ld_Key = ''k'', ld_XDR = ''a'', ld_LastModified = 1, ld_LiveUntilLedger = 0 \<rparr>"
  have "\<exists>c k s. keeper_main demo_sdk Inr id id demo_keeper_config demo_ping demo_ping
       (Inr (select_trades (\<lambda>_. Some 85) demo_start_db, None)) (Inr (select_limits demo_start_db, None))
       (Inr (select_fees demo_start_db, None)) (demo_rpc [] ''PENDING'') =
        Inr (c, k, NewBinanceClient id id (kc_BinanceWSURL demo_keeper_config) (kc_PairSymbolMap demo_keeper_config)) \<and>
    keeper_reachable c s k \<and> ex_pending (kp_exec k) = gm_empty \<and> ex_state (kp_exec k) = s \<and>
    (\<forall>key. gm_get (ts_trades s) key =
       map_option (\<lambda>r. position_of (threshold_of (\<lambda>_. Some 85) key r) key r) (gm_get (db_trades demo_start_db) key)) \<and>
    (\<forall>key. gm_get (ts_limits s) key = map_option (order_of key) (gm_get (db_limit_orders demo_start_db) key)) \<and>
    (\<forall>p. FeeState s p = map_option (fees_of p) (gm_get (db_pair_fee_accumulators demo_start_db) p)) \<and>
    ec_txb c = \<lparr> tb_Address = ''S'', tb_networkPassphrase = kc_NetworkPassphrase demo_keeper_config,
      tb_pmContractID = kc_PMContractID demo_keeper_config, tb_seq = 41 \<rparr> \<and>
    ec_maxRetries c = kc_KeeperMaxRetries demo_keeper_config"
    by (rule keeper_starts_ready [OF _ _ _ demo_open demo_start_db_ok, where x = ?e and rest = "[]"])
      (simp_all add: demo_keeper_config_def demo_sdk_def demo_rpc_def, simp)
  then show ?thesis
    by (auto simp: demo_start_db_def position_of_def threshold_of_def opened_rec_def Let_def demo_db_defs)
qed

end
