(* ===== verification/Pair_Indexer.thy ===== *)
theory Pair_Indexer
  imports Restart
begin

text \<open>
  \<^verbatim>\<open>cmd/pair-indexer/main.go\<close>: the job that copies the registry's pairs, groups, fee
  accumulators and open interest into the database.

  The registry is read through the command line tool \<open>stellar\<close>: the outcome of the \<open>i\<close>-th run
  of a command is a parameter (\<open>cli_env\<close>), and so are the JSON decoders (\<open>pair_json\<close>; a decoder
  of a string gets the old value, which JSON null leaves in place) and what PostgreSQL reads
  from a text for a NUMERIC column (\<open>pn_numeric\<close>, an integer or an error: the registry's numbers are
  integers; that such a column also takes fractions and NaN is left out). The tables \<open>pairs\<close> and \<open>pair_groups\<close> are
  modelled here, the other two in \<open>Store\<close>.

  Proved here: a command is run at most six times, with growing waits; every pair whose
  commands succeed is stored with the registry's values, also for the keeper, which reads the
  accumulators back; a pair whose commands fail keeps its row.
\<close>

section \<open>Running a command\<close>

record cli_out =
  co_err :: "string option"
  co_stdout :: string
  co_stderr :: string

text \<open>The i-th run of the command, with its arguments; is the context done before it, or during the wait
  after it?\<close>

record cli_env =
  ce_run :: "nat \<Rightarrow> string list \<Rightarrow> cli_out"
  ce_done :: "nat \<Rightarrow> bool"
  ce_done_waiting :: "nat \<Rightarrow> bool"

text \<open>The fields of the configuration that the job reads, and the arguments of \<open>stellar\<close>.\<close>

record pair_config =
  pc_RegistryContractID :: string
  pc_StellarSourceAccount :: string
  pc_SorobanRPCURL :: string
  pc_NetworkPassphrase :: string

definition cmdArgs :: "pair_config \<Rightarrow> string \<Rightarrow> string list \<Rightarrow> string list" where
  "cmdArgs cfg meth args =
     [''contract'', ''invoke'', ''--id'', pc_RegistryContractID cfg,
      ''--source-account'', pc_StellarSourceAccount cfg, ''--rpc-url'', pc_SorobanRPCURL cfg,
      ''--network-passphrase'', pc_NetworkPassphrase cfg, ''--'', meth] @ args"

definition retry_signals :: "string list" where
  "retry_signals =
     [''429'', ''rejected'', ''too many requests'', ''rate limit'', ''timeout'', ''connection refused'',
      ''context deadline exceeded'']"

definition isRetryableOutput :: "(string \<Rightarrow> string) \<Rightarrow> string \<Rightarrow> bool" where
  "isRetryableOutput uni out =
     (let lowered = strings_ToLower uni out in list_ex (strings_Contains lowered) retry_signals)"

definition pair_nextBackoff :: "i64 \<Rightarrow> i64" where
  "pair_nextBackoff current =
     (if current = 0 then 1000000000
      else
        let nxt = current * 2
        in if sint nxt > 30000000000 then 30000000000 else nxt)"

text \<open>
  The loop, by the number of attempts left; the attempt is the current one, from 1. The result
  comes with the waits.
\<close>

fun attempt_calls ::
  "(string \<Rightarrow> string) \<Rightarrow> cli_env \<Rightarrow> string list \<Rightarrow> string \<Rightarrow> nat \<Rightarrow> i64 \<Rightarrow> (string + string) \<times> i64 list" where
  "attempt_calls uni env cmd meth 0 backoff = (Inl (meth @ '': max attempts exceeded''), [])"
| "attempt_calls uni env cmd meth (Suc left) backoff =
     (let attempt = 6 - left in
      if ce_done env attempt then (Inl ''context done'', [])
      else
        let out = ce_run env attempt cmd in
        (case co_err out of
           None \<Rightarrow> (Inr (strings_TrimSpace (co_stdout out)), [])
         | Some err \<Rightarrow>
             let stderrStr = strings_TrimSpace (co_stderr out);
                 stdoutStr = strings_TrimSpace (co_stdout out);
                 retryable = isRetryableOutput uni stderrStr \<or> isRetryableOutput uni stdoutStr;
                 diagStr = (if stderrStr = [] then stdoutStr else stderrStr)
             in
             if attempt = 6 \<or> \<not> retryable
             then (Inl (meth @ '' (attempt '' @ nat_dec attempt @ ''/6): '' @ err @ '': '' @ diagStr), [])
             else
               let backoff = pair_nextBackoff backoff
               in if ce_done_waiting env attempt then (Inl ''context done'', [backoff])
                  else (let (r, waits) = attempt_calls uni env cmd meth left backoff in (r, backoff # waits))))"

definition callContract ::
  "(string \<Rightarrow> string) \<Rightarrow> pair_config \<Rightarrow> cli_env \<Rightarrow> string \<Rightarrow> string list \<Rightarrow> (string + string) \<times> i64 list" where
  "callContract uni cfg env meth args = attempt_calls uni env (cmdArgs cfg meth args) meth 6 0"

section \<open>What the registry returns\<close>

record pair_info =
  pr_Symbol :: string
  pr_Stellar :: "string option"
  pr_Other :: "string option"
  pr_GroupIndex :: u32
  pr_SpreadP :: string
  pr_MinLeverage :: u32
  pr_MaxLeverage :: u32
  pr_MinLevPosUsdc :: string
  pr_MaxOiUsdc :: string
  pr_MaxNegPnlP :: string
  pr_LiqThresholdP :: u32
  pr_MaxGainP :: u32
  pr_Disabled :: bool

record group =
  gr_Name :: string
  gr_MaxCollateralUsdc :: string
  gr_OpenFeeP :: string
  gr_CloseFeeP :: string

record rollover_state =
  rs_AccPerCollateral :: string
  rs_FeePerLedgerP :: string
  rs_LastUpdateLedger :: u32

record funding_state =
  fs_AccLong :: string
  fs_AccShort :: string
  fs_FeePerLedgerP :: string
  fs_LastUpdateLedger :: u32

record pair_oi_info =
  oi_Long :: string
  oi_Short :: string

record pair_json =
  pj_count :: "string \<Rightarrow> string + u32"
  pj_pair :: "string \<Rightarrow> string + pair_info"
  pj_string :: "string \<Rightarrow> string \<Rightarrow> string + string"
  pj_group :: "string \<Rightarrow> string + group"
  pj_rollover :: "string \<Rightarrow> string + rollover_state"
  pj_funding :: "string \<Rightarrow> string + funding_state"
  pj_oi :: "string \<Rightarrow> string + pair_oi_info"
  pj_strings :: "string \<Rightarrow> string + string list"
  pj_anys :: "string \<Rightarrow> string + string list"

text \<open>The elements of \<open>pj_anys\<close> are as \<open>fmt.Sprint\<close> prints them.\<close>

definition parseFundingPair :: "pair_json \<Rightarrow> string \<Rightarrow> string + (string \<times> string)" where
  "parseFundingPair js raw =
     (let anys = (case pj_anys js raw of
                    Inl err \<Rightarrow> Inl err
                  | Inr (a # b # _) \<Rightarrow> Inr (a, b)
                  | Inr vs \<Rightarrow> Inl (''expected 2 tuple values, got '' @ nat_dec (length vs)))
      in case pj_strings js raw of
           Inr (a # b # _) \<Rightarrow> Inr (a, b)
         | _ \<Rightarrow> anys)"

section \<open>The tables\<close>

record pair_rec =
  px_symbol :: string
  px_asset_type :: string
  px_asset :: string
  px_group_index :: int
  px_spread_p :: int
  px_min_leverage :: int
  px_max_leverage :: int
  px_min_lev_pos_usdc :: int
  px_max_oi_usdc :: int
  px_max_neg_pnl_p :: int
  px_liq_threshold_p :: int
  px_max_gain_p :: int
  px_disabled :: bool
  px_one_percent_depth :: int
  px_synced_at :: go_time

record group_rec =
  gx_name :: string
  gx_max_collateral_usdc :: int
  gx_open_fee_p :: int
  gx_close_fee_p :: int
  gx_synced_at :: go_time

record pair_db =
  pd_pairs :: "(int, pair_rec) gmap"
  pd_groups :: "(int, group_rec) gmap"
  pd_db :: db

text \<open>The server: its clock, its reading of numbers, and a fault per statement.\<close>

record pair_env =
  pn_now :: go_time
  pn_numeric :: "string \<Rightarrow> string + int"
  pn_fault_pair :: "u32 \<Rightarrow> string option"
  pn_fault_group :: "u32 \<Rightarrow> string option"
  pn_fault_fees :: "u32 \<Rightarrow> string option"
  pn_fault_oi :: "u32 \<Rightarrow> string option"

definition first_fault :: "string option list \<Rightarrow> string option" where
  "first_fault fs = (case filter (\<lambda>f. f \<noteq> None) fs of [] \<Rightarrow> None | f # _ \<Rightarrow> f)"

definition fits4 :: "u32 \<Rightarrow> string option" where
  "fits4 w = (if int4_ok w then None else Some out_of_range)"

definition bad :: "string + 'a \<Rightarrow> string option" where
  "bad r = (case r of Inl err \<Rightarrow> Some err | Inr _ \<Rightarrow> None)"

definition val :: "string + int \<Rightarrow> int" where
  "val r = (case r of Inl _ \<Rightarrow> 0 | Inr x \<Rightarrow> x)"

definition pair_row :: "pair_env \<Rightarrow> pair_info \<Rightarrow> string \<Rightarrow> pair_rec" where
  "pair_row env p depth =
     (let (assetType, assetVal) =
            (case pr_Stellar p of
               Some s \<Rightarrow> (''stellar'', s)
             | None \<Rightarrow> (case pr_Other p of Some s \<Rightarrow> (''other'', s) | None \<Rightarrow> (''other'', [])));
          num = (\<lambda>s. val (pn_numeric env s))
      in \<lparr> px_symbol = pr_Symbol p, px_asset_type = assetType, px_asset = assetVal,
           px_group_index = uint (pr_GroupIndex p), px_spread_p = num (pr_SpreadP p),
           px_min_leverage = uint (pr_MinLeverage p), px_max_leverage = uint (pr_MaxLeverage p),
           px_min_lev_pos_usdc = num (pr_MinLevPosUsdc p), px_max_oi_usdc = num (pr_MaxOiUsdc p),
           px_max_neg_pnl_p = num (pr_MaxNegPnlP p), px_liq_threshold_p = uint (pr_LiqThresholdP p),
           px_max_gain_p = uint (pr_MaxGainP p), px_disabled = pr_Disabled p,
           px_one_percent_depth = num depth, px_synced_at = pn_now env \<rparr>)"

text \<open>What makes the statement fail: a column that the value does not fit, or the server.\<close>

definition pair_fault :: "pair_env \<Rightarrow> u32 \<Rightarrow> pair_info \<Rightarrow> string \<Rightarrow> string option" where
  "pair_fault env idx p depth =
     first_fault
             [fits4 idx, fits4 (pr_GroupIndex p), bad (pn_numeric env (pr_SpreadP p)), fits4 (pr_MinLeverage p),
              fits4 (pr_MaxLeverage p), bad (pn_numeric env (pr_MinLevPosUsdc p)),
              bad (pn_numeric env (pr_MaxOiUsdc p)), bad (pn_numeric env (pr_MaxNegPnlP p)),
              fits4 (pr_LiqThresholdP p), fits4 (pr_MaxGainP p), bad (pn_numeric env depth),
              pn_fault_pair env idx]"

definition upsertPair :: "pair_env \<Rightarrow> u32 \<Rightarrow> pair_info \<Rightarrow> string \<Rightarrow> pair_db \<Rightarrow> string option \<times> pair_db" where
  "upsertPair env idx p depth d =
     (case pair_fault env idx p depth of
        Some err \<Rightarrow> (Some err, d)
      | None \<Rightarrow> (None, d\<lparr>pd_pairs := gm_put (uint idx) (pair_row env p depth) (pd_pairs d)\<rparr>))"

definition group_row :: "pair_env \<Rightarrow> group \<Rightarrow> group_rec" where
  "group_row env g =
     (let num = (\<lambda>s. val (pn_numeric env s))
      in \<lparr> gx_name = gr_Name g, gx_max_collateral_usdc = num (gr_MaxCollateralUsdc g),
           gx_open_fee_p = num (gr_OpenFeeP g), gx_close_fee_p = num (gr_CloseFeeP g),
           gx_synced_at = pn_now env \<rparr>)"

definition upsertGroup :: "pair_env \<Rightarrow> u32 \<Rightarrow> group \<Rightarrow> pair_db \<Rightarrow> string option \<times> pair_db" where
  "upsertGroup env idx g d =
     (case first_fault
             [fits4 idx, bad (pn_numeric env (gr_MaxCollateralUsdc g)), bad (pn_numeric env (gr_OpenFeeP g)),
              bad (pn_numeric env (gr_CloseFeeP g)), pn_fault_group env idx] of
        Some err \<Rightarrow> (Some err, d)
      | None \<Rightarrow> (None, d\<lparr>pd_groups := gm_put (uint idx) (group_row env g) (pd_groups d)\<rparr>))"

section \<open>Synchronising a pair\<close>

text \<open>The registry seen through \<open>callContract\<close>: a method and its arguments.\<close>

type_synonym registry = "string \<Rightarrow> string list \<Rightarrow> string + string"

definition decoded :: "string + string \<Rightarrow> (string \<Rightarrow> string + 'a) \<Rightarrow> string \<Rightarrow> string + 'a" where
  "decoded raw parse what =
     (case raw of
        Inl err \<Rightarrow> Inl (what @ '': '' @ err)
      | Inr r \<Rightarrow> (case parse r of Inl err \<Rightarrow> Inl (''parse '' @ what @ '': '' @ err) | Inr v \<Rightarrow> Inr v))"

definition fee_row_of :: "pair_env \<Rightarrow> string \<Rightarrow> string \<Rightarrow> string \<Rightarrow> string \<Rightarrow> string \<Rightarrow> u32 \<Rightarrow> fee_rec" where
  "fee_row_of env roll long short rfee ffee atLedger =
     (let num = (\<lambda>s. val (pn_numeric env s))
      in \<lparr> fa_acc_rollover = num roll, fa_acc_funding_long = num long, fa_acc_funding_short = num short,
           fa_rollover_fee_per_ledger_p = num rfee, fa_funding_fee_per_ledger_p = num ffee,
           fa_projected_at_ledger = uint atLedger, fa_synced_at = pn_now env \<rparr>)"

definition write_fees ::
  "pair_env \<Rightarrow> u32 \<Rightarrow> u32 \<Rightarrow> string \<Rightarrow> string \<times> string \<Rightarrow> string \<Rightarrow> string \<Rightarrow> string \<times> string \<Rightarrow> pair_db
   \<Rightarrow> string option \<times> pair_db" where
  "write_fees env pairIndex atLedger roll funding rfee ffee oi d =
     (case first_fault
             [fits4 pairIndex, bad (pn_numeric env roll), bad (pn_numeric env (fst funding)),
              bad (pn_numeric env (snd funding)), bad (pn_numeric env rfee), bad (pn_numeric env ffee),
              pn_fault_fees env pairIndex] of
        Some err \<Rightarrow> (Some err, d)
      | None \<Rightarrow>
          let db = pd_db d;
              db = db\<lparr>db_pair_fee_accumulators :=
                     gm_put (uint pairIndex) (fee_row_of env roll (fst funding) (snd funding) rfee ffee atLedger)
                       (db_pair_fee_accumulators db)\<rparr>;
              d = d\<lparr>pd_db := db\<rparr>
          in (case first_fault
                     [bad (pn_numeric env (fst oi)), bad (pn_numeric env (snd oi)), pn_fault_oi env pairIndex] of
                Some err \<Rightarrow> (Some err, d)
              | None \<Rightarrow>
                  (None, d\<lparr>pd_db := db\<lparr>db_pair_oi :=
                     gm_put (uint pairIndex)
                       \<lparr> oi_long = val (pn_numeric env (fst oi)), oi_short = val (pn_numeric env (snd oi)),
                         oi_updated_at = pn_now env \<rparr> (db_pair_oi db)\<rparr>\<rparr>)))"

definition syncFeeAccumulators ::
  "pair_env \<Rightarrow> pair_json \<Rightarrow> registry \<Rightarrow> u32 \<Rightarrow> u32 \<Rightarrow> pair_db \<Rightarrow> string option \<times> pair_db" where
  "syncFeeAccumulators env js reg pairIndex atLedger d =
     (let i = int_dec (uint pairIndex); pair = [''--pair_index'', i];
          view = [''--pair_index'', i, ''--at_ledger'', int_dec (uint atLedger)]
      in
      case decoded (reg ''get_acc_rollover'' pair) (pj_rollover js) ''get_acc_rollover'' of
        Inl err \<Rightarrow> (Some err, d)
      | Inr rollover \<Rightarrow>
     (case decoded (reg ''get_acc_funding'' pair) (pj_funding js) ''get_acc_funding'' of
        Inl err \<Rightarrow> (Some err, d)
      | Inr fund \<Rightarrow>
     (case decoded (reg ''get_oi'' pair) (pj_oi js) ''get_oi'' of
        Inl err \<Rightarrow> (Some err, d)
      | Inr oi \<Rightarrow>
     (case decoded (reg ''pending_acc_rollover_view'' view) (pj_string js []) ''pending_acc_rollover_view'' of
        Inl err \<Rightarrow> (Some err, d)
      | Inr roll \<Rightarrow>
     (case decoded (reg ''pending_acc_funding_view'' view) (parseFundingPair js) ''pending_acc_funding_view'' of
        Inl err \<Rightarrow> (Some err, d)
      | Inr funding \<Rightarrow>
          write_fees env pairIndex atLedger roll funding (rs_FeePerLedgerP rollover) (fs_FeePerLedgerP fund)
            (oi_Long oi, oi_Short oi) d)))))"

text \<open>The body of the loop over the pairs; the errors are logged.\<close>

definition sync_group ::
  "pair_env \<Rightarrow> pair_json \<Rightarrow> registry \<Rightarrow> u32 \<Rightarrow> u32 list \<times> pair_db \<Rightarrow> u32 list \<times> pair_db" where
  "sync_group env js reg g = (\<lambda>(seen, d).
     if g \<in> set seen then (seen, d)
     else
       (case decoded (reg ''get_group'' [''--group_index'', int_dec (uint g)]) (pj_group js) ''get_group'' of
          Inl err \<Rightarrow> (seen, d)
        | Inr grp \<Rightarrow>
            (case upsertGroup env g grp d of
               (Some err, d) \<Rightarrow> (seen, d)
             | (None, d) \<Rightarrow> (g # seen, d))))"

definition sync_pair ::
  "pair_env \<Rightarrow> pair_json \<Rightarrow> registry \<Rightarrow> u32 \<Rightarrow> u32 \<Rightarrow> u32 list \<times> pair_db \<Rightarrow> u32 list \<times> pair_db" where
  "sync_pair env js reg latest i = (\<lambda>(seen, d).
     (let arg = [''--pair_index'', int_dec (uint i)]
      in
      case decoded (reg ''get_pair'' arg) (pj_pair js) ''get_pair'' of
        Inl err \<Rightarrow> (seen, d)
      | Inr pair \<Rightarrow>
          let depth = (case reg ''get_depth'' arg of
                         Inl err \<Rightarrow> ''0''
                       | Inr raw \<Rightarrow> (case pj_string js ''0'' raw of Inl err \<Rightarrow> ''0'' | Inr x \<Rightarrow> x))
          in (case upsertPair env i pair depth d of
                (Some err, d) \<Rightarrow> (seen, d)
              | (None, d) \<Rightarrow>
                  sync_group env js reg (pr_GroupIndex pair) (seen, snd (syncFeeAccumulators env js reg i latest d)))))"

text \<open>\<open>main\<close> after the count was read. Every pair has its own answers and faults (within one turn no command
  is run twice); the context may be done before the i-th pair.\<close>

fun sync_pairs ::
  "(nat \<Rightarrow> pair_env) \<Rightarrow> pair_json \<Rightarrow> (nat \<Rightarrow> registry) \<Rightarrow> u32 \<Rightarrow> (nat \<Rightarrow> bool) \<Rightarrow> nat list
   \<Rightarrow> u32 list \<times> pair_db \<Rightarrow> u32 list \<times> pair_db" where
  "sync_pairs env js reg latest ctx_done [] s = s"
| "sync_pairs env js reg latest ctx_done (i # is) s =
     (if ctx_done i then s
      else sync_pairs env js reg latest ctx_done is (sync_pair (env i) js (reg i) latest (of_nat i) s))"

text \<open>\<open>main\<close> once the database is open; the count is read before the first turn.\<close>

definition pair_main ::
  "(nat \<Rightarrow> pair_env) \<Rightarrow> pair_json \<Rightarrow> (nat \<Rightarrow> registry) \<Rightarrow> string + u32 \<Rightarrow> (nat \<Rightarrow> bool) \<Rightarrow> pair_db
   \<Rightarrow> string + pair_db" where
  "pair_main env js reg latest ctx_done d =
     (case latest of
        Inl err \<Rightarrow> Inl err
      | Inr l \<Rightarrow>
     (case decoded (reg 0 ''pairs_count'' []) (pj_count js) ''pairs_count'' of
        Inl err \<Rightarrow> Inl err
      | Inr n \<Rightarrow> Inr (snd (sync_pairs env js reg l ctx_done [0..<unat n] ([], d)))))"

text \<open>The registry as the command line tool answers for it.\<close>

definition cli_registry ::
  "(string \<Rightarrow> string) \<Rightarrow> pair_config \<Rightarrow> (string \<Rightarrow> string list \<Rightarrow> cli_env) \<Rightarrow> registry" where
  "cli_registry uni cfg cli = (\<lambda>meth args. fst (callContract uni cfg (cli meth args) meth args))"

section \<open>Attempts\<close>

definition seconds :: "nat \<Rightarrow> i64" where
  "seconds n = word_of_int (int n * 1000000000)"

text \<open>A failure that is worth another attempt.\<close>

definition transient :: "(string \<Rightarrow> string) \<Rightarrow> cli_out \<Rightarrow> bool" where
  "transient uni out \<longleftrightarrow> co_err out \<noteq> None \<and>
     (isRetryableOutput uni (strings_TrimSpace (co_stderr out)) \<or>
      isRetryableOutput uni (strings_TrimSpace (co_stdout out)))"

lemma pair_nextBackoff_doubles:
  "pair_nextBackoff 0 = seconds 1" "n < 4 \<Longrightarrow> pair_nextBackoff (seconds (2 ^ n)) = seconds (2 ^ Suc n)"
proof -
  show "pair_nextBackoff 0 = seconds 1" by (simp add: pair_nextBackoff_def seconds_def)
  assume "n < 4"
  then consider "n = 0" | "n = 1" | "n = 2" | "n = 3" by linarith
  then show "pair_nextBackoff (seconds (2 ^ n)) = seconds (2 ^ Suc n)"
    by cases (simp_all add: pair_nextBackoff_def seconds_def Let_def)
qed

lemma attempt_calls_success:
  assumes "\<forall>j. \<not> ce_done env j \<and> \<not> ce_done_waiting env j"
    and "k \<le> 6" "\<forall>j. 6 - left \<le> j \<and> j < k \<longrightarrow> transient uni (ce_run env j cmd)" "co_err (ce_run env k cmd) = None"
    and "left < 6" "6 - left \<le> k" "backoff = (if left = 5 then 0 else seconds (2 ^ (4 - left)))"
  shows "attempt_calls uni env cmd meth (Suc left) backoff =
    (Inr (strings_TrimSpace (co_stdout (ce_run env k cmd))), map (\<lambda>n. seconds (2 ^ n)) [5 - left..<k - 1])"
  using assms(3,5-7)
proof (induction left arbitrary: backoff)
  case 0
  then have "k = 6" using assms(2) by simp
  then show ?case using assms(1,4) by (simp add: Let_def)
next
  case (Suc left)
  let ?a = "6 - Suc left"
  show ?case
  proof (cases "k = ?a")
    case True
    then show ?thesis using assms(1,4) by (simp add: Let_def)
  next
    case False
    then have t: "transient uni (ce_run env ?a cmd)" and a: "?a < k" using Suc.prems by auto
    then obtain err where err: "co_err (ce_run env ?a cmd) = Some err" by (auto simp: transient_def)
    have b: "pair_nextBackoff backoff = seconds (2 ^ (4 - left))"
    proof (cases "Suc left = 5")
      case True
      then show ?thesis using Suc.prems(4) pair_nextBackoff_doubles(1) by simp
    next
      case False
      then have "4 - left = Suc (4 - Suc left)" "4 - Suc left < 4" using Suc.prems(2) by auto
      then show ?thesis using False Suc.prems(4) pair_nextBackoff_doubles(2) [of "4 - Suc left"] by simp
    qed
    have r: "attempt_calls uni env cmd meth (Suc left) (seconds (2 ^ (4 - left))) =
        (Inr (strings_TrimSpace (co_stdout (ce_run env k cmd))), map (\<lambda>n. seconds (2 ^ n)) [5 - left..<k - 1])"
      using Suc.prems a by (intro Suc.IH) auto
    have "attempt_calls uni env cmd meth (Suc (Suc left)) backoff =
        (let (r, waits) = attempt_calls uni env cmd meth (Suc left) (pair_nextBackoff backoff)
         in (r, pair_nextBackoff backoff # waits))"
      using assms(1) t err Suc.prems(2) by (subst attempt_calls.simps(2)) (auto simp: Let_def transient_def)
    moreover have "map (\<lambda>n. seconds (2 ^ n)) [5 - Suc left..<k - 1] =
        seconds (2 ^ (4 - left)) # map (\<lambda>n. seconds (2 ^ n)) [5 - left..<k - 1]"
    proof -
      have "5 - Suc left < k - 1" "Suc (5 - Suc left) = 5 - left" "5 - Suc left = 4 - left"
        using Suc.prems(2) a by auto
      then show ?thesis by (simp add: upt_conv_Cons)
    qed
    ultimately show ?thesis using b r by simp
  qed
qed

text \<open>A registry call survives up to five transient failures. When the first runs of the command fail
  with a rate limit, a timeout or the like and the k-th run, k at most 6, succeeds, the call returns this
  run's output, having waited 1, 2, 4, 8 and 16 seconds in between; every run is the same command, the
  given method of the configured registry.\<close>

lemma callContract_success:
  assumes "\<forall>j. \<not> ce_done env j \<and> \<not> ce_done_waiting env j" "1 \<le> k" "k \<le> 6"
    and "\<forall>j. 1 \<le> j \<and> j < k \<longrightarrow> transient uni (ce_run env j (cmdArgs cfg meth args))"
    and "co_err (ce_run env k (cmdArgs cfg meth args)) = None"
  shows "callContract uni cfg env meth args =
    (Inr (strings_TrimSpace (co_stdout (ce_run env k (cmdArgs cfg meth args)))), map (\<lambda>n. seconds (2 ^ n)) [0..<k - 1])"
proof -
  have "6 = Suc (5 :: nat)" by simp
  then show ?thesis
    using attempt_calls_success [of env k 5 uni "cmdArgs cfg meth args" 0 meth] assms unfolding callContract_def by auto
qed

definition demo_cli :: cli_env where
  "demo_cli = \<lparr> ce_run = (\<lambda>i cmd. if i < 3 then \<lparr> co_err = Some ''exit 1'', co_stdout = [], co_stderr = ''429'' \<rparr>
       else \<lparr> co_err = None, co_stdout = nat_dec 7, co_stderr = [] \<rparr>),
     ce_done = (\<lambda>_. False), ce_done_waiting = (\<lambda>_. False) \<rparr>"

definition demo_pair_config :: pair_config where
  "demo_pair_config = \<lparr> pc_RegistryContractID = ''RE'', pc_StellarSourceAccount = ''keeper'',
     pc_SorobanRPCURL = ''http://rpc'', pc_NetworkPassphrase = ''net'' \<rparr>"

lemma demo_cli_transient: "j < 3 \<Longrightarrow> transient id (ce_run demo_cli j cmd)"
proof -
  assume "j < 3"
  moreover have "strings_TrimSpace ''429'' = ''429''"
    by (rule TrimSpace_id) (simp add: is_digit_def digit_val_def)
  ultimately show ?thesis
    by (simp add: transient_def demo_cli_def isRetryableOutput_def retry_signals_def
        strings_ToLower_def is_ascii_def ascii_ToLower_def lower_char_def strings_Contains_def Let_def)
qed

text \<open>A tool that answers for a registry within six runs.\<close>

definition reliable_cli ::
  "(string \<Rightarrow> string) \<Rightarrow> pair_config \<Rightarrow> (string \<Rightarrow> string list \<Rightarrow> cli_env) \<Rightarrow> (string \<Rightarrow> string list \<Rightarrow> string) \<Rightarrow> bool" where
  "reliable_cli uni cfg cli answer \<longleftrightarrow> (\<forall>meth args.
     let env = cli meth args; cmd = cmdArgs cfg meth args
     in (\<forall>j. \<not> ce_done env j \<and> \<not> ce_done_waiting env j) \<and>
        (\<exists>k. 1 \<le> k \<and> k \<le> 6 \<and> (\<forall>j. 1 \<le> j \<and> j < k \<longrightarrow> transient uni (ce_run env j cmd)) \<and>
             co_err (ce_run env k cmd) = None \<and> strings_TrimSpace (co_stdout (ce_run env k cmd)) = answer meth args))"

lemma reliable_registry:
  assumes "reliable_cli uni cfg cli answer"
  shows "cli_registry uni cfg cli = (\<lambda>meth args. Inr (answer meth args))"
proof (intro ext)
  fix meth args
  let ?env = "cli meth args" and ?cmd = "cmdArgs cfg meth args"
  obtain k where "\<forall>j. \<not> ce_done ?env j \<and> \<not> ce_done_waiting ?env j" "1 \<le> k" "k \<le> 6"
    "\<forall>j. 1 \<le> j \<and> j < k \<longrightarrow> transient uni (ce_run ?env j ?cmd)" "co_err (ce_run ?env k ?cmd) = None"
    "strings_TrimSpace (co_stdout (ce_run ?env k ?cmd)) = answer meth args"
    using assms [unfolded reliable_cli_def Let_def, rule_format, of meth args] by blast
  then show "cli_registry uni cfg cli meth args = Inr (answer meth args)"
    using callContract_success [of ?env k uni cfg meth args] by (simp add: cli_registry_def)
qed

section \<open>The snapshot of the pairs\<close>

text \<open>The row that the registry's answers make of a pair; none if a command, a decoder or the
  INSERT fails.\<close>

definition depth_of :: "pair_json \<Rightarrow> registry \<Rightarrow> u32 \<Rightarrow> string" where
  "depth_of js reg i =
     (case reg ''get_depth'' [''--pair_index'', int_dec (uint i)] of
        Inl err \<Rightarrow> ''0''
      | Inr raw \<Rightarrow> (case pj_string js ''0'' raw of Inl err \<Rightarrow> ''0'' | Inr x \<Rightarrow> x))"

definition storable :: "pair_env \<Rightarrow> u32 \<Rightarrow> pair_info \<Rightarrow> string \<Rightarrow> bool" where
  "storable env i p depth \<longleftrightarrow>
     (\<forall>w \<in> {i, pr_GroupIndex p, pr_MinLeverage p, pr_MaxLeverage p, pr_LiqThresholdP p, pr_MaxGainP p}. uint w < 2 ^ 31) \<and>
     (\<forall>t \<in> {pr_SpreadP p, pr_MinLevPosUsdc p, pr_MaxOiUsdc p, pr_MaxNegPnlP p, depth}. \<not> isl (pn_numeric env t)) \<and>
     pn_fault_pair env i = None"

definition registry_row :: "pair_env \<Rightarrow> pair_json \<Rightarrow> registry \<Rightarrow> u32 \<Rightarrow> pair_rec option" where
  "registry_row env js reg i =
     (case reg ''get_pair'' [''--pair_index'', int_dec (uint i)] of
        Inl _ \<Rightarrow> None
      | Inr raw \<Rightarrow>
     (case pj_pair js raw of
        Inl _ \<Rightarrow> None
      | Inr p \<Rightarrow>
          if storable env i p (depth_of js reg i)
          then Some
            \<lparr> px_symbol = pr_Symbol p,
              px_asset_type = (if pr_Stellar p = None then ''other'' else ''stellar''),
              px_asset = (if pr_Stellar p \<noteq> None then the (pr_Stellar p) else if pr_Other p \<noteq> None then the (pr_Other p) else []),
              px_group_index = uint (pr_GroupIndex p),
              px_spread_p = projr (pn_numeric env (pr_SpreadP p)),
              px_min_leverage = uint (pr_MinLeverage p),
              px_max_leverage = uint (pr_MaxLeverage p),
              px_min_lev_pos_usdc = projr (pn_numeric env (pr_MinLevPosUsdc p)),
              px_max_oi_usdc = projr (pn_numeric env (pr_MaxOiUsdc p)),
              px_max_neg_pnl_p = projr (pn_numeric env (pr_MaxNegPnlP p)),
              px_liq_threshold_p = uint (pr_LiqThresholdP p),
              px_max_gain_p = uint (pr_MaxGainP p),
              px_disabled = pr_Disabled p,
              px_one_percent_depth = projr (pn_numeric env (depth_of js reg i)),
              px_synced_at = pn_now env \<rparr>
          else None))"

text \<open>The job's own row and its own checks meet this specification.\<close>

lemma storable_fault: "storable env i p depth \<longleftrightarrow> pair_fault env i p depth = None"
  by (auto simp: storable_def pair_fault_def first_fault_def fits4_def int4_ok_def bad_def isl_def
      split: sum.splits option.splits list.splits if_splits)

lemma storable_row:
  assumes "storable env i p depth"
  shows "pair_row env p depth =
    \<lparr> px_symbol = pr_Symbol p,
      px_asset_type = (if pr_Stellar p = None then ''other'' else ''stellar''),
      px_asset = (if pr_Stellar p \<noteq> None then the (pr_Stellar p) else if pr_Other p \<noteq> None then the (pr_Other p) else []),
      px_group_index = uint (pr_GroupIndex p), px_spread_p = projr (pn_numeric env (pr_SpreadP p)),
      px_min_leverage = uint (pr_MinLeverage p), px_max_leverage = uint (pr_MaxLeverage p),
      px_min_lev_pos_usdc = projr (pn_numeric env (pr_MinLevPosUsdc p)),
      px_max_oi_usdc = projr (pn_numeric env (pr_MaxOiUsdc p)), px_max_neg_pnl_p = projr (pn_numeric env (pr_MaxNegPnlP p)),
      px_liq_threshold_p = uint (pr_LiqThresholdP p), px_max_gain_p = uint (pr_MaxGainP p),
      px_disabled = pr_Disabled p, px_one_percent_depth = projr (pn_numeric env depth), px_synced_at = pn_now env \<rparr>"
proof -
  have "val (pn_numeric env t) = projr (pn_numeric env t)"
    if "t \<in> {pr_SpreadP p, pr_MinLevPosUsdc p, pr_MaxOiUsdc p, pr_MaxNegPnlP p, depth}" for t
    using assms that by (cases "pn_numeric env t") (auto simp: storable_def val_def)
  then show ?thesis by (simp add: pair_row_def Let_def split: option.split)
qed

lemma registry_row_stored:
  "registry_row env js reg i =
     (case decoded (reg ''get_pair'' [''--pair_index'', int_dec (uint i)]) (pj_pair js) ''get_pair'' of
        Inl _ \<Rightarrow> None
      | Inr p \<Rightarrow>
          (case pair_fault env i p (depth_of js reg i) of
             Some _ \<Rightarrow> None
           | None \<Rightarrow> Some (pair_row env p (depth_of js reg i))))"
  using storable_row [of env i _ "depth_of js reg i"]
  by (auto simp: registry_row_def decoded_def storable_fault split: sum.splits option.splits)

lemma pairs_frames:
  "pd_pairs (snd (upsertGroup env g grp d)) = pd_pairs d"
  "pd_pairs (snd (write_fees env i l roll funding rfee ffee oi d)) = pd_pairs d"
  by (simp_all add: upsertGroup_def write_fees_def Let_def split: option.splits)

lemma upsertGroup_pairs: "upsertGroup env g grp d = (r, d') \<Longrightarrow> pd_pairs d' = pd_pairs d"
  using pairs_frames(1) [of env g grp d] by simp

lemma syncFee_pairs: "pd_pairs (snd (syncFeeAccumulators env js reg i l d)) = pd_pairs d"
  by (simp add: syncFeeAccumulators_def Let_def pairs_frames split: sum.splits)

lemma sync_group_pairs: "pd_pairs (snd (sync_group env js reg g (seen, d))) = pd_pairs d"
  by (auto simp: sync_group_def dest: upsertGroup_pairs split: sum.splits prod.splits option.splits)

lemma sync_pair_pairs:
  "pd_pairs (snd (sync_pair env js reg l i (seen, d))) =
     (case registry_row env js reg i of
        None \<Rightarrow> pd_pairs d | Some r \<Rightarrow> gm_put (uint i) r (pd_pairs d))"
  by (simp add: sync_pair_def registry_row_stored depth_of_def [symmetric] upsertPair_def Let_def sync_group_pairs
      syncFee_pairs split: sum.splits option.splits)

lemma sync_pairs_pairs:
  assumes "\<forall>i. \<not> ctx_done i" "\<forall>i \<in> set is. i < 2 ^ 32"
  shows "gm_get (pd_pairs (snd (sync_pairs env js reg l ctx_done is s))) (int j) =
    (if j \<in> set is \<and> registry_row (env j) js (reg j) (of_nat j) \<noteq> None then registry_row (env j) js (reg j) (of_nat j)
     else gm_get (pd_pairs (snd s)) (int j))"
  using assms(2)
proof (induction "is" arbitrary: s)
  case (Cons i "is")
  obtain seen d where s: "s = (seen, d)" by (cases s)
  let ?s = "sync_pair (env i) js (reg i) l (of_nat i) s"
  have u: "uint (of_nat i :: u32) = int i"
    using Cons.prems by (simp add: unsigned_of_nat take_bit_nat_eq_self)
  have "gm_get (pd_pairs (snd ?s)) (int j) =
      (if j = i \<and> registry_row (env i) js (reg i) (of_nat i) \<noteq> None then registry_row (env i) js (reg i) (of_nat i)
       else gm_get (pd_pairs d) (int j))"
    unfolding s sync_pair_pairs u by (simp split: option.splits)
  with Cons.IH [of ?s] Cons.prems assms(1) show ?case by (auto simp: s)
qed simp

text \<open>The table of pairs becomes the registry's. When the job is not interrupted, every pair below the
  registry's count whose commands and statement succeed has the row that the registry's answers make, and
  every other pair, also one that failed in between, keeps the row it had.\<close>

lemma pair_main_rows:
  assumes "pair_main env js reg (Inr l) ctx_done d = Inr d'" "\<forall>i. \<not> ctx_done i"
    and "decoded (reg 0 ''pairs_count'' []) (pj_count js) ''pairs_count'' = Inr n"
  shows "gm_get (pd_pairs d') (int j) =
    (if j < unat n \<and> registry_row (env j) js (reg j) (of_nat j) \<noteq> None then registry_row (env j) js (reg j) (of_nat j)
     else gm_get (pd_pairs d) (int j))"
proof -
  have "unat n < 2 ^ LENGTH(32)" by (rule unsigned_less)
  then have "\<forall>i \<in> set [0..<unat n]. i < 2 ^ 32" by simp
  from sync_pairs_pairs [OF assms(2) this, of env js reg l "([], d)" j] assms(1,3) show ?thesis
    by (auto simp: pair_main_def)
qed

definition demo_pair_json :: pair_json where
  "demo_pair_json =
     \<lparr> pj_count = (\<lambda>_. Inr 1),
       pj_pair = (\<lambda>raw. Inr \<lparr> pr_Symbol = raw, pr_Stellar = None, pr_Other = Some ''BTC'', pr_GroupIndex = 0,
          pr_SpreadP = ''0'', pr_MinLeverage = 2, pr_MaxLeverage = 100, pr_MinLevPosUsdc = ''0'',
          pr_MaxOiUsdc = ''0'', pr_MaxNegPnlP = ''0'', pr_LiqThresholdP = 90, pr_MaxGainP = 900,
          pr_Disabled = False \<rparr>),
       pj_string = (\<lambda>old raw. Inr raw),
       pj_group = (\<lambda>raw. Inl ''bad json''), 
       pj_rollover = (\<lambda>raw. Inr \<lparr> rs_AccPerCollateral = raw, rs_FeePerLedgerP = raw, rs_LastUpdateLedger = 0 \<rparr>),
       pj_funding = (\<lambda>raw. Inr \<lparr> fs_AccLong = raw, fs_AccShort = raw, fs_FeePerLedgerP = raw, fs_LastUpdateLedger = 0 \<rparr>),
       pj_oi = (\<lambda>raw. Inr \<lparr> oi_Long = raw, oi_Short = raw \<rparr>), pj_strings = (\<lambda>raw. Inr [raw, raw]), pj_anys = (\<lambda>raw. Inl ''no'') \<rparr>"

definition demo_pair_env :: pair_env where
  "demo_pair_env =
     \<lparr> pn_now = 5,
       pn_numeric = (\<lambda>s. case big_SetString10 s of None \<Rightarrow> Inl ''invalid input syntax'' | Some i \<Rightarrow> Inr i),
       pn_fault_pair = (\<lambda>_. None), pn_fault_group = (\<lambda>_. None), pn_fault_fees = (\<lambda>_. None),
       pn_fault_oi = (\<lambda>_. None) \<rparr>"

definition demo_registry :: registry where
  "demo_registry = (\<lambda>meth args. Inr (int_dec 7))"

definition demo_pair_db :: pair_db where
  "demo_pair_db = \<lparr> pd_pairs = gm_empty, pd_groups = gm_empty, pd_db = empty_db \<rparr>"

lemma demo_zero [simp]: "big_SetString10 ''0'' = Some 0"
  using SetString_int_dec [of 0] by (simp add: big_SetString10_def parse_nat_def digit_val_def)

section \<open>The accumulators reach the keeper\<close>

lemma select_fees_load:
  assumes "gm_wf (db_pair_fee_accumulators d)" "gm_get (db_pair_fee_accumulators d) p = Some r"
  shows "\<exists>s'. LoadFeeAccumulatorsFromDB (Inr (select_fees d, None)) s = (None, s') \<and>
    FeeState s' p = Some \<lparr> pf_PairIndex = p, pf_AccRollover = Some (fa_acc_rollover r),
      pf_AccFundingLong = Some (fa_acc_funding_long r), pf_AccFundingShort = Some (fa_acc_funding_short r),
      pf_ProjectedAtLedger = word_of_int (fa_projected_at_ledger r) \<rparr>"
proof -
  let ?row = "\<lambda>p r. \<lparr> rf_pair_index = p, rf_acc_rollover = int_dec (fa_acc_rollover r),
        rf_acc_funding_long = int_dec (fa_acc_funding_long r),
        rf_acc_funding_short = int_dec (fa_acc_funding_short r),
        rf_projected_at_ledger = word_of_int (fa_projected_at_ledger r) \<rparr>"
  have f: "fold load_fee_row (map (\<lambda>(p, r). Some (?row p r)) m) m0 =
      gm.put_all (map (\<lambda>(p, r). (p, fee_of_row (?row p r))) m) m0" for m m0
    by (induction m arbitrary: m0) (auto simp: gm.put_all_def load_fee_row_def)
  have "gm_get (fold load_fee_row (select_fees d) gm_empty) p = Some (fee_of_row (?row p r))"
    unfolding select_fees_def f get_put_all_keyed [OF assms(1), of "\<lambda>p r. fee_of_row (?row p r)" p] assms(2)
    by simp
  then show ?thesis
    by (simp add: LoadFeeAccumulatorsFromDB_def Let_def FeeState_def fee_of_row_def cloneBig_def)
qed

text \<open>C22: the accumulators that the keeper uses are the registry's. After a successful synchronisation of a
  pair, a keeper that refreshes its accumulators computes with the values that the registry's views
  projected to the given ledger, as PostgreSQL reads their decimal text.\<close>

theorem fees_reach_keeper:
  assumes "syncFeeAccumulators env js reg i l d = (None, d')" "gm_wf (db_pair_fee_accumulators (pd_db d))"
  shows "\<exists>roll long short rollv longv shortv s'.
    decoded (reg ''pending_acc_rollover_view''
      [''--pair_index'', int_dec (uint i), ''--at_ledger'', int_dec (uint l)])
      (pj_string js []) ''pending_acc_rollover_view'' = Inr roll \<and>
    decoded (reg ''pending_acc_funding_view''
      [''--pair_index'', int_dec (uint i), ''--at_ledger'', int_dec (uint l)])
      (parseFundingPair js) ''pending_acc_funding_view'' = Inr (long, short) \<and>
    pn_numeric env roll = Inr rollv \<and> pn_numeric env long = Inr longv \<and> pn_numeric env short = Inr shortv \<and>
    LoadFeeAccumulatorsFromDB (Inr (select_fees (pd_db d'), None)) s = (None, s') \<and>
    FeeState s' (uint i) = Some \<lparr> pf_PairIndex = uint i, pf_AccRollover = Some rollv,
      pf_AccFundingLong = Some longv, pf_AccFundingShort = Some shortv,
      pf_ProjectedAtLedger = word_of_int (uint l) \<rparr>"
proof -
  obtain roll funding rfee ffee oi where
    v: "decoded (reg ''pending_acc_rollover_view''
      [''--pair_index'', int_dec (uint i), ''--at_ledger'', int_dec (uint l)])
      (pj_string js []) ''pending_acc_rollover_view'' = Inr roll"
    "decoded (reg ''pending_acc_funding_view''
      [''--pair_index'', int_dec (uint i), ''--at_ledger'', int_dec (uint l)])
      (parseFundingPair js) ''pending_acc_funding_view'' = Inr funding"
    and w: "write_fees env i l roll funding rfee ffee oi d = (None, d')"
    using assms(1) by (auto simp: syncFeeAccumulators_def Let_def split: sum.splits)
  let ?r = "fee_row_of env roll (fst funding) (snd funding) rfee ffee l"
  have d': "db_pair_fee_accumulators (pd_db d') = gm_put (uint i) ?r (db_pair_fee_accumulators (pd_db d))"
    and n: "bad (pn_numeric env roll) = None" "bad (pn_numeric env (fst funding)) = None"
      "bad (pn_numeric env (snd funding)) = None"
    using w by (auto simp: write_fees_def first_fault_def Let_def split: option.splits if_splits list.splits)
  from n obtain rollv longv shortv where x: "pn_numeric env roll = Inr rollv"
    "pn_numeric env (fst funding) = Inr longv" "pn_numeric env (snd funding) = Inr shortv"
    by (auto simp: bad_def split: sum.splits)
  have "gm_wf (db_pair_fee_accumulators (pd_db d'))" "gm_get (db_pair_fee_accumulators (pd_db d')) (uint i) = Some ?r"
    using assms(2) by (auto simp: d')
  moreover have "fa_acc_rollover ?r = rollv" "fa_acc_funding_long ?r = longv" "fa_acc_funding_short ?r = shortv"
    "fa_projected_at_ledger ?r = uint l"
    by (simp_all add: fee_row_of_def val_def x)
  ultimately obtain s' where
    "LoadFeeAccumulatorsFromDB (Inr (select_fees (pd_db d'), None)) s = (None, s')"
    "FeeState s' (uint i) = Some \<lparr> pf_PairIndex = uint i, pf_AccRollover = Some rollv,
      pf_AccFundingLong = Some longv, pf_AccFundingShort = Some shortv,
      pf_ProjectedAtLedger = word_of_int (uint l) \<rparr>"
    using select_fees_load [of "pd_db d'" "uint i" ?r s] by force
  moreover obtain long short where "funding = (long, short)" by (rule prod.exhaust)
  ultimately show ?thesis using v x by (metis fst_conv snd_conv)
qed

theorem fees_reach_keeper_witness:
  "\<exists>d' s'. syncFeeAccumulators demo_pair_env demo_pair_json demo_registry 0 9 demo_pair_db = (None, d') \<and>
     LoadFeeAccumulatorsFromDB (Inr (select_fees (pd_db d'), None)) NewTradeState = (None, s') \<and>
     (\<exists>f. FeeState s' 0 = Some f \<and> pf_AccFundingLong f = Some 7 \<and> pf_ProjectedAtLedger f = 9)"
proof -
  obtain d' where d': "syncFeeAccumulators demo_pair_env demo_pair_json demo_registry 0 9 demo_pair_db = (None, d')"
    by (simp add: syncFeeAccumulators_def decoded_def demo_registry_def demo_pair_json_def demo_pair_env_def
        parseFundingPair_def write_fees_def first_fault_def fits4_def int4_ok_def bad_def Let_def)
  have wf: "gm_wf (db_pair_fee_accumulators (pd_db demo_pair_db))"
    by (simp add: demo_pair_db_def empty_db_def)
  from fees_reach_keeper [OF d' wf, of NewTradeState] d' show ?thesis
    by (fastforce simp: decoded_def demo_registry_def demo_pair_json_def demo_pair_env_def parseFundingPair_def)
qed

end
