(* ===== verification/Jobs.thy ===== *)
theory Jobs
  imports Processes Pair_Indexer Config
begin

text \<open>
  What connects the processes with the rest: the fields of the configuration that each of them
  reads, the RPC client behind the environments of the indexer and the keeper, the log line of an
  event, and the functions \<open>main\<close> of the two jobs, \<^verbatim>\<open>cmd/indexer-replay\<close> and \<^verbatim>\<open>cmd/pair-indexer\<close>, with
  everything that can go wrong on the way.

  Proved here: the keeper takes a transaction for submitted only if the RPC server said so in an
  answer without error; a replay without faults is \<open>replay\<close>, and one with faults still only appends
  to the audit log; the pair indexer mirrors the registry although single commands fail.
\<close>

section \<open>Configuration\<close>

definition index_config_of :: "config \<Rightarrow> index_config" where
  "index_config_of c =
     \<lparr> ic_PMContractID = cf_PMContractID c, ic_VaultContractID = cf_VaultContractID c,
       ic_RegistryContractID = cf_RegistryContractID c, ic_IndexerStartLedger = cf_IndexerStartLedger c \<rparr>"

definition keeper_config_of :: "config \<Rightarrow> keeper_config" where
  "keeper_config_of c =
     \<lparr> kc_KeeperSecret = cf_KeeperSecret c, kc_NetworkPassphrase = cf_NetworkPassphrase c,
       kc_PMContractID = cf_PMContractID c, kc_BinanceWSURL = cf_BinanceWSURL c, kc_PairSymbolMap = cf_PairSymbolMap c,
       kc_KeeperMaxRetries = sint (cf_KeeperMaxRetries c) \<rparr>"

definition pair_config_of :: "config \<Rightarrow> pair_config" where
  "pair_config_of c =
     \<lparr> pc_RegistryContractID = cf_RegistryContractID c, pc_StellarSourceAccount = cf_StellarSourceAccount c,
       pc_SorobanRPCURL = cf_SorobanRPCURL c, pc_NetworkPassphrase = cf_NetworkPassphrase c \<rparr>"

text \<open>Every \<open>main\<close> begins with \<open>config.Load\<close> and exits when it fails.\<close>

definition with_config :: "(viper \<Rightarrow> string + config) \<Rightarrow> (config \<Rightarrow> string + 'a) \<Rightarrow> string + 'a" where
  "with_config unmarshal run = (case Load unmarshal of Inl err \<Rightarrow> Inl (''config: '' @ err) | Inr c \<Rightarrow> run c)"

section \<open>The RPC client of the processes\<close>

text \<open>What a method returns: without an error, the pointer to the decoded response, which stays zero when
  no endpoint was asked.\<close>

definition returned :: "'a \<Rightarrow> 'a rpc_outcome \<Rightarrow> rpc_error + 'a" where
  "returned zero out = (case fst (fst out) of Inl err \<Rightarrow> Inl err | Inr None \<Rightarrow> Inr zero | Inr (Some v) \<Rightarrow> Inr v)"

definition zero_sim :: sim_result where
  "zero_sim = \<lparr> sm_TransactionData = [], sm_MinResourceFee = [], sm_Events = [], sm_Results = [], sm_Cost = None,
     sm_RestorePreamble = None, sm_LatestLedger = 0, sm_Error = [] \<rparr>"

definition zero_send :: send_result where
  "zero_send = \<lparr> sr_Status = [], sr_Hash = [], sr_LatestLedger = 0, sr_LatestLedgerCloseTime = [], sr_ErrorResultXDR = [] \<rparr>"

definition zero_entries :: ledger_entries_result where
  "zero_entries = \<lparr> lr_Entries = [], lr_LatestLedger = 0 \<rparr>"

record keeper_transport =
  kt_simulate :: "(rpc_params, sim_result) transport"
  kt_entries :: "(rpc_params, ledger_entries_result) transport"
  kt_send :: "(rpc_params, send_result) transport"

text \<open>The keeper's calls; the client is \<open>soroban.New(cfg.SorobanRPCURL)\<close>, its counter is whatever it is at
  the time.\<close>

definition client_rpc :: "keeper_transport \<Rightarrow> rpc_client \<Rightarrow> rpc_env" where
  "client_rpc kt c =
     \<lparr> rp_SimulateTransaction = (\<lambda>tx. map_sum rpc_error_text id (returned zero_sim (SimulateTransaction (kt_simulate kt) tx c))),
       rp_GetLedgerEntries = (\<lambda>keys. map_sum rpc_error_text id (returned zero_entries (GetLedgerEntries (kt_entries kt) keys c))),
       rp_SendTransaction = (\<lambda>tx. map_sum rpc_error_text id (returned zero_send (SendTransaction (kt_send kt) tx c))) \<rparr>"

section \<open>The log line of an event\<close>

datatype log_value = LogStr string | LogInt int | LogBool bool

definition lag_ms :: "(string \<Rightarrow> string + go_time) \<Rightarrow> go_time \<Rightarrow> string \<Rightarrow> int" where
  "lag_ms general now occurredAt =
     (case time_Parse_RFC3339 general occurredAt of
        Inl err \<Rightarrow> 0
      | Inr t \<Rightarrow> max (- (2 ^ 63)) (min (2 ^ 63 - 1) (now - t)) sdiv 1000000)"

definition log_trade_fields :: "event \<Rightarrow> (string \<times> log_value) list" where
  "log_trade_fields e =
     (case ev_Trade e of
        None \<Rightarrow> []
      | Some t \<Rightarrow>
          [(''pair'', LogInt (uint (tr_PairIndex t))), (''long'', LogBool (tr_IsLong t)),
           (''lev'', LogInt (uint (tr_Leverage t)))] @
          (case tr_Collateral t of None \<Rightarrow> [] | Some c \<Rightarrow> [(''collateral'', LogStr (int_dec c))]))"

text \<open>The fields and the message, if the topic is one that is logged.\<close>

definition logEvent ::
  "(string \<Rightarrow> string + go_time) \<Rightarrow> go_time \<Rightarrow> event \<Rightarrow> ((string \<times> log_value) list \<times> string) option" where
  "logEvent general now e =
     (let lagMs = lag_ms general now (ev_OccurredAt e);
          entry = [(''tx'', LogStr (ev_TxHash e)), (''trader'', LogStr (ev_Trader e))] @
            (case ev_TradeIndex e of None \<Rightarrow> [] | Some i \<Rightarrow> [(''trade_idx'', LogInt (sint i))]);
          closed = (\<lambda>reason. Some (entry @ [(''reason'', LogStr reason), (''lag_ms'', LogInt lagMs)], ''trade closed''))
      in if ev_Topic e = ''opened'' then
           Some (entry @ log_trade_fields e @ [(''lag_ms'', LogInt lagMs)], ''trade opened'')
         else if ev_Topic e = ''closed'' then closed ''manual''
         else if ev_Topic e = ''tp_sl_executed'' then closed ''tp/sl''
         else if ev_Topic e = ''liq'' then closed ''liquidation''
         else None)"

section \<open>The replay tool\<close>

text \<open>What the server does: an error of TRUNCATE or of the query, how many rows it delivers, an error of
  \<open>Scan\<close>, and its faults while a row is applied.\<close>

record replay_env =
  rv_truncate :: "string option"
  rv_query :: "string option"
  rv_delivered :: nat
  rv_scan :: "nat \<Rightarrow> string option"
  rv_pg :: "nat \<Rightarrow> pg_env"

text \<open>The loop from the i-th row: a fatal error, the number of events applied and the database.\<close>

fun replay_loop ::
  "(event \<Rightarrow> string + event) \<Rightarrow> replay_env \<Rightarrow> nat \<Rightarrow> ((string \<times> u32) \<times> audit_rec) list \<Rightarrow> nat \<Rightarrow> db
   \<Rightarrow> string option \<times> nat \<times> db" where
  "replay_loop unmarshal env i [] n d = (None, n, d)"
| "replay_loop unmarshal env i (((txHash, idx), r) # rows) n d =
     (case rv_scan env i of
        Some err \<Rightarrow> (Some (''row scan: '' @ err), n, d)
      | None \<Rightarrow>
     (case unmarshal (au_data r) of
        Inl err \<Rightarrow> replay_loop unmarshal env (Suc i) rows n d
      | Inr e \<Rightarrow>
     (case Store_Apply (rv_pg env i) e idx d of
        (Some err, d) \<Rightarrow> replay_loop unmarshal env (Suc i) rows n d
      | (None, d) \<Rightarrow> replay_loop unmarshal env (Suc i) rows (Suc n) d)))"

definition replay_main ::
  "(event \<Rightarrow> string + event) \<Rightarrow> ping_env \<Rightarrow> replay_env \<Rightarrow> db \<Rightarrow> string option \<times> nat \<times> db" where
  "replay_main unmarshal dbe env d =
     (case db_Open dbe of
        Inl err \<Rightarrow> (Some (''db open: '' @ err), 0, d)
      | Inr _ \<Rightarrow>
     (case rv_truncate env of
        Some err \<Rightarrow> (Some (''truncate: '' @ err), 0, d)
      | None \<Rightarrow>
          let d = truncate_projections d
          in (case rv_query env of
                Some err \<Rightarrow> (Some (''scan trade_events: '' @ err), 0, d)
              | None \<Rightarrow> replay_loop unmarshal env 0 (take (rv_delivered env) (replay_rows d)) 0 d)))"

section \<open>The pair indexer\<close>

definition pair_indexer_main ::
  "(string \<Rightarrow> string) \<Rightarrow> pair_config \<Rightarrow> ping_env \<Rightarrow> string + u32 \<Rightarrow> (nat \<Rightarrow> string \<Rightarrow> string list \<Rightarrow> cli_env)
   \<Rightarrow> pair_json \<Rightarrow> (nat \<Rightarrow> pair_env) \<Rightarrow> (nat \<Rightarrow> bool) \<Rightarrow> pair_db \<Rightarrow> string + pair_db" where
  "pair_indexer_main uni cfg dbe latest cli js env ctx_done d =
     (case db_Open dbe of
        Inl err \<Rightarrow> Inl (''db open: '' @ err)
      | Inr _ \<Rightarrow>
          if pc_RegistryContractID cfg = [] then Inl ''REGISTRY_CONTRACT_ID is required''
          else pair_main env js (\<lambda>i. cli_registry uni cfg (cli i)) latest ctx_done d)"

section \<open>Submission over the client\<close>

lemma map_sum_Inr: "map_sum f id r = Inr v \<longleftrightarrow> r = Inr v"
  by (cases r) simp_all

text \<open>The client of the mains has one endpoint, and it is asked once.\<close>

lemma Call_single:
  "fst (Call tr meth params \<lparr> rc_urls = [url], rc_idSeq = n \<rparr>) =
     (case tr_Marshal tr (n + 1) meth params of
        Inl err \<Rightarrow> (Inl (OtherError err), [])
      | Inr body \<Rightarrow> (answered (callOne tr 0 url body), [url]))"
  by (simp add: Call_def Let_def answered_def split: sum.splits)

lemma returned_single:
  assumes "returned zero (Call tr meth params \<lparr> rc_urls = [url], rc_idSeq = n \<rparr>) = Inr v"
  shows "\<exists>body st raw result. tr_Marshal tr (n + 1) meth params = Inr body \<and>
    tr_Do tr 0 url body = Inr (200, st, raw) \<and> tr_Unmarshal tr raw = Inr (result, None) \<and> tr_Decode tr result = Inr v"
proof -
  obtain body where b: "tr_Marshal tr (n + 1) meth params = Inr body" "answered (callOne tr 0 url body) = Inr (Some v)"
    using assms unfolding returned_def Call_single
    by (auto simp: answered_def split: sum.splits option.splits)
  then have "callOne tr 0 url body = Inr v" by (auto simp: answered_def split: sum.splits)
  with b show ?thesis by (auto simp: callOne_success)
qed

text \<open>C16: what the keeper takes for submitted was accepted by the server. When an attempt over the RPC client
  ends with a submission, then the server answered the request \<open>sendTransaction\<close> for the prepared
  transaction with HTTP status 200 and without a JSON-RPC error, with one of the statuses PENDING,
  TRY_AGAIN_LATER and DUPLICATE; this transaction is the one recorded as sent, its action has left the
  queue, and its simulation had succeeded.\<close>

theorem submitted_means_accepted:
  assumes "tryExecute c (client_rpc kt \<lparr> rc_urls = [url], rc_idSeq = n \<rparr>) item e = (True, e')"
  shows "\<exists>u sim x body st raw result res.
    build_action_tx c (pi_Action item) = Inr u \<and>
    rp_SimulateTransaction (client_rpc kt \<lparr> rc_urls = [url], rc_idSeq = n \<rparr>) u = Inr sim \<and> IsSuccess sim \<and>
    tr_Marshal (kt_send kt) (n + 1) ''sendTransaction'' (TransactionParams x) = Inr body \<and>
    tr_Do (kt_send kt) 0 url body = Inr (200, st, raw) \<and> tr_Unmarshal (kt_send kt) raw = Inr (result, None) \<and>
    tr_Decode (kt_send kt) result = Inr res \<and> sr_Status res \<in> {''PENDING'', ''TRY_AGAIN_LATER'', ''DUPLICATE''} \<and>
    ex_sent e' = (x, Inr res) # ex_sent e \<and> gm_get (ex_pending e') (pendKey (pi_Action item)) = None"
proof -
  let ?rpc = "client_rpc kt \<lparr> rc_urls = [url], rc_idSeq = n \<rparr>"
  obtain x r where x: "ex_sent e' = (x, r) # ex_sent e" "accepted (x, r)"
    using tryExecute_sent [OF assms] by auto
  then obtain res where res: "r = Inr res" "sr_Status res \<in> {''PENDING'', ''TRY_AGAIN_LATER'', ''DUPLICATE''}"
    by (auto simp: accepted_def)
  obtain u sim where u: "build_action_tx c (pi_Action item) = Inr u" "rp_SimulateTransaction ?rpc u = Inr sim"
    "IsSuccess sim" "rp_SendTransaction ?rpc x = r"
    using tryExecute_hands_over [OF assms x(1)] by blast
  have "returned zero_send (Call (kt_send kt) ''sendTransaction'' (TransactionParams x) \<lparr> rc_urls = [url], rc_idSeq = n \<rparr>) = Inr res"
    using u(4) res(1) by (simp add: client_rpc_def SendTransaction_def map_sum_Inr)
  from returned_single [OF this] x(1) res u(1-3) submitted_leaves_queue [OF assms] show ?thesis by blast
qed

section \<open>Replay\<close>

lemma replay_loop_fold:
  assumes "\<forall>i. rv_scan env i = None" "\<forall>i. rv_pg env i = pg"
  shows "\<exists>n'. replay_loop unmarshal env i rows n d = (None, n', fold (replay_row unmarshal pg) rows d)"
proof (induction rows arbitrary: i n d)
  case (Cons row rows)
  obtain tx idx r where "row = ((tx, idx), r)" by (metis surj_pair)
  with assms Cons.IH show ?case
    by (cases "unmarshal (au_data r)") (auto simp: replay_row_def split: prod.splits option.splits)
qed simp

text \<open>Whatever fails, the audit log loses nothing.\<close>

lemma replay_loop_keeps_log:
  assumes "gm_get (db_trade_events d) k = Some a"
  shows "gm_get (db_trade_events (snd (snd (replay_loop unmarshal env i rows n d)))) k = Some a"
  using assms
proof (induction unmarshal env i rows n d rule: replay_loop.induct)
  case (2 unmarshal env i txHash idx r rows n d)
  then show ?case
    using Apply_audit_grows [OF 2(4)] by (auto split: option.splits sum.splits prod.splits) (metis snd_conv)+
qed simp

text \<open>C12: a replay rebuilds the live tables from the audit log and leaves the log alone. When the tool reaches a
  healthy database that delivers all rows, and every logged event reads back from its JSON, it ends without
  a fatal error, and the open positions and orders afterwards are those of the position manager's logged
  events, taken in the order of ledger, time, transaction hash and index and starting from nothing; what was
  in the projections before does not matter.\<close>

theorem replay_main_rebuilds:
  assumes "db_Open dbe = Inr ()" "rv_truncate env = None" "rv_query env = None"
    and "length (db_trade_events d) \<le> rv_delivered env" "\<forall>i. rv_scan env i = None" "\<forall>i. rv_pg env i = pg"
    and "healthy pg" "audit_ok d" "gm_wf (db_trade_events d)"
    and "\<forall>row \<in> set (db_trade_events d). replayable unmarshal pg row"
  shows "\<exists>n d'. replay_main unmarshal dbe env d = (None, n, d') \<and>
    db_open d' = open_run (pm_events (replay_rows d)) {} \<and>
    db_open_limits d' = limit_run (pm_events (replay_rows d)) {} \<and> db_trade_events d' = db_trade_events d"
proof -
  let ?d = "truncate_projections d"
  have e: "replay_rows ?d = replay_rows d" by (simp add: replay_rows_def truncate_projections_def)
  have "length (replay_rows d) \<le> rv_delivered env" using assms(4) by (simp add: replay_rows_def)
  moreover obtain n where "replay_loop unmarshal env 0 (replay_rows d) 0 ?d = (None, n, replay unmarshal pg d)"
    using replay_loop_fold [OF assms(5,6)] unfolding replay_def by blast
  ultimately have "replay_main unmarshal dbe env d = (None, n, replay unmarshal pg d)"
    using assms(1-3) by (simp add: replay_main_def Let_def e)
  with replay_rebuilds [OF assms(7-10)] show ?thesis by blast
qed

section \<open>The registry in the tables\<close>

text \<open>C15: the table of pairs becomes the registry's, although commands fail. Let the database be reached and
  the RPC server answer, the registry be constant during the run and every command, for every pair, succeed
  within six runs, the runs before failing with a rate limit, a timeout or the like. Then an uninterrupted
  run of the job succeeds; it stores every pair below the registry's count with the row that the registry's
  answers make, and leaves the other rows alone, also where a value does not fit its column.\<close>

theorem pair_indexer_mirrors:
  assumes "db_Open dbe = Inr ()" "pc_RegistryContractID cfg \<noteq> []" "\<forall>i. \<not> ctx_done i"
    and "\<forall>i. reliable_cli uni cfg (cli i) answer"
    and "pj_count js (answer ''pairs_count'' []) = Inr n"
  shows "\<exists>d'. pair_indexer_main uni cfg dbe (Inr l) cli js env ctx_done d = Inr d' \<and>
    (\<forall>j. gm_get (pd_pairs d') (int j) =
      (let row = registry_row (env j) js (\<lambda>meth args. Inr (answer meth args)) (of_nat j)
       in if j < unat n \<and> row \<noteq> None then row else gm_get (pd_pairs d) (int j)))"
proof -
  have r: "(\<lambda>i. cli_registry uni cfg (cli i)) = (\<lambda>_ meth args. Inr (answer meth args))"
    using reliable_registry assms(4) by blast
  obtain d' where m: "pair_main env js (\<lambda>_ meth args. Inr (answer meth args)) (Inr l) ctx_done d = Inr d'"
    using assms(5) by (simp add: pair_main_def decoded_def)
  then have "pair_indexer_main uni cfg dbe (Inr l) cli js env ctx_done d = Inr d'"
    using assms(1,2) unfolding pair_indexer_main_def r by simp
  moreover note pair_main_rows [OF m assms(3), of n]
  ultimately show ?thesis using assms(5) by (simp add: decoded_def Let_def)
qed

section \<open>Witnesses\<close>

text \<open>A server that answers every request with the given result.\<close>

definition demo_answers :: "'a \<Rightarrow> (rpc_params, 'a) transport" where
  "demo_answers v = \<lparr> tr_Do = (\<lambda>i url body. Inr (200, ''200 OK'', body)), tr_Marshal = (\<lambda>i m p. Inr m),
     tr_Unmarshal = (\<lambda>raw. Inr (raw, None)), tr_Decode = (\<lambda>_. Inr v) \<rparr>"

definition demo_keeper_transport :: keeper_transport where
  "demo_keeper_transport =
     \<lparr> kt_simulate = demo_answers (demo_sim []),
       kt_entries = demo_answers \<lparr> lr_Entries = [\<lparr> ld_Key = ''k'', ld_XDR = ''a'', ld_LastModified = 1, ld_LiveUntilLedger = 0 \<rparr>],
          lr_LatestLedger = 9 \<rparr>,
       kt_send = demo_answers (demo_send ''PENDING'') \<rparr>"

lemma demo_client_rpc: "client_rpc demo_keeper_transport \<lparr> rc_urls = [url], rc_idSeq = n \<rparr> = demo_rpc [] ''PENDING''"
  by (simp add: client_rpc_def demo_rpc_def demo_keeper_transport_def demo_answers_def returned_def
      SimulateTransaction_def GetLedgerEntries_def SendTransaction_def Call_single callOne_def answered_def)

theorem submitted_means_accepted_witness:
  "\<exists>e' x res. tryExecute demo_conf (client_rpc demo_keeper_transport \<lparr> rc_urls = [''http://rpc''], rc_idSeq = 0 \<rparr>)
      \<lparr>pi_Action = demo_action, pi_Retries = 0\<rparr> demo_exec = (True, e') \<and>
    ex_sent e' = (x, Inr res) # ex_sent demo_exec \<and> sr_Status res \<in> {''PENDING'', ''TRY_AGAIN_LATER'', ''DUPLICATE''}"
  using submitted_means_accepted [of demo_conf demo_keeper_transport "''http://rpc''" 0
      "\<lparr>pi_Action = demo_action, pi_Retries = 0\<rparr>" demo_exec] demo_submits
  unfolding demo_client_rpc by blast

definition demo_replay_env :: replay_env where
  "demo_replay_env = \<lparr> rv_truncate = None, rv_query = None, rv_delivered = 9, rv_scan = (\<lambda>_. None), rv_pg = (\<lambda>_. demo_pg) \<rparr>"

theorem replay_main_rebuilds_witness:
  "db_open demo_log = {} \<and>
   (\<exists>n d'. replay_main Inr demo_ping demo_replay_env demo_log = (None, n, d') \<and> db_open d' = {TradeKey ''bob'' 1 2})"
proof -
  have "\<exists>n d'. replay_main Inr demo_ping demo_replay_env demo_log = (None, n, d') \<and>
      db_open d' = open_run (pm_events (replay_rows demo_log)) {} \<and>
      db_open_limits d' = limit_run (pm_events (replay_rows demo_log)) {} \<and> db_trade_events d' = db_trade_events demo_log"
    by (rule replay_main_rebuilds [OF demo_open(1) _ _ _ _ _ demo_log_ok])
      (simp_all add: demo_replay_env_def, simp add: demo_log_rows demo_db_defs)
  with demo_log_open show ?thesis by auto
qed

lemma demo_reliable: "reliable_cli id demo_pair_config (\<lambda>_ _. demo_cli) (\<lambda>_ _. int_dec 7)"
proof -
  have t: "strings_TrimSpace (nat_dec 7) = int_dec 7"
    unfolding int_dec_def using nat_dec_digits TrimSpace_id [of "nat_dec 7"] by auto
  show ?thesis
    unfolding reliable_cli_def Let_def
    by (intro allI conjI exI [of _ 3]) (simp_all add: demo_cli_transient, simp_all add: demo_cli_def t)
qed

theorem pair_indexer_mirrors_witness:
  "\<exists>d' r. pair_indexer_main id demo_pair_config demo_ping (Inr 9) (\<lambda>_ _ _. demo_cli) demo_pair_json (\<lambda>_. demo_pair_env)
      (\<lambda>_. False) demo_pair_db = Inr d' \<and> gm_get (pd_pairs d') (int 0) = Some r \<and> px_one_percent_depth r = 7"
proof -
  have c: "pc_RegistryContractID demo_pair_config \<noteq> []" by (simp add: demo_pair_config_def)
  have n: "pj_count demo_pair_json (int_dec 7) = Inr 1" by (simp add: demo_pair_json_def)
  obtain r where r: "registry_row demo_pair_env demo_pair_json (\<lambda>meth args. Inr (int_dec 7)) (of_nat 0) = Some r"
    "px_one_percent_depth r = 7"
    by (simp add: registry_row_stored decoded_def demo_pair_json_def demo_pair_env_def depth_of_def
        pair_fault_def first_fault_def fits4_def int4_ok_def bad_def pair_row_def val_def Let_def)
  obtain d' where d': "pair_indexer_main id demo_pair_config demo_ping (Inr 9) (\<lambda>_ _ _. demo_cli) demo_pair_json
      (\<lambda>_. demo_pair_env) (\<lambda>_. False) demo_pair_db = Inr d'"
    "\<forall>j. gm_get (pd_pairs d') (int j) =
      (let row = registry_row demo_pair_env demo_pair_json (\<lambda>meth args. Inr (int_dec 7)) (of_nat j)
       in if j < unat (1 :: u32) \<and> row \<noteq> None then row else gm_get (pd_pairs demo_pair_db) (int j))"
    using pair_indexer_mirrors [OF demo_open(1) c, of "\<lambda>_. False" id "\<lambda>_ _ _. demo_cli" "\<lambda>_ _. int_dec 7"
        demo_pair_json 1 9 "\<lambda>_. demo_pair_env" demo_pair_db] demo_reliable n by auto
  have "gm_get (pd_pairs d') (int 0) = Some r" using d'(2) [rule_format, of 0] r(1) by (simp add: Let_def)
  with d'(1) r(2) show ?thesis by blast
qed

end
