(* ===== verification/Go_Format.thy ===== *)
theory Go_Format
  imports Go_Time
begin

text \<open>
  \<open>Format(time.RFC3339)\<close> of package \<open>time\<close>, for a time in a location. A location is its offset
  from UTC in seconds, as a function of the seconds since 1970. The civil date is computed as
  the standard library does it, by cycles of 400, 100, 4 and 1 years.

  Proved here: for the years that have four digits, \<open>time.Parse\<close> reads back the whole second
  of what \<open>Format\<close> printed.
\<close>

type_synonym location = "int \<Rightarrow> int"

text \<open>The year and the day of the year, from 0.\<close>

definition year_day :: "int \<Rightarrow> int \<times> int" where
  "year_day day =
     (let n = day + 719162; a = n div 146097; r = n mod 146097;
          b = min 3 (r div 36524); r = r - 36524 * b;
          c = r div 1461; r = r mod 1461;
          e = min 3 (r div 365)
      in (400 * a + 100 * b + 4 * c + e + 1, r - 365 * e))"

fun month_day :: "nat \<Rightarrow> nat list \<Rightarrow> nat \<Rightarrow> nat \<times> nat" where
  "month_day y [] yd = (12, yd + 1)"
| "month_day y (m # ms) yd =
     (if yd < days_in m y then (m, yd + 1) else month_day y ms (yd - days_in m y))"

definition zero_pad :: "nat \<Rightarrow> nat \<Rightarrow> string" where
  "zero_pad w n = replicate (w - length (nat_dec n)) CHR ''0'' @ nat_dec n"

definition format_zone :: "int \<Rightarrow> string" where
  "format_zone off =
     (if off = 0 then ''Z''
      else
        let zone = nat (\<bar>off\<bar> div 60)
        in (if off < 0 then ''-'' else ''+'') @ zero_pad 2 (zone div 60) @ '':'' @ zero_pad 2 (zone mod 60))"

definition time_Format_RFC3339 :: "location \<Rightarrow> go_time \<Rightarrow> string" where
  "time_Format_RFC3339 loc t =
     (let sec = t div 1000000000; l = sec + loc sec; s = nat (l mod 86400);
          (y, yd) = year_day (l div 86400);
          (m, d) = month_day (nat y) [1..<13] (nat yd)
      in zero_pad 4 (nat y) @ ''-'' @ zero_pad 2 m @ ''-'' @ zero_pad 2 d @ ''T'' @
         zero_pad 2 (s div 3600) @ '':'' @ zero_pad 2 (s div 60 mod 60) @ '':'' @ zero_pad 2 (s mod 60) @
         format_zone (loc sec))"

text \<open>A time that prints with a year of four digits, in a zone of whole minutes.\<close>

definition printable :: "location \<Rightarrow> go_time \<Rightarrow> bool" where
  "printable loc t \<longleftrightarrow>
     (let sec = t div 1000000000; y = fst (year_day ((sec + loc sec) div 86400))
      in 0 < y \<and> y \<le> 9999 \<and> loc sec mod 60 = 0 \<and> \<bar>loc sec\<bar> < 86400)"

definition utc :: location where
  "utc s = 0"

section \<open>Numbers of a fixed width\<close>

lemma digits_val_zero_pad: "digits_val 0 (zero_pad w n) = Some n"
  by (simp add: zero_pad_def digits_val_append digits_val_zeros digits_val_nat_dec)

lemma length_nat_dec: "n < 10 ^ w \<Longrightarrow> 0 < w \<Longrightarrow> length (nat_dec n) \<le> w"
proof (induction w arbitrary: n)
  case (Suc w)
  show ?case
  proof (cases "n < 10")
    case True
    then show ?thesis by (subst nat_dec.simps) simp
  next
    case False
    then have "0 < w" using Suc.prems by (cases w) auto
    moreover have "n div 10 < 10 ^ w" using Suc.prems(1) by (simp add: less_mult_imp_div_less)
    ultimately have "length (nat_dec (n div 10)) \<le> w" using Suc.IH by blast
    with False show ?thesis by (subst nat_dec.simps) simp
  qed
qed simp

lemma length_pad: "n < 10 ^ w \<Longrightarrow> 0 < w \<Longrightarrow> length (zero_pad w n) = w"
  using length_nat_dec [of n w] by (simp add: zero_pad_def)

lemma parse_field_pad: "lo \<le> n \<Longrightarrow> n \<le> hi \<Longrightarrow> parse_field (zero_pad w n) lo hi = Some n"
  by (simp add: parse_field_def digits_val_zero_pad)

section \<open>Civil dates\<close>

lemma is_leap_int:
  assumes "0 \<le> y" "y mod 4 = 0" "y mod 100 = 0 \<Longrightarrow> y mod 400 = 0"
  shows "is_leap (nat y)"
proof -
  obtain k where k: "y = int k" using assms(1) by (rule nonneg_int_cases)
  have "numeral w dvd int k \<longleftrightarrow> numeral w dvd k" for w
    using int_dvd_int_iff [of "numeral w" k] by simp
  with assms(2,3) show ?thesis by (simp only: k nat_int is_leap_def mod_eq_0_iff_dvd) blast
qed

text \<open>A quotient that is cut off at 3.\<close>

lemma cut_div:
  fixes x m :: int
  assumes "0 \<le> x" "0 < m" "b = min 3 (x div m)"
  shows "0 \<le> b" "b \<le> 3" "0 \<le> x - m * b" "b \<noteq> 3 \<Longrightarrow> x - m * b < m"
proof -
  have x: "x - m * (x div m) = x mod m" by (simp add: minus_mult_div_eq_mod)
  have "m * b \<le> m * (x div m)" using assms(2,3) by (intro mult_left_mono) auto
  then show "0 \<le> x - m * b" using x pos_mod_sign [of m x] assms(2) by linarith
  show "0 \<le> b" "b \<le> 3" using assms by (simp_all add: pos_imp_zdiv_nonneg_iff)
  show "x - m * b < m" if "b \<noteq> 3"
  proof -
    have "b = x div m" using that assms(3) by linarith
    with x pos_mod_bound [of m x] assms(2) show ?thesis by simp
  qed
qed

lemma year_day_correct:
  assumes "year_day day = (y, yd)" "0 < y"
  shows "days_before_year (nat y) + yd = day" "0 \<le> yd" "yd < 365 + (if is_leap (nat y) then 1 else 0)"
proof -
  define n where "n = day + 719162"
  define a where "a = n div 146097"
  define b where "b = min 3 (n mod 146097 div 36524)"
  define r where "r = n mod 146097 - 36524 * b"
  define c where "c = r div 1461"
  define e where "e = min 3 (r mod 1461 div 365)"
  have y: "y = 400 * a + 100 * b + 4 * c + e + 1" and yd: "yd = r mod 1461 - 365 * e"
    using assms(1) unfolding year_day_def Let_def prod.inject
    by (simp_all only: n_def a_def b_def r_def c_def e_def)
  have n: "n = 146097 * a + 36524 * b + r" by (simp add: a_def r_def)
  note cb = cut_div [OF pos_mod_sign _ b_def, simplified, folded r_def]
  note ce = cut_div [OF pos_mod_sign _ e_def, simplified, folded yd]
  have "n mod 146097 < 146097" by simp
  then have b: "0 \<le> b" "b \<le> 3" "0 \<le> r" "b = 3 \<Longrightarrow> r \<le> 36524" "b \<noteq> 3 \<Longrightarrow> r \<le> 36523"
    using cb by (auto simp: r_def)
  have r: "r = 1461 * c + r mod 1461" by (simp add: c_def)
  have rm: "0 \<le> r mod 1461" "r mod 1461 \<le> 1460" by simp_all
  have c: "0 \<le> c" "c \<le> 24" using b r rm by linarith+
  have e: "0 \<le> e" "e \<le> 3" "0 \<le> yd" "e = 3 \<Longrightarrow> yd \<le> 365" "e \<noteq> 3 \<Longrightarrow> yd \<le> 364"
    using ce rm yd by linarith+
  have q4: "(y - 1) div 4 = 100 * a + 25 * b + c" by (rule int_div_pos_eq [where r = e]) (use y e in simp_all)
  have q100: "(y - 1) div 100 = 4 * a + b"
    by (rule int_div_pos_eq [where r = "4 * c + e"]) (use y c e in simp_all)
  have q400: "(y - 1) div 400 = a"
    by (rule int_div_pos_eq [where r = "100 * b + 4 * c + e"]) (use y b c e in simp_all)
  have "int (nat y) = y" using assms(2) by simp
  then have "days_before_year (nat y) = 365 * (y - 1) + (y - 1) div 4 - (y - 1) div 100 + (y - 1) div 400 - 719162"
    by (simp add: days_before_year_def Let_def)
  also have "\<dots> = n - yd - 719162"
    unfolding q4 q100 q400 n yd using r by (simp add: y)
  finally show "days_before_year (nat y) + yd = day" by (simp add: n_def)
  show "0 \<le> yd" by (rule e)
  show "yd < 365 + (if is_leap (nat y) then 1 else 0)"
  proof (cases "e = 3 \<and> yd = 365")
    case True
    have "y mod 4 = 0" using True by (simp add: y)
    moreover have "y mod 400 = 0" if h: "y mod 100 = 0"
    proof -
      have "y = 100 * (4 * a + b) + (4 * c + 4)" using True by (simp add: y)
      then have "(4 * c + 4) mod 100 = 0" using h by (metis mod_mult_self4)
      then have "c = 24" using c by (cases "4 * c + 4 < 100") simp_all
      moreover from this have "b = 3" using True r b(5) yd by linarith
      ultimately show ?thesis using True by (simp add: y)
    qed
    ultimately have "is_leap (nat y)" using assms(2) by (intro is_leap_int) auto
    with True show ?thesis by simp
  next
    case False
    then have "yd \<le> 364" using e by (cases "e = 3") auto
    then show ?thesis by simp
  qed
qed

lemma month_day_correct:
  assumes "month_day y [k..<13] yd = (m, d)" "k \<le> 12" "yd < (\<Sum>i \<leftarrow> [k..<13]. days_in i y)"
  shows "(\<Sum>i \<leftarrow> [k..<m]. days_in i y) + d = yd + 1 \<and> k \<le> m \<and> m \<le> 12 \<and> 1 \<le> d \<and> d \<le> days_in m y"
  using assms
proof (induction "13 - k" arbitrary: k yd)
  case (Suc n)
  have l: "[k..<13] = k # [Suc k..<13]" using Suc.prems(2) by (simp add: upt_conv_Cons)
  show ?case
  proof (cases "yd < days_in k y")
    case True
    then show ?thesis using Suc.prems by (auto simp: l)
  next
    case False
    then have s: "yd - days_in k y < (\<Sum>i \<leftarrow> [Suc k..<13]. days_in i y)" using Suc.prems(3) by (auto simp: l)
    then have k: "Suc k \<le> 12" by (cases "Suc k < 13") auto
    have "(\<Sum>i \<leftarrow> [Suc k..<m]. days_in i y) + d = yd - days_in k y + 1 \<and> Suc k \<le> m \<and> m \<le> 12 \<and> 1 \<le> d \<and> d \<le> days_in m y"
      using Suc.hyps(2) Suc.prems(1) False k s by (intro Suc.hyps(1)) (auto simp: l)
    with False show ?thesis by (auto simp: upt_conv_Cons)
  qed
qed simp

lemma year_length: "(\<Sum>i \<leftarrow> [1..<13]. days_in i y) = 365 + (if is_leap y then 1 else 0)"
  by (simp add: upt_rec days_in_def)

lemma civil_day_month:
  assumes "year_day day = (y, yd)" "0 < y" "month_day (nat y) [1..<13] (nat yd) = (m, d)"
  shows "civil_day (nat y) m d = day" "1 \<le> m" "m \<le> 12" "1 \<le> d" "d \<le> days_in m (nat y)"
proof -
  note yd = year_day_correct [OF assms(1,2)]
  have "nat yd < (\<Sum>i \<leftarrow> [1..<13]. days_in i (nat y))" unfolding year_length using yd by auto
  from month_day_correct [OF assms(3) _ this]
  have s: "(\<Sum>i \<leftarrow> [1..<m]. days_in i (nat y)) + d = nat yd + 1"
    and m: "1 \<le> m" "m \<le> 12" "1 \<le> d" "d \<le> days_in m (nat y)" by simp_all
  have "(\<Sum>i \<leftarrow> ms. int (days_in i (nat y))) = int (\<Sum>i \<leftarrow> ms. days_in i (nat y))" for ms
    by (induction ms) simp_all
  then show "civil_day (nat y) m d = day" using s yd by (simp add: civil_day_def)
  show "1 \<le> m" "m \<le> 12" "1 \<le> d" "d \<le> days_in m (nat y)" by (fact m)+
qed

section \<open>The round trip\<close>

lemma parse_zone_fields:
  assumes "length hs = 2" "length ms = 2" "parse_field hs 0 23 = Some h" "parse_field ms 0 59 = Some m"
  shows "parse_zone ((if neg then CHR ''-'' else CHR ''+'') # hs @ CHR '':'' # ms) =
    Some (if neg then - ((int h * 60 + int m) * 60) else (int h * 60 + int m) * 60)"
  using assms by (simp add: parse_zone_def nth_append Let_def)

lemma parse_zone_format:
  assumes "off mod 60 = 0" "\<bar>off\<bar> < 86400"
  shows "parse_zone (format_zone off) = Some off" (is ?R) and "\<not> is_digit (format_zone off ! 0)"
    "format_zone off ! 0 \<noteq> CHR ''.''" "format_zone off \<noteq> []"
proof -
  define zone where "zone = nat (\<bar>off\<bar> div 60)"
  have z: "int zone * 60 = \<bar>off\<bar>" using assms(1) by (simp add: zone_def dvd_eq_mod_eq_0 [symmetric] pos_imp_zdiv_nonneg_iff)
  have h: "zone div 60 < 24" using z assms(2) by (simp add: less_mult_imp_div_less)
  let ?h = "zero_pad 2 (zone div 60)" and ?m = "zero_pad 2 (zone mod 60)"
  have l: "length ?h = 2" "length ?m = 2" using h by (simp_all add: length_pad)
  have f: "off \<noteq> 0 \<Longrightarrow> format_zone off = (if off < 0 then CHR ''-'' else CHR ''+'') # ?h @ CHR '':'' # ?m"
    by (simp add: format_zone_def zone_def Let_def)
  have "parse_field ?h 0 23 = Some (zone div 60)" "parse_field ?m 0 59 = Some (zone mod 60)"
    using h by (simp_all add: parse_field_pad)
  moreover have "(int hh * 60 + int mm) * 60 = \<bar>off\<bar>" if "zone = hh * 60 + mm" for hh mm
    using z that by simp
  from this [OF div_mult_mod_eq [symmetric]]
  have v: "(int (zone div 60) * 60 + int (zone mod 60)) * 60 = \<bar>off\<bar>" .
  ultimately have "parse_zone ((if off < 0 then CHR ''-'' else CHR ''+'') # ?h @ CHR '':'' # ?m) =
      Some (if off < 0 then - \<bar>off\<bar> else \<bar>off\<bar>)"
    unfolding v [symmetric] using l by (intro parse_zone_fields) auto
  also have "(if off < 0 then - \<bar>off\<bar> else \<bar>off\<bar>) = off" by simp
  finally have "off \<noteq> 0 \<Longrightarrow> ?R" by (simp only: f not_False_eq_True)
  moreover have "off = 0 \<Longrightarrow> ?R" by (simp add: parse_zone_def format_zone_def)
  ultimately show ?R by blast
  obtain c rest where "format_zone off = c # rest" "c \<in> {CHR ''Z'', CHR ''-'', CHR ''+''}"
  proof (cases "off = 0")
    case True
    then show ?thesis using that [of "CHR ''Z''" "[]"] by (simp add: format_zone_def)
  next
    case False
    then show ?thesis using that [OF f [OF False]] by (cases "off < 0") simp_all
  qed
  then show "\<not> is_digit (format_zone off ! 0)" "format_zone off ! 0 \<noteq> CHR ''.''" "format_zone off \<noteq> []"
    by (auto simp: is_digit_def digit_val_def)
qed

lemma parse_rfc3339_fields:
  assumes "length ys = 4" "length ms = 2" "length ds = 2" "length hs = 2" "length is = 2" "length ss = 2"
    and "parse_field ys 0 9999 = Some y" "parse_field ms 1 12 = Some m" "parse_field ds 1 (days_in m y) = Some d"
    and "parse_field hs 0 23 = Some h" "parse_field is 0 59 = Some i" "parse_field ss 0 59 = Some s"
    and "parse_zone z = Some off" "z ! 0 \<noteq> CHR ''.''"
  shows "parse_rfc3339 (ys @ ''-'' @ ms @ ''-'' @ ds @ ''T'' @ hs @ '':'' @ is @ '':'' @ ss @ z) =
    Some ((civil_day y m d * 86400 + int h * 3600 + int i * 60 + int s - off) * 1000000000)"
proof -
  let ?s = "ys @ ''-'' @ ms @ ''-'' @ ds @ ''T'' @ hs @ '':'' @ is @ '':'' @ ss @ z"
  have t: "take 4 (drop 0 ?s) = ys" "take 2 (drop 5 ?s) = ms" "take 2 (drop 8 ?s) = ds" "take 2 (drop 11 ?s) = hs"
    "take 2 (drop 14 ?s) = is" "take 2 (drop 17 ?s) = ss" "drop 19 ?s = z"
    using assms(1-6) by simp_all
  have c: "?s ! 4 = CHR ''-''" "?s ! 7 = CHR ''-''" "?s ! 10 = CHR ''T''" "?s ! 13 = CHR '':''" "?s ! 16 = CHR '':''"
    using assms(1-6) by (simp_all add: nth_append)
  have "\<not> length ?s < 19" using assms(1-6) by simp
  then show ?thesis
    unfolding parse_rfc3339_def Let_def t c using assms(7-14) by (simp add: nanoseconds_def Let_def)
qed

lemma seconds_split: "int (s div 3600) * 3600 + int (s div 60 mod 60) * 60 + int (s mod 60) = int s"
proof -
  have g: "int a * 3600 + int b * 60 + int c = int s" if "q = a * 60 + b" "s = q * 60 + c" for a b c q
    using that by simp
  have "s div 3600 = s div 60 div 60" by (simp add: div_mult2_eq [symmetric])
  with g [OF div_mult_mod_eq [of "s div 60" 60, symmetric] div_mult_mod_eq [of s 60, symmetric]]
  show ?thesis by (simp only:)
qed

text \<open>\<open>time.Parse\<close> reads the whole second of what \<open>Format\<close> printed.\<close>

lemma parse_format:
  assumes "printable loc t"
  shows "parse_rfc3339 (time_Format_RFC3339 loc t) = Some (t div 1000000000 * 1000000000)"
proof -
  define sec where "sec = t div 1000000000"
  define l where "l = sec + loc sec"
  define s where "s = nat (l mod 86400)"
  obtain y yd where y: "year_day (l div 86400) = (y, yd)" by fastforce
  obtain m d where m: "month_day (nat y) [1..<13] (nat yd) = (m, d)" by fastforce
  have p: "0 < y" "y \<le> 9999" "loc sec mod 60 = 0" "\<bar>loc sec\<bar> < 86400"
    using assms by (simp_all add: printable_def Let_def y flip: sec_def l_def)
  note c = civil_day_month [OF y p(1) m]
  note z = parse_zone_format [OF p(3,4)]
  have dd: "d < 100" using c(5) by (auto simp: days_in_def split: if_splits)
  have s: "s < 86400" "int s = l mod 86400" by (auto simp: s_def nat_less_iff)
  have h: "s div 3600 < 24" using s(1) by (simp add: less_mult_imp_div_less)
  have "time_Format_RFC3339 loc t = zero_pad 4 (nat y) @ ''-'' @ zero_pad 2 m @ ''-'' @ zero_pad 2 d @ ''T'' @
      zero_pad 2 (s div 3600) @ '':'' @ zero_pad 2 (s div 60 mod 60) @ '':'' @ zero_pad 2 (s mod 60) @ format_zone (loc sec)"
    using m by (simp add: time_Format_RFC3339_def Let_def y s_def flip: sec_def l_def)
  moreover have "parse_rfc3339 \<dots> = Some ((civil_day (nat y) m d * 86400 + int (s div 3600) * 3600 +
      int (s div 60 mod 60) * 60 + int (s mod 60) - loc sec) * 1000000000)"
    using p c dd h z by (intro parse_rfc3339_fields) (auto simp: length_pad parse_field_pad)
  moreover note seconds_split [of s]
  moreover have "l div 86400 * 86400 + int s = l" using s(2) by simp
  ultimately show ?thesis using c(1) by (simp add: l_def sec_def)
qed

end
