(* ===== verification/Api.thy ===== *)
theory Api
  imports Pair_Indexer Hub Go_Format
begin

text \<open>
  \<^verbatim>\<open>cmd/api/main.go\<close>: the handlers of the REST and WebSocket API.

  A handler gets its URL parameters and the outcome of its queries, an error or the scanned
  rows (\<open>None\<close> for a row that does not scan) with \<open>rows.Err()\<close>. What the queries return of the
  tables is defined beside them (\<open>select_...\<close>). The response is a status or the value that is
  encoded as JSON. The order of rows with equal sort keys, which PostgreSQL leaves open, is the
  order of the table here; no property depends on it.

  Proved here: a client that follows the cursors gets every closed trade once, unless two of
  them were closed in the same second; the pairs served are those of the registry; the trades
  served over REST and WebSocket agree.
\<close>

datatype 'a response = HttpError nat string | HttpOK 'a

datatype 'a row_result = Row 'a | NoRows | RowError string

type_synonym 'a query_result = "string + ('a option list \<times> string option)"

section \<open>Pairs and groups\<close>

record pairGroupResponse =
  pg_GroupIndex :: int
  pg_Name :: string
  pg_MaxCollateralUsdc :: string
  pg_OpenFeeP :: string
  pg_CloseFeeP :: string
  pg_SyncedAt :: go_time

record pairResponse =
  pp_PairIndex :: int
  pp_Symbol :: string
  pp_ReflectorAssetType :: string
  pp_ReflectorAsset :: string
  pp_GroupIndex :: int
  pp_SpreadP :: string
  pp_MinLeverage :: int
  pp_MaxLeverage :: int
  pp_MinLevPosUsdc :: string
  pp_MaxOiUsdc :: string
  pp_MaxNegPnlP :: string
  pp_LiqThresholdP :: int
  pp_MaxGainP :: int
  pp_Disabled :: bool
  pp_OnePercentDepth :: string
  pp_SyncedAt :: go_time
  pp_Group :: "pairGroupResponse option"

definition scan_group :: "int \<Rightarrow> group_rec \<Rightarrow> pairGroupResponse" where
  "scan_group i g =
     \<lparr> pg_GroupIndex = i, pg_Name = gx_name g, pg_MaxCollateralUsdc = int_dec (gx_max_collateral_usdc g),
       pg_OpenFeeP = int_dec (gx_open_fee_p g), pg_CloseFeeP = int_dec (gx_close_fee_p g),
       pg_SyncedAt = gx_synced_at g \<rparr>"

definition scanPair :: "int \<Rightarrow> pair_rec \<Rightarrow> pairResponse" where
  "scanPair i p =
     \<lparr> pp_PairIndex = i, pp_Symbol = px_symbol p, pp_ReflectorAssetType = px_asset_type p,
       pp_ReflectorAsset = px_asset p, pp_GroupIndex = px_group_index p, pp_SpreadP = int_dec (px_spread_p p),
       pp_MinLeverage = px_min_leverage p, pp_MaxLeverage = px_max_leverage p,
       pp_MinLevPosUsdc = int_dec (px_min_lev_pos_usdc p), pp_MaxOiUsdc = int_dec (px_max_oi_usdc p),
       pp_MaxNegPnlP = int_dec (px_max_neg_pnl_p p), pp_LiqThresholdP = px_liq_threshold_p p,
       pp_MaxGainP = px_max_gain_p p, pp_Disabled = px_disabled p,
       pp_OnePercentDepth = int_dec (px_one_percent_depth p), pp_SyncedAt = px_synced_at p, pp_Group = None \<rparr>"

text \<open>The queries. An index that is not an \<open>int4\<close> is refused by the driver.\<close>

definition select_all_pairs :: "pair_db \<Rightarrow> pairResponse query_result" where
  "select_all_pairs d = Inr (map (\<lambda>(i, p). Some (scanPair i p)) (sort_key fst (pd_pairs d)), None)"

definition select_all_groups :: "pair_db \<Rightarrow> pairGroupResponse query_result" where
  "select_all_groups d = Inr (map (\<lambda>(i, g). Some (scan_group i g)) (sort_key fst (pd_groups d)), None)"

definition select_row :: "('r \<Rightarrow> 'a) \<Rightarrow> (int, 'r) gmap \<Rightarrow> int \<Rightarrow> 'a row_result" where
  "select_row f m i =
     (if i < 2 ^ 31 then (case gm_get m i of None \<Rightarrow> NoRows | Some r \<Rightarrow> Row (f r))
      else RowError ''unable to encode'')"

definition select_pair :: "pair_db \<Rightarrow> int \<Rightarrow> pairResponse row_result" where
  "select_pair d i = select_row (scanPair i) (pd_pairs d) i"

definition select_group :: "pair_db \<Rightarrow> int \<Rightarrow> pairGroupResponse row_result" where
  "select_group d i = select_row (scan_group i) (pd_groups d) i"

fun load_groups ::
  "pairGroupResponse option list \<Rightarrow> (int, pairGroupResponse) gmap \<Rightarrow> (int, pairGroupResponse) gmap option" where
  "load_groups [] m = Some m"
| "load_groups (None # rows) m = None"
| "load_groups (Some g # rows) m = load_groups rows (gm_put (pg_GroupIndex g) g m)"

definition loadPairGroups :: "pairGroupResponse query_result \<Rightarrow> string + (int, pairGroupResponse) gmap" where
  "loadPairGroups q =
     (case q of
        Inl err \<Rightarrow> Inl err
      | Inr (rows, rows_err) \<Rightarrow>
          (case load_groups rows gm_empty of
             None \<Rightarrow> Inl ''scan''
           | Some groups \<Rightarrow> (case rows_err of None \<Rightarrow> Inr groups | Some err \<Rightarrow> Inl err)))"

definition query_failed :: "'a response" where
  "query_failed = HttpError 500 ''query failed''"

fun collect_pairs ::
  "(int, pairGroupResponse) gmap \<Rightarrow> pairResponse option list \<Rightarrow> pairResponse list \<Rightarrow> pairResponse list option" where
  "collect_pairs groups [] pairs = Some pairs"
| "collect_pairs groups (None # rows) pairs = None"
| "collect_pairs groups (Some p # rows) pairs =
     collect_pairs groups rows (pairs @
       [case gm_get groups (pp_GroupIndex p) of None \<Rightarrow> p | Some grp \<Rightarrow> p\<lparr>pp_Group := Some grp\<rparr>])"

definition handleGetPairs ::
  "pairGroupResponse query_result \<Rightarrow> pairResponse query_result \<Rightarrow> pairResponse list response" where
  "handleGetPairs gq pq =
     (case loadPairGroups gq of
        Inl err \<Rightarrow> query_failed
      | Inr groups \<Rightarrow>
     (case pq of
        Inl err \<Rightarrow> query_failed
      | Inr (rows, rows_err) \<Rightarrow>
     (case collect_pairs groups rows [] of
        None \<Rightarrow> query_failed
      | Some pairs \<Rightarrow> (case rows_err of Some err \<Rightarrow> query_failed | None \<Rightarrow> HttpOK pairs))))"

definition handleGetPair ::
  "(int \<Rightarrow> pairResponse row_result) \<Rightarrow> (int \<Rightarrow> pairGroupResponse row_result) \<Rightarrow> string \<Rightarrow> pairResponse response" where
  "handleGetPair pq gq param =
     (case strconv_Atoi param of
        None \<Rightarrow> HttpError 400 ''invalid pair_index''
      | Some pairIndex \<Rightarrow>
          if pairIndex < 0 then HttpError 400 ''invalid pair_index''
          else
            (case pq pairIndex of
               NoRows \<Rightarrow> HttpError 404 ''pair not found''
             | RowError err \<Rightarrow> query_failed
             | Row p \<Rightarrow>
                 (case gq (pp_GroupIndex p) of
                    Row grp \<Rightarrow> HttpOK (p\<lparr>pp_Group := Some grp\<rparr>)
                  | NoRows \<Rightarrow> HttpOK p
                  | RowError err \<Rightarrow> query_failed)))"

definition handleGetPairGroups :: "pairGroupResponse query_result \<Rightarrow> pairGroupResponse list response" where
  "handleGetPairGroups gq =
     (case loadPairGroups gq of
        Inl err \<Rightarrow> query_failed
      | Inr groupsByIndex \<Rightarrow> HttpOK (map (\<lambda>idx. the (gm_get groupsByIndex idx)) (sort (map fst groupsByIndex))))"

definition handleGetPairGroup :: "(int \<Rightarrow> pairGroupResponse row_result) \<Rightarrow> string \<Rightarrow> pairGroupResponse response" where
  "handleGetPairGroup gq param =
     (case strconv_Atoi param of
        None \<Rightarrow> HttpError 400 ''invalid group_index''
      | Some groupIndex \<Rightarrow>
          if groupIndex < 0 then HttpError 400 ''invalid group_index''
          else
            (case gq groupIndex of
               NoRows \<Rightarrow> HttpError 404 ''group not found''
             | RowError err \<Rightarrow> query_failed
             | Row grp \<Rightarrow> HttpOK grp))"

section \<open>Open trades\<close>

record trade_json =
  tj_trader :: string
  tj_pair_index :: int
  tj_trade_index :: int
  tj_is_long :: bool
  tj_leverage :: u32
  tj_collateral :: string
  tj_open_price :: string
  tj_acc_rollover_open :: string
  tj_acc_funding_open :: string
  tj_tp_price :: string
  tj_sl_price :: string
  tj_liq_price :: string
  tj_current_liq_price :: string
  tj_rollover_fee :: string
  tj_funding_fee :: string
  tj_opened_at :: go_time

text \<open>The API has copies of its own of two functions of the gateway's cache.\<close>

definition api_parseBig :: "string \<Rightarrow> bigp" where
  "api_parseBig s = big_SetString10 s"

definition api_calculateTradeTimeFeesAndLiq ::
  "string \<Rightarrow> string \<Rightarrow> string \<Rightarrow> string \<Rightarrow> string \<Rightarrow> string \<Rightarrow> bool \<Rightarrow> u32 \<Rightarrow> u32 \<Rightarrow> bigp \<times> bigp \<times> bigp" where
  "api_calculateTradeTimeFeesAndLiq openPrice collateral accRolloverOpen accFundingOpen accRolloverNow
       accFundingNow isLong leverage liqThresholdP =
     (case (api_parseBig openPrice, api_parseBig collateral, api_parseBig accRolloverOpen,
            api_parseBig accFundingOpen, api_parseBig accRolloverNow, api_parseBig accFundingNow) of
        (Some op, Some collat, Some rollOpen, Some fundingOpen, Some rollNow, Some fundingNow) \<Rightarrow>
          (case RolloverFeeForTrade (Some rollOpen) (Some rollNow) (Some collat) of
             Inl err \<Rightarrow> (None, None, None)
           | Inr rolloverFee \<Rightarrow>
          (case FundingFeeForTrade (Some fundingOpen) (Some fundingNow) (Some collat) leverage of
             Inl err \<Rightarrow> (Some rolloverFee, None, None)
           | Inr fundingFee \<Rightarrow>
               let liqThresholdP = (if liqThresholdP = 0 then 90 else liqThresholdP) in
          (case LiquidationPrice (Some op) isLong (Some collat) leverage (Some rolloverFee)
                  (Some fundingFee) liqThresholdP of
             Inl err \<Rightarrow> (Some rolloverFee, Some fundingFee, None)
           | Inr liq \<Rightarrow> (Some rolloverFee, Some fundingFee, Some liq))))
      | _ \<Rightarrow> (None, None, None))"

lemma api_calculate_same: "api_calculateTradeTimeFeesAndLiq = calculateTradeTimeFeesAndLiq"
  by (intro ext) (simp add: api_calculateTradeTimeFeesAndLiq_def calculateTradeTimeFeesAndLiq_def
      api_parseBig_def parseBig_def)

text \<open>A scanned row: the columns of the trade, and of the pair's accumulators, NULL if it has none.\<close>

type_synonym api_trade_row = "trade_row \<times> string option \<times> string option \<times> string option \<times> go_time"

definition trade_json_of :: "api_trade_row \<Rightarrow> trade_json" where
  "trade_json_of = (\<lambda>(r, accRolloverNow, accFundingLongNow, accFundingShortNow, openedAt).
     (let t = \<lparr> tj_trader = rw_trader r, tj_pair_index = rw_pair_index r, tj_trade_index = rw_trade_index r,
            tj_is_long = rw_is_long r, tj_leverage = rw_leverage r, tj_collateral = rw_collateral r,
            tj_open_price = rw_open_price r, tj_acc_rollover_open = rw_acc_rollover_open r,
            tj_acc_funding_open = rw_acc_funding_open r, tj_tp_price = rw_tp_price r, tj_sl_price = rw_sl_price r,
            tj_liq_price = rw_liq_price r, tj_current_liq_price = rw_liq_price r, tj_rollover_fee = ''0'',
            tj_funding_fee = ''0'', tj_opened_at = openedAt \<rparr>
      in case (accRolloverNow, accFundingLongNow, accFundingShortNow) of
           (Some roll, Some long, Some short) \<Rightarrow>
             let accFundingNow = (if rw_is_long r then long else short);
                 (rolloverFee, fundingFee, currentLiq) =
                   api_calculateTradeTimeFeesAndLiq (rw_open_price r) (rw_collateral r) (rw_acc_rollover_open r)
                     (rw_acc_funding_open r) roll accFundingNow (rw_is_long r) (rw_leverage r)
                     (rw_liq_threshold_p r);
                 t = set_if (\<lambda>x t. t\<lparr>tj_rollover_fee := int_dec x\<rparr>) rolloverFee t;
                 t = set_if (\<lambda>x t. t\<lparr>tj_funding_fee := int_dec x\<rparr>) fundingFee t
             in set_if (\<lambda>x t. t\<lparr>tj_current_liq_price := int_dec x\<rparr>) currentLiq t
         | _ \<Rightarrow> t))"

text \<open>A slice that is nil without a row, as JSON: null. \<open>rows.Err()\<close> is not asked.\<close>

definition handleGetTrades ::
  "(string \<Rightarrow> api_trade_row query_result) \<Rightarrow> string \<Rightarrow> (string \<times> trade_json list option) response" where
  "handleGetTrades tq trader =
     (case tq trader of
        Inl err \<Rightarrow> query_failed
      | Inr (rows, rows_err) \<Rightarrow>
          let trades = map trade_json_of (scanned rows)
          in HttpOK (trader, if trades = [] then None else Some trades))"

text \<open>The query: the trades of a trader with the pair's threshold and accumulators.\<close>

definition pair_threshold :: "pair_db \<Rightarrow> int \<Rightarrow> u32 option" where
  "pair_threshold d i = map_option (\<lambda>p. word_of_int (px_liq_threshold_p p)) (gm_get (pd_pairs d) i)"

definition fee_text :: "(fee_rec \<Rightarrow> int) \<Rightarrow> pair_db \<Rightarrow> int \<Rightarrow> string option" where
  "fee_text f d i = map_option (\<lambda>a. int_dec (f a)) (gm_get (db_pair_fee_accumulators (pd_db d)) i)"

definition api_trade_row_of :: "pair_db \<Rightarrow> trade_key \<times> trade_rec \<Rightarrow> api_trade_row" where
  "api_trade_row_of d = (\<lambda>(k, r).
     (select_trade (pair_threshold d) k r, fee_text fa_acc_rollover d (tk_PairIndex k),
      fee_text fa_acc_funding_long d (tk_PairIndex k), fee_text fa_acc_funding_short d (tk_PairIndex k),
      tx_opened_at r))"

definition select_trades_of :: "pair_db \<Rightarrow> string \<Rightarrow> api_trade_row query_result" where
  "select_trades_of d trader =
     Inr (map (\<lambda>kr. Some (api_trade_row_of d kr))
            (sort_key (\<lambda>(k, r). tk_PairIndex k) (sort_key (\<lambda>(k, r). tk_TradeIndex k)
              (filter (\<lambda>(k, r). tk_Trader k = trader) (db_trades (pd_db d))))), None)"

section \<open>Trading history\<close>

record history_json =
  hj_pair_index :: int
  hj_trade_index :: int
  hj_is_long :: bool
  hj_leverage :: int
  hj_collateral :: string
  hj_open_price :: string
  hj_close_price :: "string option"
  hj_acc_rollover_open :: string
  hj_acc_funding_open :: string
  hj_tp_price :: string
  hj_sl_price :: string
  hj_realized_pnl :: "string option"
  hj_open_fee :: "string option"
  hj_close_fee :: "string option"
  hj_close_reason :: string
  hj_opened_at :: string
  hj_opened_tx :: string
  hj_closed_at :: string
  hj_closed_tx :: string

definition history_json_of :: "location \<Rightarrow> history_rec \<Rightarrow> history_json" where
  "history_json_of loc r =
     \<lparr> hj_pair_index = tk_PairIndex (hr_key r), hj_trade_index = tk_TradeIndex (hr_key r),
       hj_is_long = hr_is_long r, hj_leverage = hr_leverage r, hj_collateral = int_dec (hr_collateral r),
       hj_open_price = int_dec (hr_open_price r), hj_close_price = map_option int_dec (hr_close_price r),
       hj_acc_rollover_open = int_dec (hr_acc_rollover_open r),
       hj_acc_funding_open = int_dec (hr_acc_funding_open r), hj_tp_price = int_dec (hr_tp_price r),
       hj_sl_price = int_dec (hr_sl_price r), hj_realized_pnl = map_option int_dec (hr_realized_pnl r),
       hj_open_fee = map_option int_dec (hr_open_fee r), hj_close_fee = map_option int_dec (hr_close_fee r),
       hj_close_reason = hr_close_reason r, hj_opened_at = time_Format_RFC3339 loc (hr_opened_at r),
       hj_opened_tx = hr_opened_tx r, hj_closed_at = time_Format_RFC3339 loc (hr_closed_at r),
       hj_closed_tx = hr_closed_tx r \<rparr>"

record history_page =
  hp_trader :: string
  hp_history :: "history_json list"
  hp_next_cursor :: "string option"
  hp_has_more :: bool

definition parse_limit :: "string \<Rightarrow> int" where
  "parse_limit l =
     (let limit = (if l = [] then 20
                   else (case strconv_Atoi l of None \<Rightarrow> 20 | Some n \<Rightarrow> if n > 0 then n else 20))
      in if limit > 100 then 100 else limit)"

text \<open>The zero time of Go is the first of January of the year 1.\<close>

definition mustParseRFC3339 :: "(string \<Rightarrow> string + go_time) \<Rightarrow> string \<Rightarrow> go_time" where
  "mustParseRFC3339 general s =
     (case time_Parse_RFC3339 general s of Inl err \<Rightarrow> civil_day 1 1 1 * 86400 * 1000000000 | Inr t \<Rightarrow> t)"

definition history_response :: "location \<Rightarrow> (string \<Rightarrow> string + go_time) \<Rightarrow> string \<Rightarrow> int \<Rightarrow> history_rec option list \<Rightarrow> history_page" where
  "history_response loc general trader limit rows =
     (let history = map (history_json_of loc) (scanned rows);
          hasMore = (int (length history) > limit)
      in if hasMore then
           let history = take (nat limit) history;
               lastClosedAt = mustParseRFC3339 general (hj_closed_at (last history))
           in \<lparr> hp_trader = trader, hp_history = history,
                hp_next_cursor = Some (time_Format_RFC3339 loc lastClosedAt), hp_has_more = True \<rparr>
         else \<lparr> hp_trader = trader, hp_history = history, hp_next_cursor = None, hp_has_more = False \<rparr>)"

definition handleGetTradingHistory ::
  "location \<Rightarrow> (string \<Rightarrow> string + go_time)
   \<Rightarrow> (string \<Rightarrow> go_time option \<Rightarrow> int \<Rightarrow> history_rec query_result)
   \<Rightarrow> string \<Rightarrow> string \<Rightarrow> string \<Rightarrow> history_page response" where
  "handleGetTradingHistory loc general hq trader limit cursor =
     (let limit = parse_limit limit;
          cursorTime = (if cursor = [] then Inr None else map_sum id Some (time_Parse_RFC3339 general cursor))
      in case cursorTime of
           Inl perr \<Rightarrow> HttpError 400 ''invalid cursor (want RFC3339 timestamp)''
         | Inr ct \<Rightarrow>
             (case hq trader ct (limit + 1) of
                Inl err \<Rightarrow> query_failed
              | Inr (rows, rows_err) \<Rightarrow> HttpOK (history_response loc general trader limit rows)))"

definition closed_of :: "db \<Rightarrow> string \<Rightarrow> history_rec list" where
  "closed_of d trader = filter (\<lambda>r. tk_Trader (hr_key r) = trader) (db_trade_history d)"

definition older :: "go_time option \<Rightarrow> history_rec \<Rightarrow> bool" where
  "older ct r = (case ct of None \<Rightarrow> True | Some t \<Rightarrow> hr_closed_at r < t)"

definition select_history :: "db \<Rightarrow> string \<Rightarrow> go_time option \<Rightarrow> int \<Rightarrow> history_rec query_result" where
  "select_history d trader ct n =
     Inr (map Some (take (nat n) (sort_key (\<lambda>r. - hr_closed_at r) (filter (older ct) (closed_of d trader)))), None)"

section \<open>WebSocket connections\<close>

text \<open>\<open>accept\<close> is the error of \<open>websocket.Accept\<close>; then the handler returns.\<close>

definition ws_connect ::
  "string option \<Rightarrow> (string \<Rightarrow> string + string) \<Rightarrow> string + string \<Rightarrow> string \<Rightarrow> client \<Rightarrow> hub \<Rightarrow> hub option" where
  "ws_connect accept snapshot all_snapshot channel c h =
     (case accept of
        Some err \<Rightarrow> Some h
      | None \<Rightarrow>
     (case exec (OpRegister c) h of
        None \<Rightarrow> None
      | Some h \<Rightarrow> Subscribe snapshot all_snapshot c channel h))"

definition handleTradeWebSocket ::
  "string option \<Rightarrow> (string \<Rightarrow> string + string) \<Rightarrow> string + string \<Rightarrow> string \<Rightarrow> client \<Rightarrow> hub \<Rightarrow> hub option" where
  "handleTradeWebSocket accept snapshot all_snapshot trader =
     ws_connect accept snapshot all_snapshot (''trader:'' @ trader)"

definition handleAllTradesWebSocket ::
  "string option \<Rightarrow> (string \<Rightarrow> string + string) \<Rightarrow> string + string \<Rightarrow> client \<Rightarrow> hub \<Rightarrow> hub option" where
  "handleAllTradesWebSocket accept snapshot all_snapshot = ws_connect accept snapshot all_snapshot ''trades:all''"

definition handlePricesWebSocket ::
  "string option \<Rightarrow> (string \<Rightarrow> string + string) \<Rightarrow> string + string \<Rightarrow> client \<Rightarrow> hub \<Rightarrow> hub option" where
  "handlePricesWebSocket accept snapshot all_snapshot = ws_connect accept snapshot all_snapshot ''prices''"

section \<open>Pages\<close>

text \<open>A client that asks for the next page as long as there is a cursor.\<close>

fun follow_pages :: "(string \<Rightarrow> history_page response) \<Rightarrow> nat \<Rightarrow> string \<Rightarrow> history_json list option" where
  "follow_pages get 0 cursor = None"
| "follow_pages get (Suc n) cursor =
     (case get cursor of
        HttpError code text \<Rightarrow> None
      | HttpOK p \<Rightarrow>
          (case hp_next_cursor p of
             None \<Rightarrow> Some (hp_history p)
           | Some c \<Rightarrow> map_option (\<lambda>more. hp_history p @ more) (follow_pages get n c)))"

lemma parse_limit_bounds: "1 \<le> parse_limit l \<and> parse_limit l \<le> 100"
  by (auto simp: parse_limit_def Let_def split: option.splits)

text \<open>The instant that the cursor for a row stands for.\<close>

lemma cursor_time:
  assumes "printable loc t" "t mod 1000000000 = 0"
  shows "time_Parse_RFC3339 general (time_Format_RFC3339 loc t) = Inr t"
    "mustParseRFC3339 general (time_Format_RFC3339 loc t) = t" "time_Format_RFC3339 loc t \<noteq> []"
proof -
  have p: "parse_rfc3339 (time_Format_RFC3339 loc t) = Some t"
    using parse_format [OF assms(1)] assms(2) by (simp add: div_mult_mod_eq mult.commute minus_mod_eq_mult_div [symmetric])
  then show "time_Parse_RFC3339 general (time_Format_RFC3339 loc t) = Inr t"
    "mustParseRFC3339 general (time_Format_RFC3339 loc t) = t"
    by (simp_all add: time_Parse_RFC3339_def mustParseRFC3339_def)
  show "time_Format_RFC3339 loc t \<noteq> []"
  proof
    assume "time_Format_RFC3339 loc t = []"
    with p show False by (simp add: parse_rfc3339_def)
  qed
qed

text \<open>One page: what is served, and the cursor for what is left.\<close>

lemma history_page:
  fixes L :: "history_rec list"
  assumes "hq trader ct (parse_limit l + 1) = Inr (map Some (take (nat (parse_limit l + 1)) L), None)"
    and "cursor = [] \<and> ct = None \<or> cursor \<noteq> [] \<and> (\<exists>t. ct = Some t \<and> time_Parse_RFC3339 general cursor = Inr t)"
    and "\<forall>r \<in> set L. printable loc (hr_closed_at r) \<and> hr_closed_at r mod 1000000000 = 0"
  shows "handleGetTradingHistory loc general hq trader l cursor =
    HttpOK (if length L \<le> nat (parse_limit l)
       then \<lparr> hp_trader = trader, hp_history = map (history_json_of loc) L, hp_next_cursor = None, hp_has_more = False \<rparr>
       else \<lparr> hp_trader = trader, hp_history = map (history_json_of loc) (take (nat (parse_limit l)) L),
              hp_next_cursor = Some (time_Format_RFC3339 loc (hr_closed_at (L ! (nat (parse_limit l) - 1)))),
              hp_has_more = True \<rparr>)"
proof -
  define k where "k = nat (parse_limit l)"
  have k: "parse_limit l = int k" "0 < k" using parse_limit_bounds [of l] by (auto simp: k_def)
  have h: "handleGetTradingHistory loc general hq trader l cursor =
      HttpOK (history_response loc general trader (int k) (map Some (take (Suc k) L)))"
    using assms(1,2) k by (auto simp: handleGetTradingHistory_def nat_add_distrib)
  show ?thesis
  proof (cases "length L \<le> k")
    case True
    then show ?thesis unfolding h by (simp add: history_response_def k)
  next
    case False
    let ?r = "L ! (k - 1)"
    have r: "?r \<in> set L" using False k by (auto intro: nth_mem)
    have "L \<noteq> []" using False by auto
    then have "last (map (history_json_of loc) (take k L)) = history_json_of loc ?r"
      using False k last_conv_nth [of "take k L"] by (simp add: last_map)
    then have "mustParseRFC3339 general (hj_closed_at (last (map (history_json_of loc) (take k L)))) = hr_closed_at ?r"
      using assms(3) r cursor_time(2) by (simp add: history_json_of_def)
    with False show ?thesis unfolding h
      by (simp add: history_response_def Let_def k take_map min_def)
  qed
qed

abbreviation newest_first :: "history_rec list \<Rightarrow> history_rec list" where
  "newest_first \<equiv> sort_key (\<lambda>r. - hr_closed_at r)"

lemma older_suffix:
  assumes "sorted_wrt (\<lambda>a b. hr_closed_at b < hr_closed_at a) L" "0 < k" "k \<le> length L"
  shows "filter (older (Some (hr_closed_at (L ! (k - 1))))) L = drop k L"
proof -
  let ?P = "older (Some (hr_closed_at (L ! (k - 1))))"
  have "\<not> ?P r" if r: "r \<in> set (take k L)" for r
  proof -
    obtain i where i: "i < k" "r = L ! i" using r assms(3) by (auto simp: in_set_conv_nth)
    then consider "i = k - 1" | "i < k - 1" by linarith
    then show ?thesis
    proof cases
      case 2
      then have "hr_closed_at (L ! (k - 1)) < hr_closed_at (L ! i)"
        using assms(2,3) by (intro sorted_wrt_nth_less [OF assms(1)]) auto
      then show ?thesis by (simp add: older_def i)
    qed (simp add: older_def i)
  qed
  moreover have "?P r" if r: "r \<in> set (drop k L)" for r
  proof -
    obtain i where i: "i < length L - k" "r = L ! (k + i)" using r assms(3) by (auto simp: in_set_conv_nth)
    then show ?thesis using assms sorted_wrt_nth_less [OF assms(1), of "k - 1" "k + i"] by (auto simp: older_def)
  qed
  ultimately have "filter ?P (take k L) = []" "filter ?P (drop k L) = drop k L" by (auto simp: filter_empty_conv)
  then show ?thesis using filter_append [of ?P "take k L" "drop k L"] by simp
qed

lemma strictly_newest_first:
  assumes "distinct (map hr_closed_at xs)"
  shows "sorted_wrt (\<lambda>a b. hr_closed_at b < hr_closed_at a) (newest_first xs)"
proof -
  let ?S = "newest_first xs"
  have d: "distinct (map hr_closed_at ?S)"
    using assms by (simp add: distinct_map)
  have "sorted_wrt (\<le>) (map (\<lambda>r. - hr_closed_at r) ?S)" by simp
  then have "hr_closed_at (?S ! j) < hr_closed_at (?S ! i)" if "i < j" "j < length ?S" for i j
    using that d nth_eq_iff_index_eq [OF d, of i j] sorted_wrt_nth_less [of "(\<le>)" _ i j]
    by (fastforce simp: less_le)
  then show ?thesis by (auto simp: sorted_wrt_iff_nth_less)
qed

lemma select_history_older:
  "select_history d trader ct n = Inr (map Some (take (nat n) (filter (older ct) (newest_first (closed_of d trader)))), None)"
  by (simp add: select_history_def filter_sort)

lemma follow_pages_suffix:
  fixes d trader
  defines "S \<equiv> newest_first (closed_of d trader)"
  assumes "sorted_wrt (\<lambda>a b. hr_closed_at b < hr_closed_at a) S"
    and "\<forall>r \<in> set S. printable loc (hr_closed_at r) \<and> hr_closed_at r mod 1000000000 = 0"
    and "cursor = [] \<and> ct = None \<or> cursor \<noteq> [] \<and> (\<exists>t. ct = Some t \<and> time_Parse_RFC3339 general cursor = Inr t)"
    and "filter (older ct) S = drop j S" "j \<le> length S" "length S < n + j"
  shows "follow_pages (handleGetTradingHistory loc general (select_history d) trader l) n cursor =
    Some (map (history_json_of loc) (drop j S))"
  using assms(4-)
proof (induction n arbitrary: cursor ct j)
  case (Suc n)
  let ?L = "drop j S" and ?k = "nat (parse_limit l)"
  have k: "0 < ?k" using parse_limit_bounds [of l] by simp
  have q: "select_history d trader ct (parse_limit l + 1) = Inr (map Some (take (nat (parse_limit l + 1)) ?L), None)"
    unfolding select_history_older using Suc.prems(2) by (simp add: S_def)
  have p: "\<forall>r \<in> set ?L. printable loc (hr_closed_at r) \<and> hr_closed_at r mod 1000000000 = 0"
    using assms(3) by (auto dest: in_set_dropD)
  note page = history_page [where hq = "select_history d" and ct = ct, OF q Suc.prems(1) p]
  show ?case
  proof (cases "length ?L \<le> ?k")
    case True
    then show ?thesis by (simp add: page)
  next
    case False
    let ?t = "hr_closed_at (?L ! (?k - 1))"
    have t: "?t = hr_closed_at (S ! (j + ?k - 1))" using False k by simp
    have m: "?L ! (?k - 1) \<in> set ?L" using False k by (intro nth_mem) linarith
    have "filter (older (Some ?t)) S = drop (j + ?k) S"
      unfolding t using False k assms(2) by (intro older_suffix) auto
    then have "follow_pages (handleGetTradingHistory loc general (select_history d) trader l) n
        (time_Format_RFC3339 loc ?t) = Some (map (history_json_of loc) (drop (j + ?k) S))"
      using False k p m Suc.prems(3,4) cursor_time by (intro Suc.IH [where ct = "Some ?t"]) auto
    with False show ?thesis
      by (simp add: page flip: map_append) (metis add.commute append_take_drop_id drop_drop)
  qed
qed simp

text \<open>C8: a client that follows the cursors sees the whole history. If no two closed trades of a trader have
  the same closing time and the times are whole seconds, then for every page size the pages from the first
  to the one without a cursor hold every closed trade of the trader exactly once, newest first; one request
  more than there are trades is enough.\<close>

theorem history_pages_complete:
  assumes "distinct (map hr_closed_at (closed_of d trader))" "length (closed_of d trader) < n"
    and "\<forall>r \<in> set (closed_of d trader). printable loc (hr_closed_at r) \<and> hr_closed_at r mod 1000000000 = 0"
  shows "follow_pages (handleGetTradingHistory loc general (select_history d) trader l) n [] =
    Some (map (history_json_of loc) (newest_first (closed_of d trader)))"
proof -
  have "filter (older None) xs = drop 0 xs" for xs by (simp add: older_def)
  then show ?thesis
    using follow_pages_suffix [OF strictly_newest_first [OF assms(1)], of loc "[]" None general 0 n l] assms by simp
qed

definition demo_closed :: "int \<Rightarrow> go_time \<Rightarrow> history_rec" where
  "demo_closed i t =
     \<lparr> hr_key = TradeKey ''alice'' 1 i, hr_is_long = True, hr_leverage = 10, hr_collateral = 500, hr_open_price = 1000,
       hr_close_price = Some 1100, hr_acc_rollover_open = 0, hr_acc_funding_open = 0, hr_tp_price = 0, hr_sl_price = 0,
       hr_realized_pnl = Some 5, hr_open_fee = None, hr_close_fee = None, hr_close_reason = ''manual'',
       hr_opened_at = 0, hr_opened_tx = ''tx0'', hr_closed_at = t, hr_closed_tx = ''tx1'' \<rparr>"

definition demo_history :: "history_rec list \<Rightarrow> db" where
  "demo_history rs = empty_db\<lparr>db_trade_history := rs\<rparr>"

lemma demo_closed_at [simp]: "hr_closed_at (demo_closed i t) = t" "tk_Trader (hr_key (demo_closed i t)) = ''alice''"
  by (simp_all add: demo_closed_def)

lemma demo_printable: "printable utc 0" "printable utc 60000000000"
  by code_simp+

theorem history_pages_complete_witness:
  "let d = demo_history [demo_closed 0 0, demo_closed 1 (60000000000)]
   in follow_pages (handleGetTradingHistory utc Inl (select_history d) ''alice'' ''1'') 3 [] =
      Some [history_json_of utc (demo_closed 1 (60000000000)), history_json_of utc (demo_closed 0 0)]"
proof -
  let ?d = "demo_history [demo_closed 0 0, demo_closed 1 (60000000000)]"
  have h: "closed_of ?d ''alice'' = [demo_closed 0 0, demo_closed 1 (60000000000)]"
    by (simp add: closed_of_def demo_history_def)
  have "newest_first (closed_of ?d ''alice'') = [demo_closed 1 (60000000000), demo_closed 0 0]"
    unfolding h by simp
  moreover have "follow_pages (handleGetTradingHistory utc Inl (select_history ?d) ''alice'' ''1'') 3 [] =
      Some (map (history_json_of utc) (newest_first (closed_of ?d ''alice'')))"
    by (rule history_pages_complete) (simp_all only: h, simp_all add: demo_printable)
  ultimately show ?thesis by simp
qed

text \<open>C28: trades closed in the same second get lost between pages. If all closed trades of a trader were
  closed at one time, as by one ledger, a client that follows the cursors sees one page of them only,
  however many there are.\<close>

theorem history_loses_ties:
  assumes "\<forall>r \<in> set (closed_of d trader). hr_closed_at r = t" "printable loc t" "t mod 1000000000 = 0"
    and "nat (parse_limit l) < length (closed_of d trader)"
  shows "follow_pages (handleGetTradingHistory loc general (select_history d) trader l) (Suc (Suc n)) [] =
    Some (map (history_json_of loc) (take (nat (parse_limit l)) (closed_of d trader)))"
proof -
  let ?S = "closed_of d trader" and ?k = "nat (parse_limit l)" and ?c = "time_Format_RFC3339 loc t"
  have s: "newest_first ?S = ?S"
  proof (rule sort_key_id_if_sorted)
    have "map (\<lambda>r. - hr_closed_at r) ?S = replicate (length ?S) (- t)"
      using assms(1) by (auto intro!: nth_equalityI)
    then show "sorted (map (\<lambda>r. - hr_closed_at r) ?S)" by simp
  qed
  have e: "filter (older (Some t)) ?S = []" using assms(1) by (auto simp: filter_empty_conv older_def)
  note c = cursor_time [OF assms(2,3)]
  have k: "0 < ?k" using parse_limit_bounds [of l] by simp
  have "handleGetTradingHistory loc general (select_history d) trader l ?c =
      HttpOK \<lparr> hp_trader = trader, hp_history = [], hp_next_cursor = None, hp_has_more = False \<rparr>"
    using history_page [of "select_history d" trader "Some t" l "[]" ?c general loc] e s c
    by (simp add: select_history_older)
  moreover have "handleGetTradingHistory loc general (select_history d) trader l [] =
      HttpOK \<lparr> hp_trader = trader, hp_history = map (history_json_of loc) (take ?k ?S),
         hp_next_cursor = Some ?c, hp_has_more = True \<rparr>"
    using history_page [of "select_history d" trader None l ?S "[]" general loc] assms s k
    by (simp add: select_history_older older_def)
  ultimately show ?thesis by simp
qed

lemma parse_limit_1: "parse_limit ''1'' = 1"
  by (simp add: parse_limit_def strconv_Atoi_def big_SetString10_def parse_nat_def digit_val_def)

theorem history_loses_ties_witness:
  "let d = demo_history [demo_closed 0 0, demo_closed 1 0]
   in follow_pages (handleGetTradingHistory utc Inl (select_history d) ''alice'' ''1'') 2 [] =
      Some [history_json_of utc (demo_closed 0 0)]"
proof -
  let ?d = "demo_history [demo_closed 0 0, demo_closed 1 0]"
  have h: "closed_of ?d ''alice'' = [demo_closed 0 0, demo_closed 1 0]"
    by (simp add: closed_of_def demo_history_def)
  have "follow_pages (handleGetTradingHistory utc Inl (select_history ?d) ''alice'' ''1'') (Suc (Suc 0)) [] =
      Some (map (history_json_of utc) (take (nat (parse_limit ''1'')) (closed_of ?d ''alice'')))"
    by (intro history_loses_ties [where t = 0]) (simp_all add: h parse_limit_1 demo_printable)
  then show ?thesis by (simp add: h parse_limit_1 numeral_2_eq_2)
qed

section \<open>The registry through the API\<close>

lemma Atoi_int_dec: "0 \<le> i \<Longrightarrow> i < 2 ^ 63 \<Longrightarrow> strconv_Atoi (int_dec i) = Some i"
  by (simp add: strconv_Atoi_def)

text \<open>What the API is to answer about the pair \<open>i\<close>, given the tables: column by column, independent of the
  handlers' own \<open>Scan\<close>.\<close>

definition served_pair :: "pair_db \<Rightarrow> int \<Rightarrow> pair_rec \<Rightarrow> pairResponse" where
  "served_pair d i r =
     \<lparr> pp_PairIndex = i, pp_Symbol = px_symbol r,
       pp_ReflectorAssetType = px_asset_type r, pp_ReflectorAsset = px_asset r,
       pp_GroupIndex = px_group_index r,
       pp_SpreadP = int_dec (px_spread_p r),
       pp_MinLeverage = px_min_leverage r, pp_MaxLeverage = px_max_leverage r,
       pp_MinLevPosUsdc = int_dec (px_min_lev_pos_usdc r),
       pp_MaxOiUsdc = int_dec (px_max_oi_usdc r),
       pp_MaxNegPnlP = int_dec (px_max_neg_pnl_p r),
       pp_LiqThresholdP = px_liq_threshold_p r, pp_MaxGainP = px_max_gain_p r,
       pp_Disabled = px_disabled r,
       pp_OnePercentDepth = int_dec (px_one_percent_depth r), pp_SyncedAt = px_synced_at r,
       pp_Group = map_option
         (\<lambda>g. \<lparr> pg_GroupIndex = px_group_index r, pg_Name = gx_name g,
                 pg_MaxCollateralUsdc = int_dec (gx_max_collateral_usdc g),
                 pg_OpenFeeP = int_dec (gx_open_fee_p g), pg_CloseFeeP = int_dec (gx_close_fee_p g),
                 pg_SyncedAt = gx_synced_at g \<rparr>)
         (gm_get (pd_groups d) (px_group_index r)) \<rparr>"

lemma served_pair_scanned:
  "served_pair d i r =
     (scanPair i r)\<lparr>pp_Group := map_option (scan_group (px_group_index r)) (gm_get (pd_groups d) (px_group_index r))\<rparr>"
  by (simp add: served_pair_def scanPair_def scan_group_def [abs_def])

text \<open>The columns \<open>pair_index\<close> and \<open>group_index\<close> are primary keys of type INTEGER.\<close>

definition pair_tables_ok :: "pair_db \<Rightarrow> bool" where
  "pair_tables_ok d \<longleftrightarrow> gm_wf (pd_pairs d) \<and> gm_wf (pd_groups d) \<and>
     (\<forall>(i, r) \<in> set (pd_pairs d). 0 \<le> i \<and> i < 2 ^ 31 \<and> px_group_index r < 2 ^ 31)"

lemma scanPair_fields [simp]: "pp_GroupIndex (scanPair i r) = px_group_index r" "pp_Group (scanPair i r) = None"
  "pp_PairIndex (served_pair d i r) = i"
  by (simp_all add: scanPair_def served_pair_def)

lemma handleGetPair_result:
  assumes "0 \<le> i" "i < 2 ^ 31" "\<And>r. gm_get (pd_pairs d) i = Some r \<Longrightarrow> px_group_index r < 2 ^ 31"
  shows "handleGetPair (select_pair d) (select_group d) (int_dec i) =
    (case gm_get (pd_pairs d) i of
       None \<Rightarrow> HttpError 404 ''pair not found'' | Some r \<Rightarrow> HttpOK (served_pair d i r))"
proof -
  have "strconv_Atoi (int_dec i) = Some i" using assms(1,2) by (intro Atoi_int_dec) auto
  with assms show ?thesis
    by (auto simp: handleGetPair_def select_pair_def select_group_def select_row_def served_pair_scanned
        scanPair_def split: option.splits)
qed

text \<open>C11: the API serves the registry. An uninterrupted run of the pair indexer that gets the number of pairs
  succeeds. Afterwards the request for a pair below this number whose commands and INSERT succeeded is
  answered with the registry's values, each in its own field: symbol, asset, group, spread, leverage range,
  minimal position, maximal open interest and loss, threshold, maximal gain, flag and depth (0 if the depth
  could not be read). For every other pair the answer is the row it had before, or status 404. The group
  is the one in the table of groups, if there.\<close>

theorem api_serves_registry:
  assumes "decoded (reg 0 ''pairs_count'' []) (pj_count js) ''pairs_count'' = Inr n" "\<forall>i. \<not> ctx_done i"
    and "pair_tables_ok d"
  shows "\<exists>d'. pair_main env js reg (Inr l) ctx_done d = Inr d' \<and>
    (\<forall>j < 2 ^ 31. handleGetPair (select_pair d') (select_group d') (int_dec (int j)) =
      (case (if j < unat n \<and> registry_row (env j) js (reg j) (of_nat j) \<noteq> None then registry_row (env j) js (reg j) (of_nat j)
             else gm_get (pd_pairs d) (int j)) of
         None \<Rightarrow> HttpError 404 ''pair not found'' | Some r \<Rightarrow> HttpOK (served_pair d' (int j) r)))"
proof -
  obtain d' where m: "pair_main env js reg (Inr l) ctx_done d = Inr d'" using assms(1) by (simp add: pair_main_def)
  have "handleGetPair (select_pair d') (select_group d') (int_dec (int j)) =
      (case (if j < unat n \<and> registry_row (env j) js (reg j) (of_nat j) \<noteq> None then registry_row (env j) js (reg j) (of_nat j)
             else gm_get (pd_pairs d) (int j)) of
         None \<Rightarrow> HttpError 404 ''pair not found'' | Some r \<Rightarrow> HttpOK (served_pair d' (int j) r))" if j: "j < 2 ^ 31" for j
  proof -
    note g = pair_main_rows [OF m assms(2,1), of j]
    have "px_group_index r < 2 ^ 31" if "registry_row (env j) js (reg j) (of_nat j) = Some r" for r
      using that by (auto simp: registry_row_def storable_def split: sum.splits if_splits)
    moreover have "px_group_index r < 2 ^ 31" if "gm_get (pd_pairs d) (int j) = Some r" for r
      using that assms(3) by (auto simp: pair_tables_ok_def gm_set_conv [symmetric])
    ultimately have "px_group_index r < 2 ^ 31" if "gm_get (pd_pairs d') (int j) = Some r" for r
      using that unfolding g by (auto split: if_splits)
    from handleGetPair_result [of "int j" d', OF _ _ this] show ?thesis unfolding g using j by simp
  qed
  with m show ?thesis by blast
qed

theorem api_serves_registry_witness:
  "\<exists>d' p. pair_main (\<lambda>_. demo_pair_env) demo_pair_json (\<lambda>_. demo_registry) (Inr 9) (\<lambda>_. False) demo_pair_db = Inr d' \<and>
     handleGetPair (select_pair d') (select_group d') (int_dec (int 0)) = HttpOK p \<and>
     pp_OnePercentDepth p = int_dec 7 \<and> pp_MinLeverage p = 2 \<and> pp_MaxLeverage p = 100"
proof -
  let ?env = demo_pair_env and ?js = demo_pair_json
  have c: "decoded (demo_registry ''pairs_count'' []) (pj_count ?js) ''pairs_count'' = Inr 1"
    by (simp add: decoded_def demo_registry_def demo_pair_json_def)
  have ok: "pair_tables_ok demo_pair_db"
    by (simp add: pair_tables_ok_def demo_pair_db_def) (simp add: gm_empty_def)
  obtain r where r: "registry_row ?env ?js demo_registry 0 = Some r" "px_one_percent_depth r = 7"
    "px_min_leverage r = 2" "px_max_leverage r = 100"
    by (simp add: registry_row_def storable_def demo_registry_def demo_pair_json_def demo_pair_env_def depth_of_def)
  obtain d' where "pair_main (\<lambda>_. ?env) ?js (\<lambda>_. demo_registry) (Inr 9) (\<lambda>_. False) demo_pair_db = Inr d'"
    "handleGetPair (select_pair d') (select_group d') (int_dec (int 0)) = HttpOK (served_pair d' (int 0) r)"
    using api_serves_registry [where reg = "\<lambda>_. demo_registry" and ctx_done = "\<lambda>_. False" and env = "\<lambda>_. ?env" and l = 9,
        OF c _ ok] r(1) by (auto dest!: spec [of _ 0])
  with r show ?thesis by (auto simp: served_pair_def)
qed

section \<open>The two ways to ask for pairs\<close>

lemma gm_get_sorted:
  assumes "gm_wf m"
  shows "gm_wf (sort_key fst m)" "gm_get (sort_key fst m) = gm_get m"
proof -
  have "distinct (map fst (sort_key fst m))" using assms by (simp add: gm_wf_def distinct_map)
  then show w: "gm_wf (sort_key fst m)" by (simp add: gm_wf_def)
  show "gm_get (sort_key fst m) = gm_get m"
    using assms w by (intro ext) (metis gm_set_conv set_sort not_None_eq)
qed

lemma loadPairGroups_result:
  assumes "gm_wf (pd_groups d)"
  obtains groups where "loadPairGroups (select_all_groups d) = Inr groups" "gm_wf groups"
    "\<And>i. gm_get groups i = map_option (scan_group i) (gm_get (pd_groups d) i)"
proof -
  let ?S = "sort_key fst (pd_groups d)"
  let ?g = "gm.put_all (map (\<lambda>(i, g). (i, scan_group i g)) ?S) gm_empty"
  have f: "load_groups (map (\<lambda>(i, g). Some (scan_group i g)) xs) m =
      Some (gm.put_all (map (\<lambda>(i, g). (i, scan_group i g)) xs) m)" for xs m
    by (induction xs arbitrary: m) (auto simp: gm.put_all_def scan_group_def)
  have "loadPairGroups (select_all_groups d) = Inr ?g"
    by (simp add: loadPairGroups_def select_all_groups_def f)
  moreover have "gm_wf ?g" by (intro gm.wf_put_all gm_wf_empty)
  moreover have "gm_get ?g i = map_option (scan_group i) (gm_get (pd_groups d) i)" for i
    by (simp add: get_put_all_keyed [OF gm_get_sorted(1) [OF assms]] gm_get_sorted(2) [OF assms])
  ultimately show thesis by (rule that)
qed

lemma handleGetPairs_result:
  assumes "gm_wf (pd_groups d)"
  shows "handleGetPairs (select_all_groups d) (select_all_pairs d) =
    HttpOK (map (\<lambda>(i, r). served_pair d i r) (sort_key fst (pd_pairs d)))"
proof -
  obtain groups where g: "loadPairGroups (select_all_groups d) = Inr groups"
    "\<And>i. gm_get groups i = map_option (scan_group i) (gm_get (pd_groups d) i)"
    using loadPairGroups_result [OF assms] by metis
  have p: "(case gm_get groups (px_group_index r) of
      None \<Rightarrow> scanPair i r | Some grp \<Rightarrow> (scanPair i r)\<lparr>pp_Group := Some grp\<rparr>) = served_pair d i r" for i r
    by (simp add: g served_pair_scanned scanPair_def split: option.split)
  have "collect_pairs groups (map (\<lambda>(i, p). Some (scanPair i p)) xs) acc =
      Some (acc @ map (\<lambda>(i, r). served_pair d i r) xs)" for xs acc
    by (induction xs arbitrary: acc) (auto simp: p)
  then show ?thesis by (simp add: handleGetPairs_def select_all_pairs_def g(1))
qed

text \<open>The two ways to ask for pairs agree. The list of all pairs is ordered by pair index, has no pair
  twice, and holds exactly the pairs that the request for a single pair returns, each with the same group.\<close>

theorem pair_endpoints_agree:
  assumes "pair_tables_ok d"
  shows "\<exists>ps. handleGetPairs (select_all_groups d) (select_all_pairs d) = HttpOK ps \<and>
    sorted_wrt (\<lambda>p q. pp_PairIndex p < pp_PairIndex q) ps \<and>
    (\<forall>p. p \<in> set ps \<longleftrightarrow>
       (\<exists>i. 0 \<le> i \<and> i < 2 ^ 31 \<and> handleGetPair (select_pair d) (select_group d) (int_dec i) = HttpOK p))"
proof (intro exI conjI allI)
  let ?S = "sort_key fst (pd_pairs d)"
  let ?ps = "map (\<lambda>(i, r). served_pair d i r) ?S"
  have ok: "gm_wf (pd_pairs d)" "gm_wf (pd_groups d)"
    "\<And>i r. gm_get (pd_pairs d) i = Some r \<Longrightarrow> 0 \<le> i \<and> i < 2 ^ 31 \<and> px_group_index r < 2 ^ 31"
    using assms by (auto simp: pair_tables_ok_def gm_set_conv [symmetric])
  show "handleGetPairs (select_all_groups d) (select_all_pairs d) = HttpOK ?ps"
    by (rule handleGetPairs_result [OF ok(2)])
  have i: "map pp_PairIndex ?ps = map fst ?S" by (auto simp: case_prod_beta)
  have "sorted_wrt (<) (map fst ?S)"
    using gm_get_sorted(1) [OF ok(1)] by (simp add: strict_sorted_iff gm_wf_def)
  then show "sorted_wrt (\<lambda>p q. pp_PairIndex p < pp_PairIndex q) ?ps"
    unfolding i [symmetric] by (simp add: sorted_wrt_map)
  fix p
  have r: "handleGetPair (select_pair d) (select_group d) (int_dec i) = HttpOK p \<longleftrightarrow>
      (\<exists>r. gm_get (pd_pairs d) i = Some r \<and> p = served_pair d i r)" if "0 \<le> i" "i < 2 ^ 31" for i
    using that ok(3) by (subst handleGetPair_result) (auto split: option.splits)
  have "p \<in> set ?ps \<longleftrightarrow> (\<exists>i r. gm_get (pd_pairs d) i = Some r \<and> p = served_pair d i r)"
    by (force simp: gm_set_conv [OF ok(1), symmetric])
  also have "\<dots> \<longleftrightarrow> (\<exists>i. 0 \<le> i \<and> i < 2 ^ 31 \<and>
      handleGetPair (select_pair d) (select_group d) (int_dec i) = HttpOK p)"
    using ok(3) r by blast
  finally show "p \<in> set ?ps \<longleftrightarrow> (\<exists>i. 0 \<le> i \<and> i < 2 ^ 31 \<and>
      handleGetPair (select_pair d) (select_group d) (int_dec i) = HttpOK p)" .
qed

definition demo_pairs :: pair_db where
  "demo_pairs = demo_pair_db\<lparr>pd_pairs :=
     [(3, pair_row demo_pair_env
        \<lparr> pr_Symbol = ''BTC'', pr_Stellar = None, pr_Other = Some ''BTC'', pr_GroupIndex = 0, pr_SpreadP = ''0'',
          pr_MinLeverage = 2, pr_MaxLeverage = 100, pr_MinLevPosUsdc = ''0'', pr_MaxOiUsdc = ''0'',
          pr_MaxNegPnlP = ''0'', pr_LiqThresholdP = 90, pr_MaxGainP = 900, pr_Disabled = False \<rparr> ''0'')]\<rparr>"

theorem pair_endpoints_agree_witness:
  "\<exists>ps. handleGetPairs (select_all_groups demo_pairs) (select_all_pairs demo_pairs) = HttpOK ps \<and>
     map pp_PairIndex ps = [3] \<and>
     (\<exists>i. handleGetPair (select_pair demo_pairs) (select_group demo_pairs) (int_dec i) = HttpOK (hd ps))"
proof -
  have ok: "pair_tables_ok demo_pairs"
    by (simp add: pair_tables_ok_def demo_pairs_def demo_pair_db_def pair_row_def Let_def gm_wf_def) (simp add: gm_empty_def)
  have "handleGetPairs (select_all_groups demo_pairs) (select_all_pairs demo_pairs) =
      HttpOK (map (\<lambda>(i, r). served_pair demo_pairs i r) (sort_key fst (pd_pairs demo_pairs)))"
    using ok by (intro handleGetPairs_result) (simp add: pair_tables_ok_def)
  moreover obtain r where "sort_key fst (pd_pairs demo_pairs) = [(3, r)]" by (simp add: demo_pairs_def)
  ultimately show ?thesis using pair_endpoints_agree [OF ok] by auto
qed

section \<open>REST and WebSocket\<close>

text \<open>The queries of the gateway's cache on the same tables (\<open>LoadFromDB\<close> and \<open>enrichTrades\<close>).\<close>

definition cache_row_of :: "location \<Rightarrow> pair_db \<Rightarrow> trade_key \<times> trade_rec \<Rightarrow> cache_trade_row" where
  "cache_row_of loc d = (\<lambda>(k, r).
     (\<lparr> ct_Trader = tk_Trader k, ct_PairIndex = tk_PairIndex k, ct_TradeIndex = tk_TradeIndex k,
        ct_IsLong = tx_is_long r, ct_Leverage = tx_leverage r, ct_Collateral = int_dec (tx_collateral r),
        ct_OpenPrice = int_dec (tx_open_price r), ct_AccRolloverOpen = int_dec (tx_acc_rollover_open r),
        ct_AccFundingOpen = int_dec (tx_acc_funding_open r), ct_TpPrice = int_dec (tx_tp_price r),
        ct_SlPrice = int_dec (tx_sl_price r), ct_LiqPrice = int_dec (tx_liq_price r), ct_CurrentLiqPrice = [],
        ct_RolloverFee = [], ct_FundingFee = [], ct_OpenedAt = time_Format_RFC3339 loc (tx_opened_at r) \<rparr>,
      case pair_threshold d (tk_PairIndex k) of None \<Rightarrow> word_of_int (tx_liq_threshold_p r) | Some p \<Rightarrow> p,
      fee_text fa_acc_rollover d (tk_PairIndex k), fee_text fa_acc_funding_long d (tk_PairIndex k),
      fee_text fa_acc_funding_short d (tk_PairIndex k)))"

definition select_cache_rows :: "location \<Rightarrow> pair_db \<Rightarrow> cache_trade_row option list" where
  "select_cache_rows loc d = map (\<lambda>kr. Some (cache_row_of loc d kr)) (db_trades (pd_db d))"

definition select_fee_rows :: "pair_db \<Rightarrow> fee_query_row option list" where
  "select_fee_rows d =
     map (\<lambda>(i, p). Some (i, word_of_int (px_liq_threshold_p p), fee_text fa_acc_rollover d i,
            fee_text fa_acc_funding_long d i, fee_text fa_acc_funding_short d i)) (pd_pairs d)"

text \<open>A trade of the REST answer in the form of the snapshots.\<close>

definition ws_of_rest :: "location \<Rightarrow> trade_json \<Rightarrow> cached_trade" where
  "ws_of_rest loc t =
     \<lparr> ct_Trader = tj_trader t, ct_PairIndex = tj_pair_index t, ct_TradeIndex = tj_trade_index t,
       ct_IsLong = tj_is_long t, ct_Leverage = uint (tj_leverage t), ct_Collateral = tj_collateral t,
       ct_OpenPrice = tj_open_price t, ct_AccRolloverOpen = tj_acc_rollover_open t,
       ct_AccFundingOpen = tj_acc_funding_open t, ct_TpPrice = tj_tp_price t, ct_SlPrice = tj_sl_price t,
       ct_LiqPrice = tj_liq_price t, ct_CurrentLiqPrice = tj_current_liq_price t,
       ct_RolloverFee = tj_rollover_fee t, ct_FundingFee = tj_funding_fee t,
       ct_OpenedAt = time_Format_RFC3339 loc (tj_opened_at t) \<rparr>"

text \<open>A trade as the cache holds it after loading.\<close>

definition cached_of :: "location \<Rightarrow> pair_db \<Rightarrow> trade_key \<times> trade_rec \<Rightarrow> cached_trade" where
  "cached_of loc d kr = (case cache_row_of loc d kr of (t, thr, roll, long, short) \<Rightarrow> setDynamicTradeFees thr roll long short t)"

text \<open>The computed fees, and the text shown for one of them.\<close>

definition time_fees :: "u32 \<Rightarrow> string option \<Rightarrow> string option \<Rightarrow> string option \<Rightarrow> cached_trade \<Rightarrow> bigp \<times> bigp \<times> bigp" where
  "time_fees thr a b c t =
     (case (a, b, c) of
        (Some roll, Some long, Some short) \<Rightarrow>
          calculateTradeTimeFeesAndLiq (ct_OpenPrice t) (ct_Collateral t) (ct_AccRolloverOpen t) (ct_AccFundingOpen t)
            roll (if ct_IsLong t then long else short) (ct_IsLong t) (word_of_int (ct_Leverage t)) thr
      | _ \<Rightarrow> (None, None, None))"

definition shown :: "bigp \<Rightarrow> string \<Rightarrow> string \<Rightarrow> string" where
  "shown x old dflt = (case x of Some v \<Rightarrow> int_dec v | None \<Rightarrow> if old = [] then dflt else old)"

lemma set_if_upd:
  "set_if (\<lambda>x t. t\<lparr>ct_RolloverFee := int_dec x\<rparr>) a t = t\<lparr>ct_RolloverFee := case a of None \<Rightarrow> ct_RolloverFee t | Some x \<Rightarrow> int_dec x\<rparr>"
  "set_if (\<lambda>x t. t\<lparr>ct_FundingFee := int_dec x\<rparr>) a t = t\<lparr>ct_FundingFee := case a of None \<Rightarrow> ct_FundingFee t | Some x \<Rightarrow> int_dec x\<rparr>"
  "set_if (\<lambda>x t. t\<lparr>ct_CurrentLiqPrice := int_dec x\<rparr>) a t =
     t\<lparr>ct_CurrentLiqPrice := case a of None \<Rightarrow> ct_CurrentLiqPrice t | Some x \<Rightarrow> int_dec x\<rparr>"
  "set_if (\<lambda>x t. t\<lparr>tj_rollover_fee := int_dec x\<rparr>) a u = u\<lparr>tj_rollover_fee := case a of None \<Rightarrow> tj_rollover_fee u | Some x \<Rightarrow> int_dec x\<rparr>"
  "set_if (\<lambda>x t. t\<lparr>tj_funding_fee := int_dec x\<rparr>) a u = u\<lparr>tj_funding_fee := case a of None \<Rightarrow> tj_funding_fee u | Some x \<Rightarrow> int_dec x\<rparr>"
  "set_if (\<lambda>x t. t\<lparr>tj_current_liq_price := int_dec x\<rparr>) a u =
     u\<lparr>tj_current_liq_price := case a of None \<Rightarrow> tj_current_liq_price u | Some x \<Rightarrow> int_dec x\<rparr>"
  by (simp_all add: set_if_def split: option.split)

lemma ensureDynamicDefaults_eq:
  "ensureDynamicDefaults t = t\<lparr>ct_CurrentLiqPrice := shown None (ct_CurrentLiqPrice t) (ct_LiqPrice t),
     ct_RolloverFee := shown None (ct_RolloverFee t) ''0'', ct_FundingFee := shown None (ct_FundingFee t) ''0''\<rparr>"
  by (simp add: ensureDynamicDefaults_def shown_def Let_def)

lemma setDynamic_eq:
  "setDynamicTradeFees thr a b c t =
     (case time_fees thr a b c t of (rf, ff, lq) \<Rightarrow>
        t\<lparr>ct_CurrentLiqPrice := shown lq (ct_CurrentLiqPrice t) (ct_LiqPrice t),
          ct_RolloverFee := shown rf (ct_RolloverFee t) ''0'', ct_FundingFee := shown ff (ct_FundingFee t) ''0''\<rparr>)"
  by (cases a; cases b; cases c)
    (simp_all add: setDynamicTradeFees_def ensureDynamicDefaults_eq time_fees_def set_if_upd Let_def case_prod_beta
      shown_def split: option.split)

lemma setDynamic_key:
  "ct_Trader (setDynamicTradeFees thr a b c t) = ct_Trader t"
  "ct_PairIndex (setDynamicTradeFees thr a b c t) = ct_PairIndex t"
  by (simp_all add: setDynamic_eq case_prod_beta)

lemma cached_of_key: "ct_Trader (cached_of loc d (k, r)) = tk_Trader k" "ct_PairIndex (cached_of loc d (k, r)) = tk_PairIndex k"
  by (simp_all add: cached_of_def cache_row_of_def setDynamic_key)

lemma cached_of_index: "ct_TradeIndex (cached_of loc d (k, r)) = tk_TradeIndex k"
  by (simp add: cached_of_def cache_row_of_def setDynamic_eq case_prod_beta)

lemma slice_load:
  "slice_of (fold load_cached_trade (map (\<lambda>kr. Some (cache_row_of loc d kr)) xs) m) trader =
     slice_of m trader @ map (cached_of loc d) (filter (\<lambda>(k, r). tk_Trader k = trader) xs)"
proof (induction xs arbitrary: m)
  case (Cons x xs)
  obtain k r where x: "x = (k, r)" by (cases x)
  have "load_cached_trade (Some (cache_row_of loc d x)) m =
      gm_put (tk_Trader k) (slice_of m (tk_Trader k) @ [cached_of loc d x]) m"
    using cached_of_key(1) [of loc d k r]
    by (simp add: load_cached_trade_def cached_of_def x case_prod_beta Let_def)
  then show ?case by (simp add: Cons.IH) (simp add: slice_of_def x)
qed simp

text \<open>Setting the fees again from the same data changes nothing.\<close>

lemma setDynamic_again:
  "setDynamicTradeFees thr a b c (setDynamicTradeFees thr a b c t) = setDynamicTradeFees thr a b c t"
  "ensureDynamicDefaults (setDynamicTradeFees thr a b c t) = setDynamicTradeFees thr a b c t"
proof -
  have f: "time_fees thr a b c (t\<lparr>ct_CurrentLiqPrice := x, ct_RolloverFee := y, ct_FundingFee := z\<rparr>) = time_fees thr a b c t"
    for x y z by (simp add: time_fees_def split: option.split)
  have s: "shown x (shown x old dflt) dflt = shown x old dflt" "shown None (shown x old dflt) dflt = shown x old dflt"
    for x old dflt by (simp_all add: shown_def split: option.split)
  show "setDynamicTradeFees thr a b c (setDynamicTradeFees thr a b c t) = setDynamicTradeFees thr a b c t"
    by (simp add: setDynamic_eq case_prod_beta f s)
  show "ensureDynamicDefaults (setDynamicTradeFees thr a b c t) = setDynamicTradeFees thr a b c t"
    by (simp add: setDynamic_eq ensureDynamicDefaults_eq case_prod_beta s)
qed

lemma trade_json_of_eq:
  "trade_json_of (r, a, b, c, opened) =
     (case (case (a, b, c) of
              (Some roll, Some long, Some short) \<Rightarrow>
                calculateTradeTimeFeesAndLiq (rw_open_price r) (rw_collateral r) (rw_acc_rollover_open r)
                  (rw_acc_funding_open r) roll (if rw_is_long r then long else short) (rw_is_long r) (rw_leverage r)
                  (rw_liq_threshold_p r)
            | _ \<Rightarrow> (None, None, None)) of
        (rf, ff, lq) \<Rightarrow>
          \<lparr> tj_trader = rw_trader r, tj_pair_index = rw_pair_index r, tj_trade_index = rw_trade_index r,
            tj_is_long = rw_is_long r, tj_leverage = rw_leverage r, tj_collateral = rw_collateral r,
            tj_open_price = rw_open_price r, tj_acc_rollover_open = rw_acc_rollover_open r,
            tj_acc_funding_open = rw_acc_funding_open r, tj_tp_price = rw_tp_price r, tj_sl_price = rw_sl_price r,
            tj_liq_price = rw_liq_price r, tj_current_liq_price = shown lq [] (rw_liq_price r),
            tj_rollover_fee = shown rf [] ''0'', tj_funding_fee = shown ff [] ''0'', tj_opened_at = opened \<rparr>)"
  by (cases a; cases b; cases c)
    (simp_all add: trade_json_of_def api_calculate_same set_if_upd Let_def case_prod_beta shown_def split: option.split)

lemma cached_of_rest:
  assumes "0 \<le> tx_leverage r" "tx_leverage r < 2 ^ 31"
  shows "cached_of loc d (k, r) = ws_of_rest loc (trade_json_of (api_trade_row_of d (k, r)))"
proof -
  have "uint (word_of_int (tx_leverage r) :: u32) = tx_leverage r"
    using assms by (simp add: uint_word_of_int)
  then show ?thesis
    by (cases "gm_get (db_pair_fee_accumulators (pd_db d)) (tk_PairIndex k)")
      (simp_all add: cached_of_def cache_row_of_def trade_json_of_eq api_trade_row_of_def select_trade_def
        ws_of_rest_def setDynamic_eq time_fees_def fee_text_def case_prod_beta)
qed

lemma sort_key_map: "sort_key g (map f xs) = map f (sort_key (\<lambda>x. g (f x)) xs)"
proof -
  have "map f (insort_key (\<lambda>x. g (f x)) x ys) = insort_key g (f x) (map f ys)" for x ys
    by (induction ys) simp_all
  then show ?thesis by (induction xs) simp_all
qed

lemma enrich_one_cached:
  assumes "gm_wf (pd_pairs d)"
  shows "enrich_one (fold fee_snapshot_row (select_fee_rows d) gm_empty) (cached_of loc d (k, r)) = cached_of loc d (k, r)"
proof -
  let ?str = "\<lambda>x. case x of None \<Rightarrow> [] | Some y \<Rightarrow> y"
  let ?f = "\<lambda>i p. \<lparr> fs_liqThresholdP = word_of_int (px_liq_threshold_p p),
    fs_accRollover = ?str (fee_text fa_acc_rollover d i), fs_accFundingLong = ?str (fee_text fa_acc_funding_long d i),
    fs_accFundingShort = ?str (fee_text fa_acc_funding_short d i) \<rparr>"
  have F: "fold fee_snapshot_row (map (\<lambda>(i, p). Some (i, word_of_int (px_liq_threshold_p p), fee_text fa_acc_rollover d i,
      fee_text fa_acc_funding_long d i, fee_text fa_acc_funding_short d i)) m) m0 =
      gm.put_all (map (\<lambda>(i, p). (i, ?f i p)) m) m0" for m m0
    by (induction m arbitrary: m0) (auto simp: gm.put_all_def fee_snapshot_row_def Let_def)
  have g: "gm_get (fold fee_snapshot_row (select_fee_rows d) gm_empty) i = map_option (?f i) (gm_get (pd_pairs d) i)" for i
    unfolding select_fee_rows_def F by (rule get_put_all_keyed [OF assms])
  show ?thesis
  proof (cases "gm_get (pd_pairs d) (tk_PairIndex k)")
    case None
    then show ?thesis by (simp add: enrich_one_def cached_of_key g) (simp add: cached_of_def cache_row_of_def setDynamic_again)
  next
    case (Some p)
    show ?thesis
    proof (cases "gm_get (db_pair_fee_accumulators (pd_db d)) (tk_PairIndex k)")
      case None
      then show ?thesis using Some
        by (simp add: enrich_one_def cached_of_key g fee_text_def) (simp add: cached_of_def cache_row_of_def setDynamic_again)
    next
      fix a assume a: "gm_get (db_pair_fee_accumulators (pd_db d)) (tk_PairIndex k) = Some a"
      then show ?thesis using Some
        by (simp add: enrich_one_def cached_of_key g fee_text_def)
          (simp add: cached_of_def cache_row_of_def fee_text_def pair_threshold_def setDynamic_again)
    qed
  qed
qed

text \<open>The cached slice, and the snapshot, of a trader just after the load.\<close>

lemma loaded_slice:
  assumes "Cache_LoadFromDB (Inr (select_cache_rows loc d)) lq pq c0 = (None, c)"
  shows "slice_of (tc_trades c) trader = map (cached_of loc d) (filter (\<lambda>(k, r). tk_Trader k = trader) (db_trades (pd_db d)))"
proof -
  have "tc_trades c = fold load_cached_trade (select_cache_rows loc d) gm_empty"
    using assms by (auto simp: Cache_LoadFromDB_def Let_def split: sum.splits)
  then show ?thesis
    by (simp add: select_cache_rows_def slice_load) (simp add: slice_of_def)
qed

lemma loaded_snapshot:
  assumes "Cache_LoadFromDB (Inr (select_cache_rows loc d)) lq pq c0 = (None, c)" "gm_wf (pd_pairs d)"
  shows "sn_trades (GetSnapshot (Some (Inr (select_fee_rows d))) trader c) =
    map (cached_of loc d) (filter (\<lambda>(k, r). tk_Trader k = trader) (db_trades (pd_db d)))"
  using loaded_slice [OF assms(1), of trader] enrich_one_cached [OF assms(2), of loc]
  by (auto simp: GetSnapshot_def enrichTrades_def Let_def intro!: map_idI)

text \<open>C10: a client gets the same trades from REST and from the WebSocket. When the gateway has just loaded its
  cache from the tables, connecting to the WebSocket of a trader queues one message, the trader's snapshot,
  and subscribes the client; the trades in it are, up to their order, those that the REST request
  returns, with the same fees and liquidation prices, also when accumulators are missing.\<close>

theorem rest_and_websocket_agree:
  assumes "Cache_LoadFromDB (Inr (select_cache_rows loc d)) lq pq c0 = (None, c)"
    and "gm_wf (pd_pairs d)" "\<forall>(k, r) \<in> set (db_trades (pd_db d)). 0 \<le> tx_leverage r \<and> tx_leverage r < 2 ^ 31"
    and "q = Some (Inr (select_fee_rows d))" "marshal (GetSnapshot q trader c) = Inr text" "trader \<noteq> []"
    and "hb_send h cl = \<lparr> ch_buf = [], ch_closed = False \<rparr>"
  shows "\<exists>h' ts. handleTradeWebSocket None (\<lambda>u. marshal (GetSnapshot q u c)) al trader cl h = Some h' \<and>
    ch_buf (hb_send h' cl) = [text] \<and> gm_get (subs_of h' (''trader:'' @ trader)) cl = Some True \<and>
    handleGetTrades (select_trades_of d) trader = HttpOK (trader, ts) \<and>
    map (ws_of_rest loc) (case ts of None \<Rightarrow> [] | Some l \<Rightarrow> l) =
      sort_key ct_PairIndex (sort_key ct_TradeIndex (sn_trades (GetSnapshot q trader c)))"
proof -
  let ?rows = "filter (\<lambda>(k, r). tk_Trader k = trader) (db_trades (pd_db d))"
  have "sn_trades (GetSnapshot q trader c) = map (cached_of loc d) ?rows"
    unfolding assms(4) by (rule loaded_snapshot [OF assms(1,2)])
  moreover have "map (cached_of loc d) ?rows = map (\<lambda>kr. ws_of_rest loc (trade_json_of (api_trade_row_of d kr))) ?rows"
    using assms(3) by (auto simp: cached_of_rest)
  moreover let ?j = "\<lambda>kr. trade_json_of (api_trade_row_of d kr)"
  let ?S = "sort_key (\<lambda>(k, r). tk_PairIndex k) (sort_key (\<lambda>(k, r). tk_TradeIndex k) ?rows)"
  have "ct_PairIndex (ws_of_rest loc (?j kr)) = (case kr of (k, r) \<Rightarrow> tk_PairIndex k)"
    "ct_TradeIndex (ws_of_rest loc (?j kr)) = (case kr of (k, r) \<Rightarrow> tk_TradeIndex k)" for kr
    by (simp_all add: ws_of_rest_def api_trade_row_of_def trade_json_of_eq select_trade_def case_prod_beta)
  ultimately have s: "sort_key ct_PairIndex (sort_key ct_TradeIndex (sn_trades (GetSnapshot q trader c))) =
      map (\<lambda>kr. ws_of_rest loc (?j kr)) ?S"
    by (simp add: sort_key_map)
  have r: "handleGetTrades (select_trades_of d) trader =
      HttpOK (trader, if map ?j ?S = [] then None else Some (map ?j ?S))"
  proof -
    have "scanned (map (\<lambda>kr. Some (api_trade_row_of d kr)) ?S) = map (api_trade_row_of d) ?S"
      using scanned_map_Some [of "map (api_trade_row_of d) ?S"] by (simp add: comp_def)
    then show ?thesis by (simp add: handleGetTrades_def select_trades_of_def Let_def comp_def)
  qed
  obtain h' where "handleTradeWebSocket None (\<lambda>u. marshal (GetSnapshot q u c)) al trader cl h = Some h'"
    "ch_buf (hb_send h' cl) = [text]" "gm_get (subs_of h' (''trader:'' @ trader)) cl = Some True"
    using assms(5-7)
    by (simp add: handleTradeWebSocket_def ws_connect_def run_register_def set_phase_def Subscribe_def sub_add_def
        push_snapshot_def push_def chan_send_def send_cap_def set_chan_def subs_of_def Let_def)
  then show ?thesis using r s
    by (intro exI [of _ h'] exI [of _ "if map ?j ?S = [] then None else Some (map ?j ?S)"]) (auto simp: comp_def)
qed

definition demo_book :: pair_db where
  "demo_book = demo_pair_db\<lparr>pd_db := empty_db\<lparr>db_trades :=
     [(TradeKey ''alice'' 1 0,
       \<lparr> tx_is_long = True, tx_leverage = 10, tx_collateral = 500, tx_open_price = 1000, tx_acc_rollover_open = 0,
         tx_acc_funding_open = 0, tx_tp_price = 0, tx_sl_price = 0, tx_liq_price = 910, tx_liq_threshold_p = 90,
         tx_open_fee = 0, tx_opened_at = 0, tx_opened_tx = ''tx0'' \<rparr>)]\<rparr>\<rparr>"

theorem rest_and_websocket_agree_witness:
  "\<exists>c h' t. Cache_LoadFromDB (Inr (select_cache_rows utc demo_book)) (Inr []) (Inr []) NewTradeCache = (None, c) \<and>
     handleTradeWebSocket None (\<lambda>u. Inr ''snap'') (Inr []) ''alice'' 0 NewHub = Some h' \<and> ch_buf (hb_send h' 0) = [''snap''] \<and>
     handleGetTrades (select_trades_of demo_book) ''alice'' = HttpOK (''alice'', Some [t]) \<and> tj_liq_price t = int_dec 910"
proof -
  obtain c where c: "Cache_LoadFromDB (Inr (select_cache_rows utc demo_book)) (Inr []) (Inr []) NewTradeCache = (None, c)"
    by (simp add: Cache_LoadFromDB_def Let_def)
  obtain h' ts where "handleTradeWebSocket None (\<lambda>u. Inr ''snap'') (Inr []) ''alice'' 0 NewHub = Some h'"
    "ch_buf (hb_send h' 0) = [''snap'']" "handleGetTrades (select_trades_of demo_book) ''alice'' = HttpOK (''alice'', ts)"
    using rest_and_websocket_agree [OF c _ _ refl, of "\<lambda>_. Inr ''snap''" "''alice''" "''snap''" NewHub 0 "Inr []"]
    by (auto simp: demo_book_def demo_pair_db_def NewHub_def)
  moreover obtain t where "handleGetTrades (select_trades_of demo_book) ''alice'' = HttpOK (''alice'', Some [t])"
    "tj_liq_price t = int_dec 910"
    by (simp add: handleGetTrades_def select_trades_of_def demo_book_def trade_json_of_eq api_trade_row_of_def
        select_trade_def case_prod_beta)
  ultimately show ?thesis using c by auto
qed

section \<open>The price shown and the price acted on\<close>

text \<open>The shown price of a cached trade is the price that the keeper tests for the row.\<close>

lemma cached_liq:
  assumes "db_ok (pd_db d)" "restart (pair_threshold d) (pd_db d) = (None, s)"
  shows "\<exists>v. ct_CurrentLiqPrice (cached_of loc d (k, r)) = int_dec v \<and>
    effective_liq s (tk_PairIndex k) (position_of (threshold_of (pair_threshold d) k r) k r) = Some v"
proof -
  let ?p = "tk_PairIndex k" and ?ent = "position_of (threshold_of (pair_threshold d) k r) k r"
  note f = restart_holds(4) [OF assms, of ?p]
  have thr: "(case pair_threshold d ?p of None \<Rightarrow> word_of_int (tx_liq_threshold_p r) | Some q \<Rightarrow> q) = te_LiqThresholdP ?ent"
    by (simp add: position_of_def threshold_of_def split: option.split)
  show ?thesis
  proof (cases "gm_get (db_pair_fee_accumulators (pd_db d)) ?p")
    case None
    then have "effective_liq s ?p ?ent = te_LiqPrice ?ent" unfolding effective_liq_def f by simp
    then show ?thesis
      using None
      by (simp add: cached_of_def cache_row_of_def setDynamic_eq time_fees_def fee_text_def shown_def position_of_def)
  next
    case (Some a)
    have e: "te_OpenPrice ?ent = Some (tx_open_price r)" "te_Collateral ?ent = Some (tx_collateral r)"
      "te_AccRolloverOpen ?ent = Some (tx_acc_rollover_open r)" "te_AccFundingOpen ?ent = Some (tx_acc_funding_open r)"
      "te_LiqPrice ?ent = Some (tx_liq_price r)" "te_IsLong ?ent = tx_is_long r" "te_Leverage ?ent = word_of_int (tx_leverage r)"
      by (simp_all add: position_of_def)
    have g: "pf_AccRollover (fees_of ?p a) = Some (fa_acc_rollover a)" "pf_AccFundingLong (fees_of ?p a) = Some (fa_acc_funding_long a)"
      "pf_AccFundingShort (fees_of ?p a) = Some (fa_acc_funding_short a)"
      by (simp_all add: fees_of_def)
    have c: "ct_CurrentLiqPrice (cached_of loc d (k, r)) =
        shown (ignore_err (currentLiquidationPrice ?ent (fees_of ?p a))) [] (int_dec (tx_liq_price r))"
      using Some fees_and_liq_agree [OF e(1-4) g] unfolding e(6,7) thr [symmetric]
      by (simp add: cached_of_def cache_row_of_def setDynamic_eq time_fees_def fee_text_def case_prod_beta)
    have "effective_liq s ?p ?ent =
        (case currentLiquidationPrice ?ent (fees_of ?p a) of Inl _ \<Rightarrow> te_LiqPrice ?ent | Inr x \<Rightarrow> Some x)"
      unfolding effective_liq_def f Some by simp
    then show ?thesis
      by (cases "currentLiquidationPrice ?ent (fees_of ?p a)") (simp_all add: c shown_def e(5) ignore_err_def)
  qed
qed

lemma filter_key:
  assumes "distinct (map fst xs)" "(k, r) \<in> set xs"
  shows "filter (\<lambda>(k', r'). k' = k) xs = [(k, r)]"
  using assms
proof (induction xs)
  case (Cons x xs)
  show ?case
  proof (cases "x = (k, r)")
    case True
    then have "filter (\<lambda>(k', r'). k' = k) xs = []" using Cons.prems(1) by (force simp: filter_empty_conv)
    then show ?thesis using True by simp
  next
    case False
    then show ?thesis using Cons by force
  qed
qed simp

lemma key_fields:
  "k' = k \<longleftrightarrow> tk_Trader k' = tk_Trader k \<and> tk_PairIndex k' = tk_PairIndex k \<and> tk_TradeIndex k' = tk_TradeIndex k"
  by (auto intro: trade_key.expand)

text \<open>The snapshot has one trade for each of the trader's rows.\<close>

lemma shown_trade:
  assumes "Cache_LoadFromDB (Inr (select_cache_rows loc d)) lq pq c0 = (None, c)" "gm_wf (pd_pairs d)"
    and "db_ok (pd_db d)" "gm_get (db_trades (pd_db d)) k = Some r"
  shows "filter (\<lambda>t. ct_PairIndex t = tk_PairIndex k \<and> ct_TradeIndex t = tk_TradeIndex k)
      (sn_trades (GetSnapshot (Some (Inr (select_fee_rows d))) (tk_Trader k) c)) = [cached_of loc d (k, r)]"
proof -
  have "(k, r) \<in> set (db_trades (pd_db d))" using assms(4) by (simp add: gm_get_def map_of_SomeD)
  moreover have "distinct (map fst (db_trades (pd_db d)))" using assms(3) by (simp add: db_ok_def gm_wf_def)
  ultimately have one: "filter (\<lambda>(k', r'). k' = k) (db_trades (pd_db d)) = [(k, r)]" by (rule filter_key [rotated])
  have "filter (\<lambda>kr. ct_PairIndex (cached_of loc d kr) = tk_PairIndex k \<and> ct_TradeIndex (cached_of loc d kr) = tk_TradeIndex k)
      (filter (\<lambda>(k', r). tk_Trader k' = tk_Trader k) (db_trades (pd_db d))) = filter (\<lambda>(k', r'). k' = k) (db_trades (pd_db d))"
    unfolding filter_filter
  proof (rule filter_cong [OF refl])
    fix x
    show "((case x of (k', r) \<Rightarrow> tk_Trader k' = tk_Trader k) \<and>
        ct_PairIndex (cached_of loc d x) = tk_PairIndex k \<and> ct_TradeIndex (cached_of loc d x) = tk_TradeIndex k) =
        (case x of (k', r') \<Rightarrow> k' = k)"
      by (cases x) (simp add: cached_of_key cached_of_index key_fields)
  qed
  then show ?thesis unfolding loaded_snapshot [OF assms(1,2)] filter_map comp_def one by simp
qed

text \<open>C27: the keeper liquidates at the price that the gateway shows. When keeper and gateway have just loaded
  the same tables, the snapshot of a trader has exactly one trade for each of the trader's positions, and the
  current liquidation price in it is the one that decides: on every price, Detect asks for the liquidation of
  this position if and only if the price has reached the price shown. Both take the pair's threshold, or the
  row's own for an unknown pair, and both fall back to the stored price when the fees are unknown or the
  computation fails. This is about positions that the keeper has loaded: one that it got from an opened event has the
  threshold 90 until the next restart, and for a pair with another threshold the price shown is then not the
  price it acts on (\<open>shown_other_threshold\<close> in \<open>Restart\<close>).\<close>

theorem shown_liquidation_price:
  assumes "db_ok (pd_db d)" "gm_wf (pd_pairs d)"
    and "Cache_LoadFromDB (Inr (select_cache_rows loc d)) lq pq c0 = (None, c)"
    and "restart (pair_threshold d) (pd_db d) = (None, s)"
    and "gm_get (db_trades (pd_db d)) k = Some r"
  shows "\<exists>t v. filter (\<lambda>t. ct_PairIndex t = tk_PairIndex k \<and> ct_TradeIndex t = tk_TradeIndex k)
        (sn_trades (GetSnapshot (Some (Inr (select_fee_rows d))) (tk_Trader k) c)) = [t] \<and>
      ct_CurrentLiqPrice t = int_dec v \<and>
      (\<forall>p. \<exists>actions. Detect (tk_PairIndex k) (Some p) s = Some actions \<and>
         (\<lparr>pa_Type = ActionLiquidate, pa_Key = k, pa_IsLong = tx_is_long r, pa_LimitIndex = 0\<rparr> \<in> set actions \<longleftrightarrow>
          IsLiquidatable (Some p) (Some v) (tx_is_long r)))"
proof -
  let ?ent = "position_of (threshold_of (pair_threshold d) k r) k r"
  obtain v where v: "ct_CurrentLiqPrice (cached_of loc d (k, r)) = int_dec v" "effective_liq s (tk_PairIndex k) ?ent = Some v"
    using cached_liq [OF assms(1,4)] by blast
  note f = shown_trade [OF assms(3,2,1,5)]
  have wf: "ts_wf s" using ts_wf_LoadFromDB [OF ts_wf_New] assms(4) unfolding restart_def by (metis snd_conv)
  have g: "gm_get (ts_trades s) k = Some ?ent" using restart_holds(2) [OF assms(1,4), of k] assms(5) by simp
  have l: "te_IsLong ?ent = tx_is_long r" by (simp add: position_of_def)
  have "\<lparr>pa_Type = ActionLiquidate, pa_Key = k, pa_IsLong = tx_is_long r, pa_LimitIndex = 0\<rparr>
        \<in> set (due_trade_actions s (tk_PairIndex k) p @ due_limit_actions s (tk_PairIndex k) p) \<longleftrightarrow>
      IsLiquidatable (Some p) (Some v) (tx_is_long r)" for p
    unfolding set_append Un_iff due_trade_iff [OF wf] due_limit_iff [OF wf] by (simp add: g v(2) l)
  then have "\<exists>actions. Detect (tk_PairIndex k) (Some p) s = Some actions \<and>
        (\<lparr>pa_Type = ActionLiquidate, pa_Key = k, pa_IsLong = tx_is_long r, pa_LimitIndex = 0\<rparr> \<in> set actions \<longleftrightarrow>
         IsLiquidatable (Some p) (Some v) (tx_is_long r))" for p
    unfolding Detect_due by blast
  with f v(1) show ?thesis by blast
qed

theorem shown_liquidation_price_witness:
  "\<exists>c s t v. Cache_LoadFromDB (Inr (select_cache_rows utc demo_book)) (Inr []) (Inr []) NewTradeCache = (None, c) \<and>
     restart (pair_threshold demo_book) (pd_db demo_book) = (None, s) \<and>
     t \<in> set (sn_trades (GetSnapshot (Some (Inr (select_fee_rows demo_book))) ''alice'' c)) \<and> ct_CurrentLiqPrice t = int_dec v \<and>
     (\<exists>actions. Detect 1 (Some v) s = Some actions \<and>
        (\<lparr>pa_Type = ActionLiquidate, pa_Key = TradeKey ''alice'' 1 0, pa_IsLong = True, pa_LimitIndex = 0\<rparr> \<in> set actions \<longleftrightarrow>
         v \<noteq> 0))"
proof -
  obtain c where c: "Cache_LoadFromDB (Inr (select_cache_rows utc demo_book)) (Inr []) (Inr []) NewTradeCache = (None, c)"
    by (simp add: Cache_LoadFromDB_def Let_def)
  have ok: "db_ok (pd_db demo_book)"
    by (simp add: demo_book_def db_ok_def empty_db_def) (simp add: gm_wf_def gm_empty_def)
  obtain r0 s where r0: "restart (pair_threshold demo_book) (pd_db demo_book) = (r0, s)"
    by (cases "restart (pair_threshold demo_book) (pd_db demo_book)")
  then have s: "restart (pair_threshold demo_book) (pd_db demo_book) = (None, s)" using restart_holds(1) [OF ok] by simp
  have wf: "gm_wf (pd_pairs demo_book)" by (simp add: demo_book_def demo_pair_db_def)
  obtain r where r: "gm_get (db_trades (pd_db demo_book)) (TradeKey ''alice'' 1 0) = Some r" "tx_is_long r"
    by (simp add: demo_book_def gm_get_def)
  obtain t v where t: "filter (\<lambda>t. ct_PairIndex t = 1 \<and> ct_TradeIndex t = 0)
      (sn_trades (GetSnapshot (Some (Inr (select_fee_rows demo_book))) ''alice'' c)) = [t]" "ct_CurrentLiqPrice t = int_dec v"
    "\<exists>actions. Detect 1 (Some v) s = Some actions \<and>
      (\<lparr>pa_Type = ActionLiquidate, pa_Key = TradeKey ''alice'' 1 0, pa_IsLong = True, pa_LimitIndex = 0\<rparr> \<in> set actions \<longleftrightarrow>
       IsLiquidatable (Some v) (Some v) True)"
    using shown_liquidation_price [OF ok wf c s r(1)] r(2) by auto
  have "t \<in> set (sn_trades (GetSnapshot (Some (Inr (select_fee_rows demo_book))) ''alice'' c))"
  proof -
    have "t \<in> set (filter (\<lambda>t. ct_PairIndex t = 1 \<and> ct_TradeIndex t = 0)
        (sn_trades (GetSnapshot (Some (Inr (select_fee_rows demo_book))) ''alice'' c)))" unfolding t(1) by simp
    then show ?thesis by simp
  qed
  moreover have "IsLiquidatable (Some v) (Some v) True \<longleftrightarrow> v \<noteq> 0" by (simp add: IsLiquidatable_def)
  ultimately show ?thesis using c s t(2,3) by (metis (no_types, lifting))
qed

end
