(* ===== verification/Client_Pumps.thy ===== *)
theory Client_Pumps
  imports Hub
begin

text \<open>
  \<^verbatim>\<open>internal/wsgateway/client.go\<close>: the two pumps of a connection, and the goroutines of all connections
  together with the hub.

  \<open>ReadPump\<close> is the sequence of the steps of \<open>hub_op\<close> that it performs for a sequence of reads; it
  takes turns with the rest of the gateway between any two of them. \<open>WritePump\<close> is a function of
  what the hub sends meanwhile and of the case that \<open>select\<close> takes, and yields its calls of the
  WebSocket library.

  Proved here: the steps of a message are \<open>read_message\<close>; whatever the connections do and however
  they are interleaved, the hub stays within the states of \<open>hub_reachable\<close>, so that what is proved
  there holds for the gateway; a writer writes what was queued, in order, and closes the connection
  after the last message.
\<close>

section \<open>Constants and the client\<close>

definition writeWait :: i64 where "writeWait = 10 * 1000000000"
definition pongWait :: i64 where "pongWait = 60 * 1000000000"
definition pingPeriod :: i64 where "pingPeriod = (pongWait * 9) div 10"
definition maxMessageSize :: i64 where "maxMessageSize = 512"

text \<open>The part of a client that changes is its channel.\<close>

definition NewClient :: chan where
  "NewClient = \<lparr> ch_buf = [], ch_closed = False \<rparr>"

section \<open>ReadPump\<close>

text \<open>What \<open>conn.Read\<close> returns, an error or a message, and the snapshots at that time. An error tells
  whether the peer closed the connection normally, which only the log shows.\<close>

datatype read_result = ReadError bool | ReadData string

record read_turn =
  rt_read :: read_result
  rt_snapshot :: "string \<Rightarrow> string + string"
  rt_all :: "string + string"

definition snapshot_ops :: "client \<Rightarrow> string + string \<Rightarrow> hub_op list" where
  "snapshot_ops c r = (case r of Inl err \<Rightarrow> [] | Inr snapshot \<Rightarrow> [OpPush c snapshot])"

definition subscribe_ops ::
  "(string \<Rightarrow> string + string) \<Rightarrow> string + string \<Rightarrow> client \<Rightarrow> string \<Rightarrow> hub_op list" where
  "subscribe_ops snapshot all_snapshot c channel =
     [OpSubAdd c channel] @
     (if length channel > 7 \<and> take 7 channel = ''trader:'' then snapshot_ops c (snapshot (drop 7 channel)) else []) @
     (if channel = ''trades:all'' then snapshot_ops c all_snapshot else [])"

definition message_ops ::
  "(string \<Rightarrow> string + (string \<times> string)) \<Rightarrow> (string \<Rightarrow> string + string) \<Rightarrow> string + string
   \<Rightarrow> client \<Rightarrow> string \<Rightarrow> hub_op list" where
  "message_ops unmarshal snapshot all_snapshot c data =
     (case unmarshal data of
        Inl err \<Rightarrow> []
      | Inr (typ, channel) \<Rightarrow>
          if typ = ''subscribe'' then
            if channel = [] then [] else subscribe_ops snapshot all_snapshot c channel
          else if typ = ''unsubscribe'' then
            if channel = [] then [] else [OpUnsubscribe c channel]
          else [])"

fun ReadPump ::
  "(string \<Rightarrow> string + (string \<times> string)) \<Rightarrow> client \<Rightarrow> read_turn list \<Rightarrow> hub_op list" where
  "ReadPump unmarshal c [] = []"
| "ReadPump unmarshal c (t # ts) =
     (case rt_read t of
        ReadError normal \<Rightarrow> [OpLeave c]
      | ReadData data \<Rightarrow>
          message_ops unmarshal (rt_snapshot t) (rt_all t) c data @ ReadPump unmarshal c ts)"

text \<open>The handler of a connection: it registers the client, subscribes it and reads.\<close>

definition connection_ops ::
  "(string \<Rightarrow> string + (string \<times> string)) \<Rightarrow> (string \<Rightarrow> string + string) \<Rightarrow> string + string \<Rightarrow> string
   \<Rightarrow> client \<Rightarrow> read_turn list \<Rightarrow> hub_op list" where
  "connection_ops unmarshal snapshot all_snapshot channel c ts =
     OpRegister c # subscribe_ops snapshot all_snapshot c channel @ ReadPump unmarshal c ts"

section \<open>WritePump\<close>

text \<open>One turn of the loop: the messages that the hub has sent since the last one, whether it has closed
  the channel, and the case that \<open>select\<close> takes, with the error of \<open>Write\<close> or \<open>Ping\<close>.\<close>

datatype select_case = SelDone | SelMessage "string option" | SelTicker "string option"

record write_turn =
  wt_sent :: "string list"
  wt_closed :: bool
  wt_case :: select_case

datatype conn_call = CallWrite string | CallWriteFailed string | CallPing | CallPingFailed | CallClose string

definition arrive :: "write_turn \<Rightarrow> chan \<Rightarrow> chan" where
  "arrive t ch = ch\<lparr>ch_buf := ch_buf ch @ wt_sent t, ch_closed := ch_closed ch \<or> wt_closed t\<rparr>"

text \<open>One turn: the calls on the connection, the channel that is left and whether the loop goes on. A
  receive from an empty open channel is not ready, and \<open>select\<close> waits on. The deferred \<open>Close\<close> is
  the last call of a turn that returns.\<close>

definition write_iteration :: "write_turn \<Rightarrow> chan \<Rightarrow> conn_call list \<times> chan \<times> bool" where
  "write_iteration t ch0 =
     (let ch = arrive t ch0 in
      case wt_case t of
        SelDone \<Rightarrow> ([CallClose []], ch, False)
      | SelMessage err \<Rightarrow>
          (case ch_buf ch of
             [] \<Rightarrow>
               if ch_closed ch then ([CallClose ''hub closed'', CallClose []], ch, False)
               else ([], ch, True)
           | message # rest \<Rightarrow>
               (case err of
                  None \<Rightarrow> ([CallWrite message], ch\<lparr>ch_buf := rest\<rparr>, True)
                | Some e \<Rightarrow> ([CallWriteFailed message, CallClose []], ch\<lparr>ch_buf := rest\<rparr>, False)))
      | SelTicker err \<Rightarrow>
          (case err of
             None \<Rightarrow> ([CallPing], ch, True)
           | Some e \<Rightarrow> ([CallPingFailed, CallClose []], ch, False)))"

fun WritePump :: "write_turn list \<Rightarrow> chan \<Rightarrow> conn_call list \<times> chan \<times> bool" where
  "WritePump [] ch = ([], ch, True)"
| "WritePump (t # ts) ch =
     (case write_iteration t ch of
        (calls, ch, False) \<Rightarrow> (calls, ch, False)
      | (calls, ch, True) \<Rightarrow> (let (calls', out) = WritePump ts ch in (calls @ calls', out)))"

section \<open>All goroutines of the gateway\<close>

text \<open>The steps of readers; the others are those of the hub, the cache, the price feed and the writers.\<close>

fun reader_op :: "hub_op \<Rightarrow> bool" where
  "reader_op (OpRegister c) \<longleftrightarrow> True"
| "reader_op (OpLeave c) \<longleftrightarrow> True"
| "reader_op (OpSubAdd c channel) \<longleftrightarrow> True"
| "reader_op (OpPush c x) \<longleftrightarrow> True"
| "reader_op (OpUnsubscribe c channel) \<longleftrightarrow> True"
| "reader_op _ \<longleftrightarrow> False"

text \<open>A reader waits for nothing but the hub's loop, when it registers and when it leaves.\<close>

fun reader_ready :: "hub_op \<Rightarrow> hub \<Rightarrow> bool" where
  "reader_ready (OpRegister c) h \<longleftrightarrow> hb_running h"
| "reader_ready (OpLeave c) h \<longleftrightarrow> hb_running h"
| "reader_ready _ h \<longleftrightarrow> True"

text \<open>The gateway with the steps that every connection still has before it: any connection takes its next
  step, or another goroutine takes one.\<close>

inductive gateway_run :: "(client \<Rightarrow> hub_op list) \<Rightarrow> hub \<Rightarrow> (client \<Rightarrow> hub_op list) \<Rightarrow> bool"
  for prog :: "client \<Rightarrow> hub_op list" where
  start: "gateway_run prog NewHub prog"
| reader: "gateway_run prog h todo \<Longrightarrow> todo c = op # rest \<Longrightarrow> reader_ready op h \<Longrightarrow> exec op h = Some h' \<Longrightarrow>
    gateway_run prog h' (todo(c := rest))"
| other: "gateway_run prog h todo \<Longrightarrow> \<not> reader_op op \<Longrightarrow> enabled op h \<Longrightarrow> exec op h = Some h' \<Longrightarrow>
    gateway_run prog h' todo"

section \<open>The pumps\<close>

fun exec_all :: "hub_op list \<Rightarrow> hub \<Rightarrow> hub option" where
  "exec_all [] h = Some h"
| "exec_all (op # ops) h = (case exec op h of None \<Rightarrow> None | Some h' \<Rightarrow> exec_all ops h')"

lemma exec_all_append:
  "exec_all (xs @ ys) h = (case exec_all xs h of None \<Rightarrow> None | Some h' \<Rightarrow> exec_all ys h')"
  by (induction xs arbitrary: h) (auto split: option.splits)

lemma exec_snapshot_ops: "exec_all (snapshot_ops c r) h = push_snapshot c r h"
  by (cases r) (simp_all add: snapshot_ops_def push_snapshot_def split: option.splits)

lemma exec_subscribe_ops:
  "exec_all (subscribe_ops snapshot al c channel) h = Subscribe snapshot al c channel h"
  by (auto simp: subscribe_ops_def Subscribe_def exec_all_append exec_snapshot_ops Let_def split: option.splits)

text \<open>When nothing comes between them, the steps of a message are \<open>read_message\<close>.\<close>

lemma exec_message_ops:
  "exec_all (message_ops unmarshal snapshot al c data) h = read_message unmarshal snapshot al c data h"
  by (auto simp: message_ops_def read_message_def exec_subscribe_ops split: sum.splits)

section \<open>The gateway stays within the states of the hub\<close>

text \<open>The steps a connection has left fit the phase of its client.\<close>

fun inner_op :: "client \<Rightarrow> hub_op \<Rightarrow> bool" where
  "inner_op c (OpSubAdd c' channel) \<longleftrightarrow> c' = c"
| "inner_op c (OpPush c' x) \<longleftrightarrow> c' = c"
| "inner_op c (OpUnsubscribe c' channel) \<longleftrightarrow> c' = c"
| "inner_op c _ \<longleftrightarrow> False"

definition reading_ops :: "client \<Rightarrow> hub_op list \<Rightarrow> bool" where
  "reading_ops c ops \<longleftrightarrow> (\<exists>ops1 ops2. ops = ops1 @ ops2 \<and> list_all (inner_op c) ops1 \<and> (ops2 = [] \<or> ops2 = [OpLeave c]))"

definition fits_phase :: "client \<Rightarrow> phase \<Rightarrow> hub_op list \<Rightarrow> bool" where
  "fits_phase c p ops =
     (case p of
        Fresh \<Rightarrow> ops = [] \<or> (\<exists>rest. ops = OpRegister c # rest \<and> reading_ops c rest)
      | Reading \<Rightarrow> reading_ops c ops
      | Left \<Rightarrow> ops = [])"

lemma reading_ops_append: "list_all (inner_op c) xs \<Longrightarrow> reading_ops c ys \<Longrightarrow> reading_ops c (xs @ ys)"
  unfolding reading_ops_def by (metis append.assoc list_all_append)

lemma inner_subscribe_ops: "list_all (inner_op c) (subscribe_ops snapshot al c channel)"
  by (simp add: subscribe_ops_def snapshot_ops_def split: sum.splits)

lemma inner_message_ops: "list_all (inner_op c) (message_ops unmarshal snapshot al c data)"
  by (simp add: message_ops_def inner_subscribe_ops split: sum.splits)

lemma reading_ReadPump: "reading_ops c (ReadPump unmarshal c ts)"
proof (induction ts)
  case Nil
  show ?case by (simp add: reading_ops_def)
next
  case (Cons t ts)
  have "reading_ops c [OpLeave c]"
    unfolding reading_ops_def by (intro exI [of _ "[]"] exI [of _ "[OpLeave c]"]) simp
  with Cons show ?case
    by (cases "rt_read t") (simp_all add: reading_ops_append inner_message_ops)
qed

lemma fits_connection: "fits_phase c Fresh (connection_ops unmarshal snapshot al channel c ts)"
  by (simp add: fits_phase_def connection_ops_def reading_ops_append inner_subscribe_ops reading_ReadPump)

lemma fits_absent: "fits_phase c Fresh []"
  by (simp add: fits_phase_def)

text \<open>Which phases a step changes.\<close>

lemma deliver_all_phase: "deliver_all x cs h = Some h' \<Longrightarrow> hb_phase h' = hb_phase h"
  by (induction cs arbitrary: h) (auto simp: deliver_eq split: if_splits option.splits)

lemma close_each_phase: "close_each cs h = Some h' \<Longrightarrow> hb_phase h' = hb_phase h"
  by (induction cs arbitrary: h) (auto split: option.splits)

lemma exec_phase:
  assumes "exec op h = Some h'"
  shows "hb_phase h' =
    (case op of OpRegister c \<Rightarrow> (hb_phase h)(c := Reading) | OpLeave c \<Rightarrow> (hb_phase h)(c := Left) | _ \<Rightarrow> hb_phase h)"
  using assms
proof (cases op)
  case (OpLeave c)
  then show ?thesis
    using assms by (auto simp: run_unregister_def set_phase_def Let_def split: option.splits)
next
  case OpBroadcast
  then show ?thesis
    using assms by (auto simp: run_broadcast_def split: list.splits dest: deliver_all_phase)
next
  case OpCloseAll
  then show ?thesis using assms by (auto simp: closeAll_def dest: close_each_phase)
qed (auto simp: run_register_def set_phase_def sub_add_def push_def write_next_def drop_next_def split: list.splits)

lemma reading_ops_Cons:
  assumes "reading_ops c (op # rest)"
  shows "inner_op c op \<and> reading_ops c rest \<or> op = OpLeave c \<and> rest = []"
proof -
  obtain ops1 ops2 where o: "op # rest = ops1 @ ops2" "list_all (inner_op c) ops1" "ops2 = [] \<or> ops2 = [OpLeave c]"
    using assms by (auto simp: reading_ops_def)
  show ?thesis
  proof (cases ops1)
    case Nil
    then show ?thesis using o by auto
  next
    case (Cons x xs)
    then show ?thesis using o by (auto simp: reading_ops_def)
  qed
qed

text \<open>The next step of a connection is possible in the hub's step relation, and what is left fits again.\<close>

lemma fits_next:
  assumes "fits_phase c p (op # rest)"
  shows "p = Fresh \<and> op = OpRegister c \<and> reading_ops c rest \<or>
    p = Reading \<and> inner_op c op \<and> reading_ops c rest \<or> p = Reading \<and> op = OpLeave c \<and> rest = []"
  using assms reading_ops_Cons by (auto simp: fits_phase_def split: phase.splits)

lemma fits_enabled:
  "fits_phase c (hb_phase h c) (op # rest) \<Longrightarrow> reader_ready op h \<Longrightarrow> enabled op h"
  by (drule fits_next) (cases op; auto)

lemma reader_step:
  assumes "fits_phase c (hb_phase h c) (op # rest)" "exec op h = Some h'"
  shows "fits_phase c (hb_phase h' c) rest \<and> (\<forall>c'. c' \<noteq> c \<longrightarrow> hb_phase h' c' = hb_phase h c')"
  using fits_next [OF assms(1)] exec_phase [OF assms(2)] by (cases op) (auto simp: fits_phase_def)

lemma other_phase: "\<not> reader_op op \<Longrightarrow> exec op h = Some h' \<Longrightarrow> hb_phase h' = hb_phase h"
  using exec_phase by (cases op) fastforce+

lemma gateway_fits:
  assumes "gateway_run prog h todo" "\<forall>c. fits_phase c Fresh (prog c)"
  shows "hub_reachable (\<lambda>_ _. True) h \<and> (\<forall>c. fits_phase c (hb_phase h c) (todo c))"
  using assms(1)
proof (induction rule: gateway_run.induct)
  case start
  show ?case using assms(2) by (simp add: hub_reachable.start) (simp add: NewHub_def)
next
  case (reader h todo c op rest h')
  then have f: "fits_phase c (hb_phase h c) (op # rest)" by metis
  have "hub_reachable (\<lambda>_ _. True) h'"
    using reader fits_enabled [OF f] by (intro hub_reachable.step [of _ h op h']) auto
  then show ?case using reader.IH reader_step [OF f reader.hyps(4)] by auto
next
  case (other h todo op h')
  then have "hub_reachable (\<lambda>_ _. True) h'" by (intro hub_reachable.step [of _ h op h']) auto
  then show ?case using other other_phase by simp
qed

section \<open>Writing\<close>

text \<open>The messages a pump has written, and those it has taken from its channel.\<close>

fun written :: "conn_call list \<Rightarrow> string list" where
  "written [] = []"
| "written (CallWrite x # calls) = x # written calls"
| "written (call # calls) = written calls"

fun taken :: "conn_call list \<Rightarrow> string list" where
  "taken [] = []"
| "taken (CallWrite x # calls) = x # taken calls"
| "taken (CallWriteFailed x # calls) = x # taken calls"
| "taken (call # calls) = taken calls"

lemma written_append [simp]: "written (xs @ ys) = written xs @ written ys"
  by (induction xs rule: written.induct) simp_all

lemma taken_append [simp]: "taken (xs @ ys) = taken xs @ taken ys"
  by (induction xs rule: taken.induct) simp_all

lemma arrive_sel [simp]:
  "ch_buf (arrive t ch) = ch_buf ch @ wt_sent t" "ch_closed (arrive t ch) = (ch_closed ch \<or> wt_closed t)"
  by (simp_all add: arrive_def)

lemma write_iteration_taken:
  "write_iteration t ch = (calls, ch', on) \<Longrightarrow> taken calls @ ch_buf ch' = ch_buf ch @ wt_sent t"
  by (auto simp: write_iteration_def Let_def split: select_case.splits list.splits option.splits if_splits)

text \<open>Nothing is lost, doubled or reordered between the channel and the connection.\<close>

lemma WritePump_taken:
  assumes "WritePump ts ch = (calls, ch', running)"
  shows "\<exists>k \<le> length ts. taken calls @ ch_buf ch' = ch_buf ch @ concat (map wt_sent (take k ts)) \<and>
    (running \<longrightarrow> k = length ts)"
  using assms
proof (induction ts arbitrary: ch calls)
  case Nil
  then show ?case by simp
next
  case (Cons t ts)
  obtain calls1 ch1 on where i: "write_iteration t ch = (calls1, ch1, on)" by (cases "write_iteration t ch") auto
  note t = write_iteration_taken [OF i]
  show ?case
  proof (cases on)
    case False
    then show ?thesis using Cons.prems i t by (intro exI [of _ 1]) simp
  next
    case True
    then obtain calls2 where c: "WritePump ts ch1 = (calls2, ch', running)" "calls = calls1 @ calls2"
      using Cons.prems i by (auto split: prod.splits)
    obtain k where k: "k \<le> length ts" "running \<longrightarrow> k = length ts"
      and eq: "taken calls2 @ ch_buf ch' = ch_buf ch1 @ concat (map wt_sent (take k ts))"
      using Cons.IH [OF c(1)] by blast
    have "taken calls @ ch_buf ch' = (taken calls1 @ ch_buf ch1) @ concat (map wt_sent (take k ts))"
      using c(2) eq by simp
    then show ?thesis using t k by (intro exI [of _ "Suc k"]) simp
  qed
qed

text \<open>Every turn is without a fault and without a new message.\<close>

definition quiet_turn :: "write_turn \<Rightarrow> bool" where
  "quiet_turn t \<longleftrightarrow> wt_sent t = [] \<and> (wt_case t = SelMessage None \<or> wt_case t = SelTicker None)"

definition receives :: "write_turn \<Rightarrow> bool" where
  "receives t \<longleftrightarrow> wt_case t = SelMessage None"

lemma write_iteration_quiet:
  assumes "quiet_turn t" "ch_closed ch"
  shows "write_iteration t ch =
    (if \<not> receives t then ([CallPing], ch, True)
     else case ch_buf ch of
       [] \<Rightarrow> ([CallClose ''hub closed'', CallClose []], ch, False)
     | x # xs \<Rightarrow> ([CallWrite x], ch\<lparr>ch_buf := xs\<rparr>, True))"
proof -
  have "arrive t ch = ch" using assms by (simp add: arrive_def quiet_turn_def)
  then show ?thesis
    using assms by (auto simp: write_iteration_def quiet_turn_def receives_def split: list.splits)
qed

section \<open>Properties\<close>

text \<open>C36: a connection's last messages are written before it is closed. When the hub has closed a client's
  channel, from there on no write and no ping fails, and the writer gets to receive more often than there are
  messages left, then it writes all of them, in order, closes the connection and returns; pings may come
  between.\<close>

theorem WritePump_drains:
  assumes "ch_closed ch" "\<forall>t \<in> set ts. quiet_turn t" "length (ch_buf ch) < length (filter receives ts)"
  shows "\<exists>calls. WritePump ts ch = (calls @ [CallClose ''hub closed'', CallClose []], ch\<lparr>ch_buf := []\<rparr>, False) \<and>
    written calls = ch_buf ch \<and> set calls \<subseteq> insert CallPing (CallWrite ` set (ch_buf ch))"
  using assms
proof (induction ts arbitrary: ch)
  case Nil
  then show ?case by simp
next
  case (Cons t ts)
  have q: "quiet_turn t" "\<forall>t \<in> set ts. quiet_turn t" using Cons.prems(2) by simp_all
  note i = write_iteration_quiet [OF q(1) Cons.prems(1)]
  show ?case
  proof (cases "receives t")
    case False
    then obtain calls where c: "WritePump ts ch = (calls @ [CallClose ''hub closed'', CallClose []], ch\<lparr>ch_buf := []\<rparr>, False)"
      "written calls = ch_buf ch" "set calls \<subseteq> insert CallPing (CallWrite ` set (ch_buf ch))"
      using Cons.IH [OF Cons.prems(1) q(2)] Cons.prems(3) by auto
    then show ?thesis using False i by (intro exI [of _ "CallPing # calls"]) simp
  next
    case True
    show ?thesis
    proof (cases "ch_buf ch")
      case Nil
      then show ?thesis using True i by simp
    next
      case (Cons x xs)
      let ?ch = "ch\<lparr>ch_buf := xs\<rparr>"
      obtain calls where c: "WritePump ts ?ch = (calls @ [CallClose ''hub closed'', CallClose []], ch\<lparr>ch_buf := []\<rparr>, False)"
        "written calls = xs" "set calls \<subseteq> insert CallPing (CallWrite ` set xs)"
        using Cons.IH [of ?ch] q(2) Cons.prems(1,3) True Cons by auto
      then show ?thesis using True i Cons by (intro exI [of _ "CallWrite x # calls"]) auto
    qed
  qed
qed

text \<open>C14: the goroutines of the gateway keep to the hub's protocol. Let every client be absent or handled by
  a connection, with any sequence of reads, subscriptions and snapshots. In every interleaving of the
  connections with the hub, the cache, the price feed and the writers, the hub is in a state that its
  step relation reaches; a registered client has an open channel, so neither a client that leaves nor the
  shutdown panics with a second close; and whenever a connection is ready for its next step, that step is
  one the relation allows.\<close>

theorem gateway_keeps_protocol:
  assumes "\<forall>c. prog c = [] \<or> (\<exists>unmarshal snapshot al channel ts. prog c = connection_ops unmarshal snapshot al channel c ts)"
    and "gateway_run prog h todo"
  shows "hub_reachable (\<lambda>_ _. True) h \<and> (\<forall>c. registered h c \<longrightarrow> \<not> closed h c) \<and>
    (\<forall>c. exec (OpLeave c) h \<noteq> None) \<and> exec OpCloseAll h \<noteq> None \<and>
    (\<forall>c op rest. todo c = op # rest \<longrightarrow> reader_ready op h \<longrightarrow> enabled op h)"
proof -
  have "fits_phase c Fresh (prog c)" for c
    using assms(1) [rule_format, of c] fits_connection fits_absent by metis
  then have f: "hub_reachable (\<lambda>_ _. True) h" "\<And>c. fits_phase c (hb_phase h c) (todo c)"
    using gateway_fits [OF assms(2)] by auto
  have "enabled op h" if "todo c = op # rest" "reader_ready op h" for c op rest
    using fits_enabled [of c h op rest] f(2) [of c] that by simp
  with f(1) hub_closes_once [OF f(1)] show ?thesis by blast
qed

section \<open>Witnesses\<close>

definition demo_write_turns :: "write_turn list" where
  "demo_write_turns =
     [\<lparr> wt_sent = [], wt_closed = False, wt_case = SelMessage None \<rparr>,
      \<lparr> wt_sent = [], wt_closed = False, wt_case = SelTicker None \<rparr>,
      \<lparr> wt_sent = [], wt_closed = False, wt_case = SelMessage None \<rparr>]"

theorem WritePump_drains_witness:
  "WritePump demo_write_turns \<lparr> ch_buf = [''snap''], ch_closed = True \<rparr> =
     ([CallWrite ''snap'', CallPing, CallClose ''hub closed'', CallClose []], \<lparr> ch_buf = [], ch_closed = True \<rparr>, False)"
proof -
  have "\<exists>calls. WritePump demo_write_turns \<lparr> ch_buf = [''snap''], ch_closed = True \<rparr> =
      (calls @ [CallClose ''hub closed'', CallClose []], \<lparr> ch_buf = [], ch_closed = True \<rparr>, False)"
    using WritePump_drains [of "\<lparr> ch_buf = [''snap''], ch_closed = True \<rparr>" demo_write_turns]
    by (auto simp: demo_write_turns_def quiet_turn_def receives_def)
  then show ?thesis by (simp add: demo_write_turns_def write_iteration_def arrive_def Let_def)
qed

text \<open>One client, subscribed by its handler, that then closes its connection.\<close>

definition demo_prog :: "client \<Rightarrow> hub_op list" where
  "demo_prog = (\<lambda>c. if c = 1 then connection_ops (\<lambda>_. Inl ''bad'') (\<lambda>_. Inl ''none'') (Inl ''none'') ''prices'' 1
     [\<lparr> rt_read = ReadError True, rt_snapshot = (\<lambda>_. Inl ''none''), rt_all = Inl ''none'' \<rparr>] else [])"

lemma demo_prog_1: "demo_prog 1 = [OpRegister 1, OpSubAdd 1 ''prices'', OpLeave 1]"
  by (simp add: demo_prog_def connection_ops_def subscribe_ops_def)

lemma demo_gateway_run: "gateway_run demo_prog (one_client ''prices'' NewClient True []) (demo_prog(1 := [OpLeave 1]))"
proof -
  let ?h = "set_phase 1 Reading (run_register 1 NewHub)"
  have "gateway_run demo_prog ?h (demo_prog(1 := [OpSubAdd 1 ''prices'', OpLeave 1]))"
    by (rule gateway_run.reader [where todo = demo_prog and c = 1 and op = "OpRegister 1", OF gateway_run.start])
      (simp_all add: demo_prog_1 [simplified] NewHub_def)
  then have "gateway_run demo_prog (sub_add 1 ''prices'' ?h) ((demo_prog(1 := [OpSubAdd 1 ''prices'', OpLeave 1]))(1 := [OpLeave 1]))"
    by (rule gateway_run.reader [where op = "OpSubAdd 1 ''prices''"]) simp_all
  moreover have "sub_add 1 ''prices'' ?h = one_client ''prices'' NewClient True []"
    using one_client_start [of "''prices''"] by (simp add: NewHub_def NewClient_def set_phase_def)
  ultimately show ?thesis by simp
qed

theorem gateway_keeps_protocol_witness:
  "hub_reachable (\<lambda>_ _. True) (one_client ''prices'' NewClient True []) \<and>
   enabled (OpLeave 1) (one_client ''prices'' NewClient True [])"
proof -
  have "demo_prog c = [] \<or> (\<exists>unmarshal snapshot al channel ts. demo_prog c = connection_ops unmarshal snapshot al channel c ts)" for c
    unfolding demo_prog_def by (cases "c = 1") (simp_all, blast)
  with gateway_keeps_protocol [OF _ demo_gateway_run] show ?thesis
    by (simp add: one_client_def NewHub_def)
qed

end
