(* ===== verification/Gateway.thy ===== *)
theory Gateway
  imports Jobs Api Client_Pumps
begin

text \<open>
  \<^verbatim>\<open>cmd/api/main.go\<close>, \<open>main\<close>: the start of the gateway, its table of routes and its CORS policy.

  The router and the CORS middleware are libraries; modelled is what they are given. The rows of
  the tables \<open>limit_orders\<close> and \<open>pairs\<close> that \<open>LoadFromDB\<close> of the cache selects are added to those of
  \<open>Api\<close>.

  Proved here: a gateway that starts holds the positions and orders of the database, column by column,
  and follows it except for the events stored between its load and its subscription; the handlers of the connections perform the steps of \<open>Client_Pumps\<close>; when
  credentials are allowed.
\<close>

section \<open>The queries of the cache\<close>

definition cached_limit_of :: "location \<Rightarrow> limit_key \<times> limit_rec \<Rightarrow> cached_limit" where
  "cached_limit_of loc = (\<lambda>(k, r).
     \<lparr> cl_Trader = lk_Trader k, cl_PairIndex = lk_PairIndex k, cl_LimitIndex = lk_LimitIndex k,
       cl_IsLong = lx_is_long r, cl_Leverage = lx_leverage r, cl_Collateral = int_dec (lx_collateral r),
       cl_LimitPrice = int_dec (lx_limit_price r), cl_TpPrice = int_dec (lx_tp_price r),
       cl_SlPrice = int_dec (lx_sl_price r), cl_PlacedAt = time_Format_RFC3339 loc (lx_placed_at r) \<rparr>)"

definition select_cache_limits :: "location \<Rightarrow> pair_db \<Rightarrow> cached_limit option list" where
  "select_cache_limits loc d = map (\<lambda>kr. Some (cached_limit_of loc kr)) (db_limit_orders (pd_db d))"

definition select_cache_pairs :: "pair_db \<Rightarrow> cached_pair option list" where
  "select_cache_pairs d =
     map (\<lambda>(i, p). Some \<lparr> cp_PairIndex = i, cp_Symbol = px_symbol p, cp_MinLeverage = px_min_leverage p,
            cp_MaxLeverage = px_max_leverage p, cp_LiqThresholdP = px_liq_threshold_p p,
            cp_Disabled = px_disabled p \<rparr>) (pd_pairs d)"

section \<open>The server\<close>

record api_config =
  ac_HTTPAddr :: string
  ac_CORSAllowedOrigins :: string
  ac_BinanceWSURL :: string
  ac_PairSymbolMap :: string

definition api_config_of :: "config \<Rightarrow> api_config" where
  "api_config_of c =
     \<lparr> ac_HTTPAddr = cf_HTTPAddr c, ac_CORSAllowedOrigins = cf_CORSAllowedOrigins c,
       ac_BinanceWSURL = cf_BinanceWSURL c, ac_PairSymbolMap = cf_PairSymbolMap c \<rparr>"

record cors_options =
  cs_AllowedOrigins :: "string list"
  cs_AllowedMethods :: "string list"
  cs_AllowedHeaders :: "string list"
  cs_AllowCredentials :: bool
  cs_MaxAge :: int

definition cors_policy :: "string \<Rightarrow> cors_options" where
  "cors_policy allowed =
     (let origins = map strings_TrimSpace (split_byte (CHR '','') allowed);
          allowAll = (length origins = 1 \<and> hd origins = ''*'')
      in \<lparr> cs_AllowedOrigins = origins,
           cs_AllowedMethods = [''GET'', ''POST'', ''PUT'', ''PATCH'', ''DELETE'', ''OPTIONS''],
           cs_AllowedHeaders = [''Accept'', ''Authorization'', ''Content-Type''],
           cs_AllowCredentials = (\<not> allowAll), cs_MaxAge = 300 \<rparr>)"

datatype handler =
    Healthz
  | GetPairs
  | GetPair
  | GetPairGroups
  | GetPairGroup
  | GetTrades
  | GetTradingHistory
  | TradeWebSocket
  | AllTradesWebSocket
  | PricesWebSocket

definition routes :: "(string \<times> handler) list" where
  "routes =
     [(''/healthz'', Healthz),
      (''/v1/pairs'', GetPairs), (''/v1/pairs/{pair_index}'', GetPair),
      (''/v1/pair-groups'', GetPairGroups), (''/v1/pair-groups/{group_index}'', GetPairGroup),
      (''/api/v1/pairs'', GetPairs), (''/api/v1/pairs/{pair_index}'', GetPair),
      (''/api/v1/pair-groups'', GetPairGroups), (''/api/v1/pair-groups/{group_index}'', GetPairGroup),
      (''/v1/trades/{trader}'', GetTrades), (''/api/v1/trading-history/{trader}'', GetTradingHistory),
      (''/ws/v1/trades/{trader}'', TradeWebSocket), (''/ws/v1/trades'', AllTradesWebSocket),
      (''/ws/v1/prices'', PricesWebSocket)]"

record api_server =
  as_cache :: trade_cache
  as_hub :: hub
  as_cors :: cors_options
  as_routes :: "(string \<times> handler) list"
  as_feed :: "price_feed option"
  as_Addr :: string
  as_ReadTimeout :: i64
  as_WriteTimeout :: i64

text \<open>\<open>main\<close> up to the point where the server runs: the connections, the cache, the hub, the routes, and the
  price feed if it is configured.\<close>

definition api_main ::
  "(string \<Rightarrow> string) \<Rightarrow> (string \<Rightarrow> string) \<Rightarrow> api_config \<Rightarrow> ping_env \<Rightarrow> ping_env
   \<Rightarrow> string + cache_trade_row option list \<Rightarrow> string + cached_limit option list \<Rightarrow> string + cached_pair option list
   \<Rightarrow> string + api_server" where
  "api_main up lo cfg rde dbe tq lq pq =
     (case OpenRedis rde of
        Inl err \<Rightarrow> Inl (''redis open: '' @ err)
      | Inr _ \<Rightarrow>
     (case db_Open dbe of
        Inl err \<Rightarrow> Inl (''db open: '' @ err)
      | Inr _ \<Rightarrow>
     (case Cache_LoadFromDB tq lq pq NewTradeCache of
        (Some err, cache) \<Rightarrow> Inl (''load cache: '' @ err)
      | (None, cache) \<Rightarrow>
          Inr \<lparr> as_cache = cache, as_hub = NewHub, as_cors = cors_policy (ac_CORSAllowedOrigins cfg),
                as_routes = routes,
                as_feed = (if ac_BinanceWSURL cfg \<noteq> [] \<and> ac_PairSymbolMap cfg \<noteq> []
                           then Some (NewPriceFeed up lo (ac_BinanceWSURL cfg) (ac_PairSymbolMap cfg)) else None),
                as_Addr = ac_HTTPAddr cfg, as_ReadTimeout = 10 * 1000000000,
                as_WriteTimeout = 10 * 1000000000 \<rparr>)))"

section \<open>Routes and origins\<close>

lemma routes_distinct: "distinct (map fst routes)"
  by (simp add: routes_def)

text \<open>Every handler has a route, and the endpoints for pairs and groups have two.\<close>

lemma routes_complete: "h \<in> snd ` set routes"
  by (cases h) (simp_all add: routes_def)

lemma cors_credentials:
  "cs_AllowCredentials (cors_policy allowed) \<longleftrightarrow> cs_AllowedOrigins (cors_policy allowed) \<noteq> [''*'']"
proof -
  have "split_byte (CHR '','') allowed \<noteq> []"
    by (cases allowed) (simp_all split: list.splits)
  then show ?thesis by (cases "split_byte (CHR '','') allowed") (auto simp: cors_policy_def Let_def)
qed

text \<open>A wildcard among other origins comes with credentials.\<close>

lemma cors_wildcard_with_credentials:
  "''*'' \<in> set (cs_AllowedOrigins (cors_policy ''*,null'')) \<and> cs_AllowCredentials (cors_policy ''*,null'')"
proof -
  have "strings_TrimSpace ''*'' = ''*''" by code_simp
  then show ?thesis by (simp add: cors_policy_def Let_def)
qed

section \<open>The handlers of connections\<close>

text \<open>A handler performs the first steps of its connection.\<close>

lemma ws_connect_ops:
  "ws_connect None snapshot al channel c h = exec_all (OpRegister c # subscribe_ops snapshot al c channel) h"
  by (simp add: ws_connect_def exec_subscribe_ops)

section \<open>Loading\<close>

context indexed_slice
begin

definition load_all :: "'a list \<Rightarrow> (string, 'a list) gmap \<Rightarrow> (string, 'a list) gmap" where
  "load_all xs m = fold (\<lambda>x m. gm_put (owner x) (slice_of m (owner x) @ [x]) m) xs m"

lemma load_all_ok:
  assumes "slices_ok m" "distinct (map (\<lambda>x. (owner x, idx x)) xs)"
    and "\<forall>x \<in> set xs. \<not> present m (owner x) (fst (idx x)) (snd (idx x))"
  shows "slices_ok (load_all xs m) \<and>
    (\<forall>u p i. present (load_all xs m) u p i \<longleftrightarrow> present m u p i \<or> (u, p, i) \<in> (\<lambda>x. (owner x, idx x)) ` set xs)"
  using assms
proof (induction xs arbitrary: m)
  case Nil
  then show ?case by (simp add: load_all_def)
next
  case (Cons x xs)
  let ?m = "gm_put (owner x) (slice_of m (owner x) @ [x]) m"
  have p: "present ?m u p i \<longleftrightarrow> present m u p i \<or> (u, p, i) = (owner x, idx x)" for u p i
    by (auto simp: present_def)
  have "slices_ok ?m" using Cons.prems by (intro slices_ok_append) auto
  moreover have "(owner y, idx y) \<noteq> (owner x, idx x)" if "y \<in> set xs" for y
    using Cons.prems(2) that by (auto simp: image_iff)
  then have "\<forall>y \<in> set xs. \<not> present ?m (owner y) (fst (idx y)) (snd (idx y))"
    using Cons.prems(3) unfolding p by simp
  ultimately have "slices_ok (load_all xs ?m) \<and>
      (\<forall>u p i. present (load_all xs ?m) u p i \<longleftrightarrow> present ?m u p i \<or> (u, p, i) \<in> (\<lambda>x. (owner x, idx x)) ` set xs)"
    using Cons.IH Cons.prems(2) by simp
  moreover have "load_all (x # xs) m = load_all xs ?m" by (simp add: load_all_def)
  ultimately show ?case unfolding p by auto
qed

lemma slice_load_all: "slice_of (load_all xs m) u = slice_of m u @ filter (\<lambda>x. owner x = u) xs"
  by (induction xs arbitrary: m) (simp_all add: load_all_def)

end

lemma load_trades: "fold load_cached_trade (select_cache_rows loc d) m = trades.load_all (map (cached_of loc d) (db_trades (pd_db d))) m"
proof -
  have "fold load_cached_trade (map (\<lambda>kr. Some (cache_row_of loc d kr)) xs) m = trades.load_all (map (cached_of loc d) xs) m" for xs
    by (induction xs arbitrary: m)
      (simp_all add: trades.load_all_def load_cached_trade_def cached_of_def case_prod_beta Let_def)
  then show ?thesis by (simp add: select_cache_rows_def)
qed

lemma load_limits: "fold load_cached_limit (select_cache_limits loc d) m = limits.load_all (map (cached_limit_of loc) (db_limit_orders (pd_db d))) m"
proof -
  have "fold load_cached_limit (map (\<lambda>kr. Some (cached_limit_of loc kr)) xs) m = limits.load_all (map (cached_limit_of loc) xs) m" for xs
    by (induction xs arbitrary: m) (simp_all add: limits.load_all_def load_cached_limit_def)
  then show ?thesis by (simp add: select_cache_limits_def)
qed

lemma load_pairs_wf: "gm_wf m \<Longrightarrow> gm_wf (fold load_cached_pair rows m)"
  by (induction rows arbitrary: m) (auto simp: load_cached_pair_def split: option.splits)

lemma loaded_keys:
  assumes "gm_wf m" "\<And>k r. owner (f (k, r)) = ow k" "\<And>k r. idx (f (k, r)) = ix k" "\<And>k k'. ow k = ow k' \<Longrightarrow> ix k = ix k' \<Longrightarrow> k = k'"
  shows "distinct (map (\<lambda>x. (owner x, idx x)) (map f m))"
    and "(ow k, ix k) \<in> (\<lambda>x. (owner x, idx x)) ` set (map f m) \<longleftrightarrow> k \<in> dom (gm_get m)"
proof -
  have e: "map (\<lambda>x. (owner x, idx x)) (map f m) = map (\<lambda>k. (ow k, ix k)) (map fst m)"
    using assms(2,3) by auto
  have i: "inj (\<lambda>k. (ow k, ix k))" using assms(4) by (auto simp: inj_def)
  show "distinct (map (\<lambda>x. (owner x, idx x)) (map f m))"
    unfolding e using gm_wf_keys [OF assms(1)] inj_on_subset [OF i] by (simp only: distinct_map) blast
  have "(\<lambda>x. (owner x, idx x)) ` set (map f m) = (\<lambda>k. (ow k, ix k)) ` set (map fst m)"
    using e by (metis list.set_map)
  then show "(ow k, ix k) \<in> (\<lambda>x. (owner x, idx x)) ` set (map f m) \<longleftrightarrow> k \<in> dom (gm_get m)"
    using inj_image_mem_iff [OF i, of k "set (map fst m)"] gm_keys [of k m] by (simp add: dom_def del: set_map)
qed

text \<open>The cache that \<open>LoadFromDB\<close> fills.\<close>

lemma Cache_LoadFromDB_open:
  assumes "Cache_LoadFromDB (Inr (select_cache_rows loc d)) (Inr (select_cache_limits loc d)) (Inr prows) NewTradeCache = (None, c)"
    and "gm_wf (db_trades (pd_db d))" "gm_wf (db_limit_orders (pd_db d))"
  shows "cache_ok c \<and> cache_open c = db_open (pd_db d) \<and> cache_open_limits c = db_open_limits (pd_db d)"
proof -
  let ?ts = "map (cached_of loc d) (db_trades (pd_db d))" and ?ls = "map (cached_limit_of loc) (db_limit_orders (pd_db d))"
  note tk = loaded_keys [where m = "db_trades (pd_db d)" and f = "cached_of loc d" and owner = ct_Trader
      and idx = "\<lambda>t. (ct_PairIndex t, ct_TradeIndex t)" and ow = tk_Trader and ix = "\<lambda>k. (tk_PairIndex k, tk_TradeIndex k)"]
  note lk = loaded_keys [where m = "db_limit_orders (pd_db d)" and f = "cached_limit_of loc" and owner = cl_Trader
      and idx = "\<lambda>l. (cl_PairIndex l, cl_LimitIndex l)" and ow = lk_Trader and ix = "\<lambda>k. (lk_PairIndex k, lk_LimitIndex k)"]
  have t: "distinct (map (\<lambda>x. (ct_Trader x, ct_PairIndex x, ct_TradeIndex x)) ?ts)"
    "\<And>k. (tk_Trader k, tk_PairIndex k, tk_TradeIndex k) \<in> (\<lambda>x. (ct_Trader x, ct_PairIndex x, ct_TradeIndex x)) ` set ?ts \<longleftrightarrow>
       k \<in> db_open (pd_db d)"
    using tk assms(2) by (simp_all add: cached_of_key cached_of_index trade_key.expand db_open_def del: set_map)
  have l: "distinct (map (\<lambda>x. (cl_Trader x, cl_PairIndex x, cl_LimitIndex x)) ?ls)"
    "\<And>k. (lk_Trader k, lk_PairIndex k, lk_LimitIndex k) \<in> (\<lambda>x. (cl_Trader x, cl_PairIndex x, cl_LimitIndex x)) ` set ?ls \<longleftrightarrow>
       k \<in> db_open_limits (pd_db d)"
    using lk assms(3) by (simp_all add: cached_limit_of_def limit_key.expand db_open_limits_def del: set_map)
  have c: "tc_trades c = trades.load_all ?ts gm_empty" "tc_limits c = limits.load_all ?ls gm_empty" "gm_wf (tc_pairs c)"
    using assms(1) by (auto simp: Cache_LoadFromDB_def load_trades load_limits load_pairs_wf Let_def)
  have e: "\<not> trades.present gm_empty u p i" "\<not> limits.present gm_empty u p i" for u p i
    by (simp_all add: trades.present_def limits.present_def slice_of_def)
  note tl = trades.load_all_ok [OF trades.slices_ok_empty t(1)] and ll = limits.load_all_ok [OF limits.slices_ok_empty l(1)]
  show ?thesis
    using tl ll c e t(2) l(2) by (auto simp: cache_ok_def cache_open_def cache_open_limits_def simp del: set_map)
qed

section \<open>Properties\<close>

text \<open>What an entry of the cache has to show of a row of \<open>trades\<close> and of \<open>limit_orders\<close>: each column in its field.\<close>

definition shows_trade :: "location \<Rightarrow> trade_key \<times> trade_rec \<Rightarrow> cached_trade \<Rightarrow> bool" where
  "shows_trade loc = (\<lambda>(k, r) t.
     ct_Trader t = tk_Trader k \<and> ct_PairIndex t = tk_PairIndex k \<and> ct_TradeIndex t = tk_TradeIndex k \<and>
     ct_IsLong t = tx_is_long r \<and> ct_Leverage t = tx_leverage r \<and> ct_Collateral t = int_dec (tx_collateral r) \<and>
     ct_OpenPrice t = int_dec (tx_open_price r) \<and> ct_AccRolloverOpen t = int_dec (tx_acc_rollover_open r) \<and>
     ct_AccFundingOpen t = int_dec (tx_acc_funding_open r) \<and> ct_TpPrice t = int_dec (tx_tp_price r) \<and>
     ct_SlPrice t = int_dec (tx_sl_price r) \<and> ct_LiqPrice t = int_dec (tx_liq_price r) \<and>
     ct_OpenedAt t = time_Format_RFC3339 loc (tx_opened_at r))"

definition shows_limit :: "location \<Rightarrow> limit_key \<times> limit_rec \<Rightarrow> cached_limit \<Rightarrow> bool" where
  "shows_limit loc = (\<lambda>(k, r) l.
     cl_Trader l = lk_Trader k \<and> cl_PairIndex l = lk_PairIndex k \<and> cl_LimitIndex l = lk_LimitIndex k \<and>
     cl_IsLong l = lx_is_long r \<and> cl_Leverage l = lx_leverage r \<and> cl_Collateral l = int_dec (lx_collateral r) \<and>
     cl_LimitPrice l = int_dec (lx_limit_price r) \<and> cl_TpPrice l = int_dec (lx_tp_price r) \<and>
     cl_SlPrice l = int_dec (lx_sl_price r) \<and> cl_PlacedAt l = time_Format_RFC3339 loc (lx_placed_at r))"

lemma loaded_shows:
  assumes "Cache_LoadFromDB (Inr (select_cache_rows loc d)) (Inr (select_cache_limits loc d)) (Inr prows) NewTradeCache = (None, c)"
  shows "list_all2 (shows_trade loc) (filter (\<lambda>(k, r). tk_Trader k = u) (db_trades (pd_db d))) (slice_of (tc_trades c) u)"
    and "list_all2 (shows_limit loc) (filter (\<lambda>(k, r). lk_Trader k = u) (db_limit_orders (pd_db d))) (slice_of (tc_limits c) u)"
proof -
  have "shows_trade loc kr (cached_of loc d kr)" for kr
    by (simp add: shows_trade_def cached_of_def cache_row_of_def setDynamic_eq case_prod_beta)
  then show "list_all2 (shows_trade loc) (filter (\<lambda>(k, r). tk_Trader k = u) (db_trades (pd_db d))) (slice_of (tc_trades c) u)"
    unfolding loaded_slice [OF assms] by (simp add: list_all2_map2 list_all2_same)
  have "tc_limits c = limits.load_all (map (cached_limit_of loc) (db_limit_orders (pd_db d))) gm_empty"
    using assms by (auto simp: Cache_LoadFromDB_def load_limits Let_def)
  moreover have "slice_of gm_empty u = ([] :: cached_limit list)" by (simp add: slice_of_def)
  moreover have "cl_Trader (cached_limit_of loc kr) = lk_Trader (fst kr)" for kr by (simp add: cached_limit_of_def case_prod_beta)
  ultimately have l: "slice_of (tc_limits c) u =
      map (cached_limit_of loc) (filter (\<lambda>(k, r). lk_Trader k = u) (db_limit_orders (pd_db d)))"
    by (simp add: limits.slice_load_all filter_map comp_def case_prod_beta')
  have "shows_limit loc kr (cached_limit_of loc kr)" for kr
    by (simp add: shows_limit_def cached_limit_of_def case_prod_beta)
  then show "list_all2 (shows_limit loc) (filter (\<lambda>(k, r). lk_Trader k = u) (db_limit_orders (pd_db d))) (slice_of (tc_limits c) u)"
    unfolding l by (simp add: list_all2_map2 list_all2_same)
qed

text \<open>The cache knows the events it receives, the tables know those before its subscription as well.\<close>

lemma events_after_load:
  assumes "Cache_LoadFromDB (Inr (select_cache_rows loc d)) (Inr (select_cache_limits loc d)) (Inr prows) NewTradeCache = (None, c)"
    and "db_ok (pd_db d)" "\<forall>e \<in> set (gap @ parsed_events unmarshal msgs). store_accepts pg e \<and> ev_Source e = SrcPM"
  shows "cache_open (Start unmarshal msgs c) = open_run (parsed_events unmarshal msgs) (db_open (pd_db d))"
    and "cache_open_limits (Start unmarshal msgs c) = limit_run (parsed_events unmarshal msgs) (db_open_limits (pd_db d))"
    and "db_open (fold (store_step pg) (gap @ parsed_events unmarshal msgs) (pd_db d)) =
      open_run (parsed_events unmarshal msgs) (open_run gap (db_open (pd_db d)))"
    and "db_open_limits (fold (store_step pg) (gap @ parsed_events unmarshal msgs) (pd_db d)) =
      limit_run (parsed_events unmarshal msgs) (limit_run gap (db_open_limits (pd_db d)))"
proof -
  let ?es = "parsed_events unmarshal msgs"
  have c: "cache_ok c" "cache_open c = db_open (pd_db d)" "cache_open_limits c = db_open_limits (pd_db d)"
    using Cache_LoadFromDB_open [OF assms(1)] assms(2) by (auto simp: db_ok_def)
  have pm: "filter (\<lambda>e. ev_Source e = SrcPM) ?es = ?es" using assms(3) by (simp add: filter_id_conv)
  show "cache_open (Start unmarshal msgs c) = open_run ?es (db_open (pd_db d))"
    "cache_open_limits (Start unmarshal msgs c) = limit_run ?es (db_open_limits (pd_db d))"
    using cache.open_of_run [OF c(1), of ?es] cache.limits_of_run [OF c(1), of ?es] assms(3) by (simp_all add: Start_fold pm c)
  show "db_open (fold (store_step pg) (gap @ ?es) (pd_db d)) = open_run ?es (open_run gap (db_open (pd_db d)))"
    using store.open_of_run [OF assms(2,3)] by (simp only: open_run_def fold_append comp_def)
  show "db_open_limits (fold (store_step pg) (gap @ ?es) (pd_db d)) = limit_run ?es (limit_run gap (db_open_limits (pd_db d)))"
    using store.limits_of_run [OF assms(2,3)] by (simp only: limit_run_def fold_append comp_def)
qed

text \<open>C13: a gateway starts with the contents of the tables, and follows them from its subscription on. If both
  servers answer, the start succeeds on tables that satisfy the schema's constraints; for each trader, the cache
  then has one entry for each of the trader's rows in \<open>trades\<close> and \<open>limit_orders\<close> and no other, with each
  column in its field. The subscription begins after the load: with \<open>gap\<close> the events that the
  indexer stores in between, and \<open>msgs\<close> the messages delivered afterwards, the cache holds the positions and orders
  that these messages make of the loaded ones, while the tables hold what they make of the loaded ones after
  \<open>gap\<close>. So the two agree if nothing happens in the gap, under the assumption that all later events are
  delivered; what happens in the gap the cache does not see (\<open>gap_event_is_lost\<close> below).\<close>

theorem gateway_starts_ready:
  assumes "OpenRedis rde = Inr ()" "db_Open dbe = Inr ()" "db_ok (pd_db d)"
    and "\<forall>e \<in> set (gap @ parsed_events unmarshal msgs). store_accepts pg e \<and> ev_Source e = SrcPM"
  shows "\<exists>srv. api_main up lo cfg rde dbe (Inr (select_cache_rows loc d)) (Inr (select_cache_limits loc d))
      (Inr (select_cache_pairs d)) = Inr srv \<and>
    (\<forall>u. list_all2 (shows_trade loc) (filter (\<lambda>(k, r). tk_Trader k = u) (db_trades (pd_db d)))
           (slice_of (tc_trades (as_cache srv)) u) \<and>
         list_all2 (shows_limit loc) (filter (\<lambda>(k, r). lk_Trader k = u) (db_limit_orders (pd_db d)))
           (slice_of (tc_limits (as_cache srv)) u)) \<and>
    (let es = parsed_events unmarshal msgs; cache = Start unmarshal msgs (as_cache srv);
         tables = fold (store_step pg) (gap @ es) (pd_db d) in
       cache_open cache = open_run es (db_open (pd_db d)) \<and>
       cache_open_limits cache = limit_run es (db_open_limits (pd_db d)) \<and>
       db_open tables = open_run es (open_run gap (db_open (pd_db d))) \<and>
       db_open_limits tables = limit_run es (limit_run gap (db_open_limits (pd_db d))) \<and>
       (gap = [] \<longrightarrow> cache_open cache = db_open tables \<and> cache_open_limits cache = db_open_limits tables))"
proof -
  obtain c where c: "Cache_LoadFromDB (Inr (select_cache_rows loc d)) (Inr (select_cache_limits loc d))
      (Inr (select_cache_pairs d)) NewTradeCache = (None, c)"
    by (simp add: Cache_LoadFromDB_def Let_def)
  obtain srv where m: "api_main up lo cfg rde dbe (Inr (select_cache_rows loc d)) (Inr (select_cache_limits loc d))
      (Inr (select_cache_pairs d)) = Inr srv" and s: "as_cache srv = c"
    by (simp add: api_main_def assms(1,2) c)
  note run = events_after_load [OF c assms(3,4)]
  show ?thesis
    unfolding Let_def
  proof (intro exI [of _ srv] conjI allI impI)
    assume "gap = []"
    then show "cache_open (Start unmarshal msgs (as_cache srv)) =
        db_open (fold (store_step pg) (gap @ parsed_events unmarshal msgs) (pd_db d))"
      "cache_open_limits (Start unmarshal msgs (as_cache srv)) =
        db_open_limits (fold (store_step pg) (gap @ parsed_events unmarshal msgs) (pd_db d))"
      unfolding run s by (simp_all add: run open_run_def limit_run_def)
  qed (simp_all only: m s run loaded_shows [OF c])
qed

definition demo_gateway_db :: pair_db where
  "demo_gateway_db = demo_book\<lparr>pd_db := (pd_db demo_book)\<lparr>db_limit_orders :=
     [(LimitKey ''bob'' 3 4, \<lparr> lx_is_long = False, lx_leverage = 5, lx_collateral = 70, lx_limit_price = 80, lx_tp_price = 60,
        lx_sl_price = 90, lx_placed_at = 0, lx_placed_tx = ''tx1'' \<rparr>)]\<rparr>\<rparr>"

lemma demo_gateway_ok: "db_ok (pd_db demo_gateway_db)"
  by (simp add: demo_gateway_db_def demo_book_def db_ok_def empty_db_def) (simp add: gm_wf_def gm_empty_def)

theorem gateway_starts_ready_witness:
  "\<exists>srv. api_main id id \<lparr> ac_HTTPAddr = '':8080'', ac_CORSAllowedOrigins = ''*'', ac_BinanceWSURL = [], ac_PairSymbolMap = [] \<rparr>
      demo_ping demo_ping (Inr (select_cache_rows utc demo_gateway_db)) (Inr (select_cache_limits utc demo_gateway_db))
      (Inr (select_cache_pairs demo_gateway_db)) = Inr srv \<and>
    (\<exists>t l. slice_of (tc_trades (as_cache srv)) ''alice'' = [t] \<and> ct_OpenPrice t = int_dec 1000 \<and> ct_LiqPrice t = int_dec 910 \<and>
       slice_of (tc_limits (as_cache srv)) ''bob'' = [l] \<and> cl_LimitIndex l = 4 \<and> cl_TpPrice l = int_dec 60) \<and>
    cache_open (Start (\<lambda>_. Inr demo_db_opened) [''m''] (as_cache srv)) = {TradeKey ''alice'' 1 0, TradeKey ''alice'' 1 2}"
proof -
  have p: "parsed_events (\<lambda>_. Inr demo_db_opened) [''m''] = [demo_db_opened]" by (simp add: parsed_events_def)
  have t: "db_open (pd_db demo_gateway_db) = {TradeKey ''alice'' 1 0}"
    by (auto simp: db_open_def demo_gateway_db_def demo_book_def gm_get_def split: if_splits)
  have r: "open_run [demo_db_opened] {TradeKey ''alice'' 1 0} = {TradeKey ''alice'' 1 0, TradeKey ''alice'' 1 2}"
    by (auto simp: open_run_def open_step_def opened_key_def demo_db_defs)
  have a: "\<forall>e \<in> set ([] @ parsed_events (\<lambda>_. Inr demo_db_opened) [''m'']). store_accepts demo_pg e \<and> ev_Source e = SrcPM"
    using demo_accepted by (simp add: p)
  obtain srv where m: "api_main id id \<lparr> ac_HTTPAddr = '':8080'', ac_CORSAllowedOrigins = ''*'', ac_BinanceWSURL = [], ac_PairSymbolMap = [] \<rparr>
      demo_ping demo_ping (Inr (select_cache_rows utc demo_gateway_db)) (Inr (select_cache_limits utc demo_gateway_db))
      (Inr (select_cache_pairs demo_gateway_db)) = Inr srv"
    and ts: "\<And>u. list_all2 (shows_trade utc) (filter (\<lambda>(k, r). tk_Trader k = u) (db_trades (pd_db demo_gateway_db)))
        (slice_of (tc_trades (as_cache srv)) u)"
    and ls: "\<And>u. list_all2 (shows_limit utc) (filter (\<lambda>(k, r). lk_Trader k = u) (db_limit_orders (pd_db demo_gateway_db)))
        (slice_of (tc_limits (as_cache srv)) u)"
    and o: "cache_open (Start (\<lambda>_. Inr demo_db_opened) [''m''] (as_cache srv)) = open_run [demo_db_opened] {TradeKey ''alice'' 1 0}"
    using gateway_starts_ready [OF demo_open(2,1) demo_gateway_ok a, where loc = utc and up = id and lo = id
        and cfg = "\<lparr> ac_HTTPAddr = '':8080'', ac_CORSAllowedOrigins = ''*'', ac_BinanceWSURL = [], ac_PairSymbolMap = [] \<rparr>"]
    unfolding Let_def p t by blast
  have "\<exists>t. slice_of (tc_trades (as_cache srv)) ''alice'' = [t] \<and> ct_OpenPrice t = int_dec 1000 \<and> ct_LiqPrice t = int_dec 910"
    using ts [of "''alice''"] by (auto simp: demo_gateway_db_def demo_book_def list_all2_Cons1 shows_trade_def)
  moreover have "\<exists>l. slice_of (tc_limits (as_cache srv)) ''bob'' = [l] \<and> cl_LimitIndex l = 4 \<and> cl_TpPrice l = int_dec 60"
    using ls [of "''bob''"] by (auto simp: demo_gateway_db_def list_all2_Cons1 shows_limit_def)
  ultimately show ?thesis using m o r by auto
qed

text \<open>An event that is stored between the load and the subscription is lost: the tables have the position, the
  cache does not.\<close>

lemma gap_event_is_lost:
  assumes "Cache_LoadFromDB (Inr (select_cache_rows loc demo_pair_db)) (Inr (select_cache_limits loc demo_pair_db))
      (Inr prows) NewTradeCache = (None, c)"
  shows "db_open (fold (store_step demo_pg) [demo_db_opened] (pd_db demo_pair_db)) = {TradeKey ''alice'' 1 2} \<and>
    cache_open (Start unmarshal [] c) = {}"
proof -
  have p: "parsed_events unmarshal [] = []" by (simp add: parsed_events_def)
  have ok: "db_ok (pd_db demo_pair_db)" by (simp add: demo_pair_db_def db_ok_empty)
  have t: "db_open (pd_db demo_pair_db) = {}" by (auto simp: demo_pair_db_def db_open_def empty_db_def)
  have "\<forall>e \<in> set ([demo_db_opened] @ parsed_events unmarshal []). store_accepts demo_pg e \<and> ev_Source e = SrcPM"
    using demo_accepted by (simp add: p)
  note events_after_load(1,3) [OF assms ok this]
  moreover have "open_run [demo_db_opened] {} = {TradeKey ''alice'' 1 2}"
    by (auto simp: open_run_def open_step_def opened_key_def demo_db_defs)
  ultimately show ?thesis by (simp add: p t open_run_def)
qed

end
