(* ===== verification/Spec2Isabelle.thy ===== *)
theory Spec2Isabelle
  imports Gateway
begin

text \<open>
  A verification development of the Lumen Liquid backend, the off-chain part of a perpetual
  exchange on Stellar/Soroban. The contracts (position manager, vault, registry) emit events;
  the backend consists of Go processes around one PostgreSQL database and one Redis server:

  \<^item> the indexer (\<^verbatim>\<open>cmd/indexer\<close>) polls the RPC server, decodes the events
    (\<^verbatim>\<open>internal/events\<close>, \<^verbatim>\<open>internal/soroban\<close>), stores them (\<^verbatim>\<open>internal/store\<close>) and publishes them on
    Redis; \<^verbatim>\<open>cmd/indexer-replay\<close> rebuilds the tables from the audit log;
  \<^item> the keeper (\<^verbatim>\<open>cmd/keeper\<close>, \<^verbatim>\<open>internal/keeper\<close>) keeps the open positions and limit orders in
    memory, compares them with every price tick and submits liquidations, take-profit/stop-loss
    closes and limit orders to the chain;
  \<^item> the API (\<^verbatim>\<open>cmd/api\<close>, \<^verbatim>\<open>internal/wsgateway\<close>) serves queries and pushes snapshots and prices to
    websocket clients, from a cache of its own;
  \<^item> the pair indexer (\<^verbatim>\<open>cmd/pair-indexer\<close>) copies the registry's pairs, groups and fee accumulators into
    the database.

  Theories, in the order of imports, and the files they model:

  \<^item> \<open>Prelude\<close>: machine integers, decimal text, the functions of \<open>strings\<close>, \<open>strconv\<close> and
    \<open>math/big\<close> that the code calls. \<open>Go_Map\<close>: Go maps as association lists behind the locale
    \<open>keyed_store\<close>, so that the iteration order is the order of the list and a statement for all
    lists covers every order Go may choose. \<open>Go_Time\<close>, \<open>Go_Format\<close>: \<open>Parse\<close> and \<open>Format\<close> of package
    \<open>time\<close> for RFC 3339, and that they are inverse on whole seconds.
  \<^item> \<open>Keeper_Math\<close>: \<^verbatim>\<open>keeper/math.go\<close>. The liquidation price: outcome on every input, one division
    in place of three, its range, monotonicity in the fees; splitting of rollover intervals;
    funding moves between the sides.
  \<^item> \<open>Soroban_Scval\<close>: \<^verbatim>\<open>soroban/scval.go\<close>. Exactness of the wide integers, the only error of
    \<open>Native\<close>. \<open>Events\<close>: \<^verbatim>\<open>events/decode.go\<close> and \<open>DecodeScValB64\<close>. Classification, and that what the
    contract encodes is what is decoded.
  \<^item> \<open>Rpc_Client\<close>: \<^verbatim>\<open>soroban/client.go\<close>, \<^verbatim>\<open>methods.go\<close>, \<^verbatim>\<open>tx.go\<close>, every method with its request and its
    result. Failover between endpoints.
  \<^item> \<open>Positions\<close>: the abstract specification, sets of open keys, with the locale
    \<open>position_projection\<close> of a component that implements it.
  \<^item> \<open>Trade_State\<close>, \<open>Detector\<close>, \<open>Tx_Builder\<close>, \<open>Executor\<close>: \<^verbatim>\<open>keeper/state.go\<close>, \<^verbatim>\<open>detector.go\<close>,
    \<^verbatim>\<open>txbuilder.go\<close>, \<^verbatim>\<open>executor.go\<close>. The state implements the specification; \<open>Detect\<close> returns exactly
    the due actions, in any map order; the queue invariant under every interleaving of the
    keeper's goroutines (\<open>keeper_step\<close>); one submission per tick; bounded retries; what is sent
    is what was simulated.
  \<^item> \<open>Store\<close>: \<^verbatim>\<open>store/store.go\<close> over the tables of the migrations. The constraints of the schema as
    an invariant, the specification, that no closed position is lost, re-delivery, vault
    balances, the recorded reason of a close.
  \<^item> \<open>Trade_Cache\<close>: \<^verbatim>\<open>wsgateway/cache.go\<close>, with the locale \<open>indexed_slice\<close> for the slices of trades
    and of limit orders. The specification, who is notified, re-delivery.
  \<^item> \<open>Hub\<close>: \<^verbatim>\<open>wsgateway/hub.go\<close> as a state machine over the steps of all goroutines, with
    channels, their capacities and their panics. No channel is closed twice; nothing panics
    unless a client is too slow, and what happens then, or a client subscribes after the shutdown; a change reaches its trader.
  \<^item> \<open>Client_Pumps\<close>: \<^verbatim>\<open>wsgateway/client.go\<close>. The reader as the operations it performs on the hub, and
    the gateway as all interleavings of the connections with the other goroutines (\<open>gateway_run\<close>),
    which keep to the protocol of \<open>Hub\<close>; the writer with its select, and that what is buffered is
    written before the connection is closed.
  \<^item> \<open>Price_Feed\<close>: \<^verbatim>\<open>keeper/binance.go\<close> and \<^verbatim>\<open>wsgateway/pricefeed.go\<close>, with the locale \<open>reconnect_loop\<close>
    for both. Prices are exact decimals; no tick makes the detector panic; the waits.
  \<^item> \<open>Indexer\<close>: \<^verbatim>\<open>cmd/indexer\<close> and \<^verbatim>\<open>cmd/indexer-replay\<close>. Cursors, progress and resumption, what is
    published is logged, replay.
  \<^item> \<open>Restart\<close>: a restarted keeper against a listening one, over the SELECT statements of
    \<open>LoadFromDB\<close>; the locale \<open>view_projection\<close>. What the keeper has to hold of a row is specified
    column by column (\<open>position_of\<close>, \<open>order_of\<close>, \<open>fees_of\<close>), apart from the code that reads it.
  \<^item> \<open>Pair_Indexer\<close>: \<^verbatim>\<open>cmd/pair-indexer\<close>. Retries of a call, with its command line; the tables mirror
    the registry; the accumulators reach the keeper.
  \<^item> \<open>Api\<close>: \<^verbatim>\<open>cmd/api\<close>, every handler and its queries. Pagination, and where it loses rows; what is
    served is what the registry had (\<open>registry_row\<close> and \<open>served_pair\<close> spell out the columns); the endpoints
    for pairs agree with each other, and REST with the WebSocket; the liquidation price in the
    snapshots is the one that a keeper with the same tables acts on.
  \<^item> \<open>Processes\<close>: \<^verbatim>\<open>internal/db\<close>, \<^verbatim>\<open>internal/pubsub\<close>, and \<open>main\<close> of indexer and keeper. Waiting for the
    servers; a restart of the indexer is transparent; what a started keeper holds.
  \<^item> \<open>Config\<close>: \<^verbatim>\<open>internal/config\<close>, \<^verbatim>\<open>internal/log\<close> and \<^verbatim>\<open>cmd/migrate\<close>. Every key of the configuration
    is known to viper; what the migration tool does to the database, and its exit status.
  \<^item> \<open>Jobs\<close>: \<open>main\<close> of \<^verbatim>\<open>cmd/indexer-replay\<close> and of \<^verbatim>\<open>cmd/pair-indexer\<close>, the log lines of the indexer, and
    the keeper over the RPC client. What was submitted was accepted by the server; a replay rebuilds
    the tables; the job mirrors the registry although commands fail.
  \<^item> \<open>Gateway\<close>: \<open>main\<close> of \<^verbatim>\<open>cmd/api\<close> with the CORS policy, the table of routes and the queries of the
    cache. A started gateway holds what the tables hold, column by column, and follows them from its
    subscription on; what is stored between its load and its subscription it misses.
  \<^item> this theory: the three projections agree.

  Conventions. A pointer to \<open>big.Int\<close> is \<open>int option\<close>, \<open>None\<close> for nil; \<open>int32\<close> and \<open>uint32\<close> are
  32-bit words, read by \<open>sint\<close> and \<open>uint\<close>; durations are 64-bit words of nanoseconds; an error is the left summand of a result; a panic is
  \<open>None\<close>. Every function is total. Loops run over lists or, where the code bounds the attempts (30
  pings, 6 calls of the command line tool), over the attempts left; the loops that do not end
  (polling, subscriptions, reconnection, the executor's ticker) run over any finite sequence of
  environments, or are a step relation. Only \<open>follow_pages\<close>, a client of the API, has fuel; one
  more than there are rows is proved to be enough. Third-party code is a
  parameter: the Stellar SDK (record \<open>stellar\<close>), base64/XDR/strkey (record \<open>codec\<close>), JSON
  (\<open>unmarshal\<close>, \<open>json_parsers\<close>, \<open>pair_json\<close>), HTTP (\<open>transport\<close>), the WebSocket library (\<open>conn_env\<close>,
  \<open>read_turn\<close>, \<open>write_turn\<close>), the RPC server (\<open>rpc_env\<close>, \<open>poll_env\<close>), the command line tool \<open>stellar\<close>
  (\<open>cli_env\<close>), viper (the function that reads the settings handed to it), golang-migrate
  (\<open>migrate_lib\<close>) and PostgreSQL's faults (\<open>pg_env\<close>, \<open>pair_env\<close>, \<open>replay_env\<close>).
  Locks are not modelled: an operation that the code performs under a lock is one step, and so is
  a whole attempt of the keeper's executor, although it takes several locks one after the other: of its
  interleavings with the other goroutines only those between attempts are covered.

  Not modelled: log output other than that of \<open>logEvent\<close>, signals (only that a context is done), the
  matching of routes and the enforcement of the CORS policy by their libraries, JSON encoding; and
  code that nothing uses: \<open>jsonMarshalTrades\<close> of \<^verbatim>\<open>cmd/api\<close>, \<open>AccountParams\<close> and \<open>AccountEntry\<close> of
  \<^verbatim>\<open>soroban/tx.go\<close>, the filter types \<open>system\<close> and \<open>diagnostic\<close> of \<^verbatim>\<open>methods.go\<close>.
\<close>

section \<open>The three projections of the event stream\<close>

text \<open>C1: the keeper's memory, the gateway's cache and the indexer's tables agree. Fed with the same Redis
  messages, all of them events of the position manager that the indexer could store, they hold the same
  open positions and the same open limit orders.\<close>

theorem projections_agree:
  assumes "parsed_events unmarshal msgs = es"
    and "\<forall>e \<in> set es. store_accepts pg e \<and> ev_Source e = SrcPM"
  shows "ts_open (SubscribeRedis unmarshal msgs NewTradeState) = db_open (fold (store_step pg) es empty_db) \<and>
    cache_open (Start unmarshal msgs NewTradeCache) = db_open (fold (store_step pg) es empty_db) \<and>
    ts_open_limits (SubscribeRedis unmarshal msgs NewTradeState) =
      db_open_limits (fold (store_step pg) es empty_db) \<and>
    cache_open_limits (Start unmarshal msgs NewTradeCache) =
      db_open_limits (fold (store_step pg) es empty_db)"
proof -
  have pm: "filter (\<lambda>e. ev_Source e = SrcPM) es = es" using assms(2) by (simp add: filter_id_conv)
  have e: "ts_open NewTradeState = {}" "ts_open_limits NewTradeState = {}"
    "db_open empty_db = {}" "db_open_limits empty_db = {}"
    by (auto simp: ts_open_def ts_open_limits_def NewTradeState_def db_open_def db_open_limits_def empty_db_def)
  have c: "cache_open NewTradeCache = {}" "cache_open_limits NewTradeCache = {}"
    by (simp_all add: cache_open_def cache_open_limits_def NewTradeCache_def trades.present_def
        limits.present_def slice_of_def)
  show ?thesis
    using store.open_of_run [OF db_ok_empty assms(2)] store.limits_of_run [OF db_ok_empty assms(2)]
      keeper.open_of_run [OF ts_wf_New, of es] keeper.limits_of_run [OF ts_wf_New, of es]
      cache.open_of_run [OF cache_ok_New, of es] cache.limits_of_run [OF cache_ok_New, of es] assms(2)
    by (simp add: SubscribeRedis_fold Start_fold assms(1) pm e c)
qed

theorem projections_agree_witness:
  "ts_open (SubscribeRedis (\<lambda>_. Inr demo_db_opened) [''m''] NewTradeState) = {TradeKey ''alice'' 1 2} \<and>
   cache_open (Start (\<lambda>_. Inr demo_db_opened) [''m''] NewTradeCache) = {TradeKey ''alice'' 1 2}"
proof -
  have "db_open (fold (store_step demo_pg) [demo_db_opened] empty_db) = {TradeKey ''alice'' 1 2}"
    using store.open_of_run [OF db_ok_empty, of "[demo_db_opened]" demo_pg] demo_accepted
    by (auto simp: open_run_def open_step_def opened_key_def demo_db_defs db_open_def empty_db_def)
  then show ?thesis
    using projections_agree [of "\<lambda>_. Inr demo_db_opened" "[''m'']" "[demo_db_opened]" demo_pg] demo_accepted
    by (simp add: parsed_events_def)
qed

end
